theory Spec2Isabelle
  imports Complex_Main "HOL-Library.AList" "HOL-Library.Multiset"
begin

section \<open>Python strings\<close>

text \<open>
  A Python \<open>str\<close> is a sequence of Unicode code points, and \<open>len\<close>, slicing and
  \<open>startswith\<close> count code points. The model is a list of code-point numbers.
\<close>

type_synonym pystr = "nat list"

text \<open>The two title markers of \<open>extract_title_and_content\<close>: U+6807 U+9898 followed by
  the full-width colon U+FF1A, or by the ASCII colon.\<close>

definition marker_fullwidth :: pystr where
  "marker_fullwidth = [26631, 39064, 65306]"

definition marker_ascii :: pystr where
  "marker_ascii = [26631, 39064, 58]"

text \<open>\<open>str.isspace\<close> on one code point: the characters \<open>str.strip()\<close> removes.\<close>

definition isspace :: "nat \<Rightarrow> bool" where
  "isspace c \<longleftrightarrow>
     (9 \<le> c \<and> c \<le> 13) \<or> (28 \<le> c \<and> c \<le> 32) \<or> c = 133 \<or> c = 160 \<or> c = 5760 \<or>
     (8192 \<le> c \<and> c \<le> 8202) \<or> c = 8232 \<or> c = 8233 \<or> c = 8239 \<or> c = 8287 \<or> c = 12288"

definition py_strip :: "pystr \<Rightarrow> pystr" where
  "py_strip s = rev (dropWhile isspace (rev (dropWhile isspace s)))"

text \<open>\<open>s.split("\n")\<close>: the pieces between line feeds; the empty string gives one
  empty piece.\<close>

fun py_split :: "pystr \<Rightarrow> pystr list" where
  "py_split [] = [[]]"
| "py_split (c # cs) =
     (if c = 10 then [] # py_split cs
      else (case py_split cs of [] \<Rightarrow> [[c]] | l # ls \<Rightarrow> (c # l) # ls))"

text \<open>\<open>"\n".join(lines)\<close>.\<close>

fun py_join :: "pystr list \<Rightarrow> pystr" where
  "py_join [] = []"
| "py_join [l] = l"
| "py_join (l # ls) = l @ 10 # py_join ls"

definition startswith :: "pystr \<Rightarrow> pystr \<Rightarrow> bool" where
  "startswith s p \<longleftrightarrow> take (length p) s = p"

text \<open>\<open>s.replace(old, new)\<close>: every occurrence of \<open>old\<close> found scanning from the left,
  without overlap; an empty \<open>old\<close> matches before every character and at the end.\<close>

function py_replace :: "pystr \<Rightarrow> pystr \<Rightarrow> pystr \<Rightarrow> pystr" where
  "py_replace s old new =
     (if old = [] then new @ concat (map (\<lambda>c. c # new) s)
      else if s = [] then []
      else if startswith s old then new @ py_replace (drop (length old) s) old new
      else hd s # py_replace (tl s) old new)"
  by pat_completeness auto
termination
  by (relation "measure (\<lambda>(s, old, new). length s)") auto

declare py_replace.simps [simp del]

section \<open>Title and body extraction (ai_analyzer.py)\<close>

text \<open>The \<open>for i, line in enumerate(lines)\<close> loop: it stops at the first line that,
  stripped, starts with one of the markers, and leaves \<open>title\<close> and
  \<open>content_start_idx\<close> set; \<open>None\<close> is the loop running to its end with
  \<open>title = None\<close> and \<open>content_start_idx = 0\<close>.\<close>

fun find_title_line :: "nat \<Rightarrow> pystr list \<Rightarrow> (pystr \<times> nat) option" where
  "find_title_line i [] = None"
| "find_title_line i (l # ls) =
     (let line = py_strip l in
      if startswith line marker_fullwidth
        then Some (py_strip (py_replace line marker_fullwidth []), i + 1)
      else if startswith line marker_ascii
        then Some (py_strip (py_replace line marker_ascii []), i + 1)
      else find_title_line (i + 1) ls)"

text \<open>Python truthiness of \<open>title\<close>: \<open>None\<close> and the empty string are false.\<close>

definition truthy :: "pystr option \<Rightarrow> bool" where
  "truthy t \<longleftrightarrow> (case t of None \<Rightarrow> False | Some s \<Rightarrow> s \<noteq> [])"

definition extract_title_and_content :: "pystr \<Rightarrow> pystr option \<times> pystr" where
  "extract_title_and_content article_text =
     (let lines = py_split (py_strip article_text);
          (title0, idx0) = (case find_title_line 0 lines of
                              None \<Rightarrow> (None, 0)
                            | Some (t, i) \<Rightarrow> (Some t, i));
          first_line = py_strip (hd lines);
          (title1, idx1) =
             (if \<not> truthy title0 \<and> lines \<noteq> [] then
                (if length first_line > 5 \<and> length first_line < 50
                 then (Some first_line, 1) else (title0, idx0))
              else (title0, idx0));
          (title2, idx2) =
             (if \<not> truthy title1 then
                (if lines \<noteq> [] then (Some (take 30 (py_strip (hd lines))), 0)
                 else (title1, idx1))
              else (title1, idx1));
          content_lines = dropWhile (\<lambda>l. py_strip l = []) (drop idx2 lines);
          content = py_strip (py_join content_lines)
      in (title2, content))"

text \<open>Notions used to state what the branches do: the lines of the stripped text, a line
  that (stripped) starts with a marker, the title the marker branch computes from such a
  line, and the body computed from the lines that follow index \<open>n\<close>.\<close>

definition article_lines :: "pystr \<Rightarrow> pystr list" where
  "article_lines article_text = py_split (py_strip article_text)"

definition has_marker :: "pystr \<Rightarrow> bool" where
  "has_marker l \<longleftrightarrow>
     startswith (py_strip l) marker_fullwidth \<or> startswith (py_strip l) marker_ascii"

definition marker_title :: "pystr \<Rightarrow> pystr" where
  "marker_title l =
     (if startswith (py_strip l) marker_fullwidth
      then py_strip (py_replace (py_strip l) marker_fullwidth [])
      else py_strip (py_replace (py_strip l) marker_ascii []))"

definition body_from :: "nat \<Rightarrow> pystr list \<Rightarrow> pystr" where
  "body_from n ls = py_strip (py_join (dropWhile (\<lambda>l. py_strip l = []) (drop n ls)))"

text \<open>The three branches as the specification words them: the first line with a marker
  decides alone (marker prefix removed, remainder is the title), else the length test on
  the first line, else the truncated first line; exactly one branch is taken.\<close>

fun find_title_line_spec :: "nat \<Rightarrow> pystr list \<Rightarrow> (pystr \<times> nat) option" where
  "find_title_line_spec i [] = None"
| "find_title_line_spec i (l # ls) =
     (let line = py_strip l in
      if startswith line marker_fullwidth
        then Some (py_strip (drop (length marker_fullwidth) line), i + 1)
      else if startswith line marker_ascii
        then Some (py_strip (drop (length marker_ascii) line), i + 1)
      else find_title_line_spec (i + 1) ls)"

definition extract_title_and_content_spec :: "pystr \<Rightarrow> pystr option \<times> pystr" where
  "extract_title_and_content_spec article_text =
     (let lines = article_lines article_text; first_line = py_strip (hd lines) in
      case find_title_line_spec 0 lines of
        Some (t, i) \<Rightarrow> (Some t, body_from i lines)
      | None \<Rightarrow>
          if 5 < length first_line \<and> length first_line < 50
          then (Some first_line, body_from 1 lines)
          else (Some (take 30 first_line), body_from 0 lines))"

section \<open>Python values, exceptions, effects\<close>

text \<open>ASCII literals of the source as code points.\<close>

definition ascii :: "string \<Rightarrow> pystr" where
  "ascii s = map of_char s"

text \<open>What \<open>json.load\<close> returns: \<open>None\<close>, \<open>bool\<close>, \<open>int\<close>, \<open>str\<close>, \<open>list\<close>, \<open>dict\<close>. A dict
  is the list of its items in insertion order, keys distinct. Non-integer numbers are left
  out of the model.\<close>

datatype json =
    JNull
  | JBool bool
  | JInt int
  | JStr pystr
  | JList "json list"
  | JDict "(pystr \<times> json) list"

text \<open>The exceptions the modelled code raises or handles, each constructor one class.
  \<open>except Exception\<close> catches every one of them. \<open>JSONDecodeError\<close>,
  \<open>UnicodeDecodeError\<close> and \<open>UnicodeEncodeError\<close> are subclasses of \<open>ValueError\<close>, and
  none of them is an \<open>OSError\<close>; \<open>ValueError\<close> here is the class itself (what
  \<open>json.load\<close> raises on an integer literal longer than the interpreter's digit limit), and
  \<open>RecursionError\<close> is what it raises on a text nested deeper than the interpreter allows.\<close>

datatype exc =
    OSError
  | JSONDecodeError
  | UnicodeDecodeError
  | UnicodeEncodeError
  | ValueError
  | RecursionError
  | TypeError
  | RuntimeError
  | TimeoutException
  | WebDriverException

datatype level = DEBUG | INFO | WARNING | ERROR

text \<open>Observable effects, in the order they happen. A log entry carries its level and the
  place of the \<open>logger\<close> call (file and line of the source). A call of the image
  generator carries the title and what it gave (the path of the file it saved, or \<open>None\<close>
  when it raised); a call of \<open>publisher.publish\<close> carries its arguments and whether it
  returned (\<open>True\<close>) or raised.\<close>

datatype event =
    Log level string
  | Sleep rat
  | Probe pystr
  | CallApi pystr pystr
  | GenerateCover pystr "pystr option"
  | Publish pystr pystr "pystr option" bool
  | WriteRecords "json list"
  | WriteCache "(pystr \<times> json) list"
  | RemoveFile pystr
  | SaveArticle pystr pystr
  | Action string

subsection \<open>Sets of hashable values\<close>

text \<open>A Python \<open>set\<close> built from JSON values. \<open>list\<close> and \<open>dict\<close> are unhashable;
  \<open>True == 1\<close> and \<open>False == 0\<close>. The set is represented by the list of its elements
  in the order they were inserted, without two equal ones.\<close>

fun hashable :: "json \<Rightarrow> bool" where
  "hashable (JList _) = False"
| "hashable (JDict _) = False"
| "hashable _ = True"

fun py_eq :: "json \<Rightarrow> json \<Rightarrow> bool" where
  "py_eq (JBool b) (JInt n) = (n = (if b then 1 else 0))"
| "py_eq (JInt n) (JBool b) = (n = (if b then 1 else 0))"
| "py_eq x y = (x = y)"

definition py_in :: "json \<Rightarrow> json list \<Rightarrow> bool" where
  "py_in x s = list_ex (\<lambda>y. py_eq y x) s"

definition set_add :: "json \<Rightarrow> json list \<Rightarrow> json list" where
  "set_add x s = (if py_in x s then s else s @ [x])"

fun set_of_items :: "json list \<Rightarrow> json list \<Rightarrow> exc + json list" where
  "set_of_items acc [] = Inr acc"
| "set_of_items acc (x # xs) =
     (if hashable x then set_of_items (set_add x acc) xs else Inl TypeError)"

text \<open>\<open>set(v)\<close>: a list gives its elements, a string its characters, a dict its keys;
  \<open>None\<close>, a bool and an int are not iterable.\<close>

fun py_set :: "json \<Rightarrow> exc + json list" where
  "py_set (JList xs) = set_of_items [] xs"
| "py_set (JStr s) = set_of_items [] (map (\<lambda>c. JStr [c]) s)"
| "py_set (JDict kvs) = set_of_items [] (map (\<lambda>kv. JStr (fst kv)) kvs)"
| "py_set _ = Inl TypeError"

text \<open>\<open>list(s)\<close> for a set \<open>s\<close>: the elements of the set, each once, in the order the
  interpreter iterates the hash table. That order depends on the hashes (which change from
  one run to the next) and on the insertions, and is not the insertion order. It is given
  here by a sequence of choices: each number picks one of the elements that are left, and
  when the sequence ends the rest follows as inserted. Every order of the elements is the
  result of some sequence.\<close>

fun iterate_set :: "nat list \<Rightarrow> 'a list \<Rightarrow> 'a list" where
  "iterate_set ks [] = []"
| "iterate_set [] (x # xs) = x # xs"
| "iterate_set (k # ks) (x # xs) =
     (let i = k mod Suc (length xs)
      in (x # xs) ! i # iterate_set ks (take i (x # xs) @ drop (Suc i) (x # xs)))"

subsection \<open>Files holding JSON\<close>

text \<open>What reading a JSON file gives, that is \<open>os.path.exists(path)\<close> followed by
  \<open>with open(path, "r", encoding="utf-8") as f: json.load(f)\<close>: the file does not exist; or
  it exists and \<open>open\<close>, the read or the parser raises an exception (\<open>OSError\<close> when the
  file cannot be opened or read, \<open>UnicodeDecodeError\<close> when the bytes are not UTF-8,
  \<open>JSONDecodeError\<close> when the text is not JSON, \<open>RecursionError\<close> and \<open>ValueError\<close> on
  JSON texts the parser gives up on); or \<open>json.load\<close> returns a value.\<close>

datatype file_state =
    Missing
  | Fails exc
  | Json json

text \<open>What \<open>with open(path, "w", encoding="utf-8") as f: json.dump(v, f, ensure_ascii=False,
  indent=2)\<close> does with a value: the text is written and the file holds the value; or
  \<open>open\<close> raises \<open>OSError\<close> and the file is as before; or \<open>open\<close> has emptied the file
  and the dump, or closing the file, raises (\<open>UnicodeEncodeError\<close> when a string holds a lone
  surrogate, \<open>OSError\<close> when the disk is full), which leaves a text cut short.\<close>

datatype write_outcome =
    Stored
  | Refused
  | Broken exc

text \<open>A file: what reading it gives, and what writing a value to it does.\<close>

record pfile =
  content :: file_state
  on_write :: "json \<Rightarrow> write_outcome"

text \<open>The \<open>with open(path, "r", ...)\<close> block on a file that \<open>os.path.exists\<close> has
  found.\<close>

fun read_json :: "file_state \<Rightarrow> exc + json" where
  "read_json Missing = Inl OSError"
| "read_json (Fails e) = Inl e"
| "read_json (Json v) = Inr v"

text \<open>The \<open>with open(path, "w", ...)\<close> block: the exception that leaves it, if any, and
  the file afterwards. A text cut short is not JSON.\<close>

definition write_json :: "json \<Rightarrow> pfile \<Rightarrow> exc option \<times> pfile" where
  "write_json v f =
     (case on_write f v of
        Stored \<Rightarrow> (None, f\<lparr>content := Json v\<rparr>)
      | Refused \<Rightarrow> (Some OSError, f)
      | Broken e \<Rightarrow> (Some e, f\<lparr>content := Fails JSONDecodeError\<rparr>))"

section \<open>Published records (ai_analyzer.py)\<close>

definition urls_key :: pystr where
  "urls_key = ascii ''urls''"

text \<open>The body of the \<open>try\<close> of \<open>load_published_records\<close>.\<close>

definition records_of_json :: "json \<Rightarrow> (exc + json list) \<times> event list" where
  "records_of_json data =
     (case data of
        JList xs \<Rightarrow> (py_set (JList xs), [])
      | JDict kvs \<Rightarrow>
          (case map_of kvs urls_key of
             Some v \<Rightarrow> (py_set v, [])
           | None \<Rightarrow> (Inr [], [Log WARNING ''ai_analyzer.py:154'']))
      | _ \<Rightarrow> (Inr [], [Log WARNING ''ai_analyzer.py:154'']))"

text \<open>\<open>load_published_records\<close>: the result or the exception that leaves the function,
  and what it logged. The handler is \<open>except (json.JSONDecodeError, OSError)\<close>.\<close>

definition load_published_records :: "file_state \<Rightarrow> (exc + json list) \<times> event list" where
  "load_published_records f =
     (if f = Missing then (Inr [], [])
      else
        (case (case read_json f of Inl e \<Rightarrow> (Inl e, []) | Inr data \<Rightarrow> records_of_json data) of
           (Inl e, evs) \<Rightarrow>
             (if e = JSONDecodeError \<or> e = OSError
              then (Inr [], evs @ [Log WARNING ''ai_analyzer.py:157''])
              else (Inl e, evs))
         | (Inr s, evs) \<Rightarrow> (Inr s, evs)))"

text \<open>\<open>save_published_record\<close>: the exception that leaves it, if any, the file
  afterwards, and the effects. \<open>order\<close> gives the choices of \<open>list(published)\<close>. The
  handler around the write is \<open>except OSError\<close>.\<close>

definition save_published_record ::
  "(json list \<Rightarrow> nat list) \<Rightarrow> pystr \<Rightarrow> pfile \<Rightarrow> exc option \<times> pfile \<times> event list" where
  "save_published_record order u f =
     (case load_published_records (content f) of
        (Inl e, evs) \<Rightarrow> (Some e, f, evs)
      | (Inr published, evs) \<Rightarrow>
          (let published' = set_add (JStr u) published;
               array = iterate_set (order published') published'
           in case write_json (JList array) f of
                (None, f') \<Rightarrow>
                  (None, f', evs @ [WriteRecords array, Log DEBUG ''ai_analyzer.py:174''])
              | (Some e, f') \<Rightarrow>
                  if e = OSError then (None, f', evs @ [Log WARNING ''ai_analyzer.py:176''])
                  else (Some e, f', evs)))"

section \<open>Selector cache (publisher.py)\<close>

text \<open>\<open>len(cache)\<close> in the info message of \<open>load_selector_cache\<close>.\<close>

fun has_len :: "json \<Rightarrow> bool" where
  "has_len (JStr _) = True"
| "has_len (JList _) = True"
| "has_len (JDict _) = True"
| "has_len _ = False"

text \<open>\<open>load_selector_cache\<close>: the handler is \<open>except Exception\<close>, so nothing leaves the
  function; the value read is returned as it is.\<close>

definition load_selector_cache :: "file_state \<Rightarrow> json \<times> event list" where
  "load_selector_cache f =
     (if f \<noteq> Missing then
        (case (case read_json f of
                 Inl e \<Rightarrow> Inl e
               | Inr cache \<Rightarrow> if has_len cache then Inr cache else Inl TypeError) of
           Inr cache \<Rightarrow> (cache, [Log INFO ''publisher.py:122''])
         | Inl e \<Rightarrow> (JDict [], [Log WARNING ''publisher.py:125'']))
      else (JDict [], []))"

text \<open>\<open>save_selector_cache\<close>: \<open>except Exception\<close> again, whatever the write raises is
  logged as a warning.\<close>

definition save_selector_cache :: "(pystr \<times> json) list \<Rightarrow> pfile \<Rightarrow> pfile \<times> event list" where
  "save_selector_cache cache f =
     (case write_json (JDict cache) f of
        (None, f') \<Rightarrow> (f', [WriteCache cache, Log DEBUG ''publisher.py:134''])
      | (Some e, f') \<Rightarrow> (f', [Log WARNING ''publisher.py:136'']))"

text \<open>The driver. Every attempt of \<open>find_element_with_cache\<close> builds a new
  \<open>WebDriverWait\<close> and waits on the live page, so the same XPath can time out at one
  attempt and resolve at a later one. \<open>wait n xpath\<close> is what the attempt number \<open>n\<close> of
  the call (counted from 0) gives when it waits for \<open>xpath\<close>: the element, or \<open>None\<close> when
  \<open>wait.until\<close> raises (\<open>TimeoutException\<close> or any other \<open>Exception\<close>).\<close>

text \<open>The loop \<open>for selector in selectors\<close> of \<open>find_element_with_cache\<close>, entered after
  \<open>n\<close> attempts.\<close>

fun try_selectors ::
  "(nat \<Rightarrow> pystr \<Rightarrow> 'e option) \<Rightarrow> nat \<Rightarrow> pystr \<Rightarrow> pystr list \<Rightarrow> (pystr \<times> json) list \<Rightarrow> pfile \<Rightarrow>
   ('e \<times> pystr) option \<times> (pystr \<times> json) list \<times> pfile \<times> event list" where
  "try_selectors wait n cache_key [] cache f = (None, cache, f, [])"
| "try_selectors wait n cache_key (selector # rest) cache f =
     (case wait n selector of
        Some element \<Rightarrow>
          (let cache' = AList.update cache_key (JStr selector) cache;
               (f', evs) = save_selector_cache cache' f
           in (Some (element, selector), cache', f',
               Probe selector # evs @ [Log INFO ''publisher.py:183'']))
      | None \<Rightarrow>
          (let (r, cache', f', evs) = try_selectors wait (Suc n) cache_key rest cache f
           in (r, cache', f', Probe selector # evs)))"

text \<open>\<open>cached_selector and cached_selector in selectors\<close>: the cached value is true
  (a non-empty string; other true JSON values are never equal to a selector) and is one
  of the candidates.\<close>

definition cached_candidate :: "(pystr \<times> json) list \<Rightarrow> pystr \<Rightarrow> pystr list \<Rightarrow> pystr option" where
  "cached_candidate cache cache_key selectors =
     (case map_of cache cache_key of
        Some (JStr c) \<Rightarrow> if c \<noteq> [] \<and> c \<in> set selectors then Some c else None
      | _ \<Rightarrow> None)"

definition find_element_with_cache ::
  "(nat \<Rightarrow> pystr \<Rightarrow> 'e option) \<Rightarrow> pystr \<Rightarrow> pystr list \<Rightarrow> (pystr \<times> json) list \<Rightarrow> pfile \<Rightarrow>
   ('e \<times> pystr) option \<times> (pystr \<times> json) list \<times> pfile \<times> event list" where
  "find_element_with_cache wait cache_key selectors cache f =
     (case cached_candidate cache cache_key selectors of
        Some c \<Rightarrow>
          (case wait 0 c of
             Some element \<Rightarrow>
               (Some (element, c), cache, f, [Probe c, Log DEBUG ''publisher.py:165''])
           | None \<Rightarrow>
               (let (r, cache', f', evs) = try_selectors wait 1 cache_key selectors cache f
                in (r, cache', f', Probe c # Log DEBUG ''publisher.py:168'' # evs)))
      | None \<Rightarrow> try_selectors wait 0 cache_key selectors cache f)"

text \<open>The XPaths a run of events has waited for, in order.\<close>

fun probed :: "event list \<Rightarrow> pystr list" where
  "probed [] = []"
| "probed (Probe s # evs) = s # probed evs"
| "probed (_ # evs) = probed evs"

text \<open>A list that represents a Python set: hashable elements, no two of them equal for
  Python.\<close>

fun py_distinct :: "json list \<Rightarrow> bool" where
  "py_distinct [] = True"
| "py_distinct (x # xs) = (hashable x \<and> \<not> py_in x xs \<and> py_distinct xs)"

section \<open>Orchestration (ai_analyzer.py, publisher.py)\<close>

text \<open>A work item is a dict of the hot-search list; \<open>item.get("title")\<close> and
  \<open>item.get("url")\<close> are a string, or \<open>None\<close> when the key is absent.\<close>

record work_item =
  item_title :: "pystr option"
  item_url :: "pystr option"

text \<open>The collaborators outside the repository's control flow, over a state \<open>'x\<close> of the
  outside world: the text API (called with the topic and the URL the prompt is built
  from; the empty string is its failure), the image generator (\<open>None\<close>: it raised, else
  the path of the file it saved), the \<open>publisher\<close> object handed to
  \<open>process_hot_searches\<close> (\<open>False\<close>: \<open>publish\<close> raised), the Markdown conversion,
  whether \<open>os.remove\<close> succeeds on a path, and the order in which the interpreter of
  this run iterates a set (the choices of \<open>iterate_set\<close>).\<close>

record 'x env =
  call_deepseek_api :: "pystr \<Rightarrow> pystr \<Rightarrow> 'x \<Rightarrow> pystr \<times> 'x"
  generate_cover_image :: "pystr \<Rightarrow> pystr \<Rightarrow> 'x \<Rightarrow> pystr option \<times> 'x"
  publish :: "pystr \<Rightarrow> pystr \<Rightarrow> pystr option \<Rightarrow> 'x \<Rightarrow> bool \<times> 'x"
  markdown_to_html :: "pystr \<Rightarrow> pystr"
  os_remove :: "pystr \<Rightarrow> 'x \<Rightarrow> bool"
  set_order :: "json list \<Rightarrow> nat list"

text \<open>What the run changes: the outside world, the published-record file, and the cover
  files that exist.\<close>

record 'x world =
  ext :: 'x
  records_file :: pfile
  files :: "pystr set"

text \<open>The arguments of \<open>process_hot_searches\<close>: whether a publisher is given, whether
  \<open>cover_mode\<close> is \<open>"generate"\<close>, the two delays, \<open>skip_published\<close> and \<open>limit\<close>.\<close>

record config =
  publisher_given :: bool
  cover_mode_generate :: bool
  publish_delay :: rat
  delay_seconds :: rat
  skip_published :: bool
  limit :: "int option"

text \<open>The retry loop \<open>for attempt in range(1, max_retries + 1)\<close> around
  \<open>generate_cover_image\<close>; it is written out twice in the source, with the same text
  (ai_analyzer.py lines 299-327, publisher.py lines 559-585). The result is
  \<open>cover_path\<close>; \<open>cover_generated\<close> is true exactly when it is not \<open>None\<close>.\<close>

function cover_attempts ::
  "'x env \<Rightarrow> pystr \<Rightarrow> pystr \<Rightarrow> nat \<Rightarrow> nat \<Rightarrow> 'x world \<Rightarrow> pystr option \<times> 'x world \<times> event list" where
  "cover_attempts env title_text article_text attempt max_retries w =
     (if attempt > max_retries then (None, w, [])
      else
        (case generate_cover_image env title_text article_text (ext w) of
           (Some path, x') \<Rightarrow>
             (Some path, w\<lparr>ext := x', files := insert path (files w)\<rparr>,
              [Log INFO ''cover:attempt'', GenerateCover title_text (Some path),
               Log INFO ''cover:generated''])
         | (None, x') \<Rightarrow>
             (let evs = [Log INFO ''cover:attempt'', GenerateCover title_text None,
                         Log WARNING ''cover:attempt failed'']
                        @ (if attempt < max_retries then [Sleep 2]
                           else [Log ERROR ''cover:retries exhausted'']);
                  (r, w', evs') =
                     cover_attempts env title_text article_text (attempt + 1) max_retries
                       (w\<lparr>ext := x'\<rparr>)
              in (r, w', evs @ evs'))))"
  by pat_completeness auto
termination
  by (relation "measure (\<lambda>(env, t, a, attempt, max_retries, w). max_retries + 1 - attempt)") auto

declare cover_attempts.simps [simp del]

text \<open>\<open>if cover_path and os.path.exists(cover_path): try: os.remove(cover_path) ...\<close>,
  with what is logged when the removal succeeds and when it raises.\<close>

definition remove_cover ::
  "'x env \<Rightarrow> event list \<Rightarrow> event list \<Rightarrow> pystr option \<Rightarrow> 'x world \<Rightarrow> 'x world \<times> event list" where
  "remove_cover env on_removed on_error cover_path w =
     (case cover_path of
        None \<Rightarrow> (w, [])
      | Some p \<Rightarrow>
          if p \<noteq> [] \<and> p \<in> files w then
            (if os_remove env p (ext w)
             then (w\<lparr>files := files w - {p}\<rparr>, RemoveFile p # on_removed)
             else (w, RemoveFile p # on_error))
          else (w, []))"

text \<open>The \<open>try\<close> block of the publishing branch of \<open>process_hot_searches\<close>, with its
  \<open>except Exception\<close> handler (ai_analyzer.py lines 291-359).\<close>

definition publish_generated ::
  "'x env \<Rightarrow> config \<Rightarrow> pystr \<Rightarrow> pystr \<Rightarrow> pystr \<Rightarrow> 'x world \<Rightarrow> 'x world \<times> event list" where
  "publish_generated env cfg title_text article_content u w =
     (let content_html = markdown_to_html env article_content;
          (cover_path, w1, evs_c) =
             (if cover_mode_generate cfg
              then cover_attempts env title_text (take 100 article_content) 1 3 w
              else (None, w, []))
      in if cover_mode_generate cfg \<and> cover_path = None
         then (w1, evs_c @ [Log WARNING ''ai_analyzer.py:331''])
         else
           (case publish env title_text content_html cover_path (ext w1) of
              (False, x2) \<Rightarrow>
                (w1\<lparr>ext := x2\<rparr>,
                 evs_c @ [Publish title_text content_html cover_path False,
                          Log ERROR ''ai_analyzer.py:359''])
            | (True, x2) \<Rightarrow>
                (case save_published_record (set_order env) u (records_file w1) of
                   (Some e, f', evs_s) \<Rightarrow>
                     (w1\<lparr>ext := x2, records_file := f'\<rparr>,
                      evs_c @ [Publish title_text content_html cover_path True,
                               Log INFO ''ai_analyzer.py:338'']
                        @ evs_s @ [Log ERROR ''ai_analyzer.py:359''])
                 | (None, f', evs_s) \<Rightarrow>
                     (let (w3, evs_r) =
                            remove_cover env [Log INFO ''ai_analyzer.py:348'']
                              [Log WARNING ''ai_analyzer.py:350''] cover_path
                              (w1\<lparr>ext := x2, records_file := f'\<rparr>)
                      in (w3,
                          evs_c @ [Publish title_text content_html cover_path True,
                                   Log INFO ''ai_analyzer.py:338'']
                            @ evs_s @ evs_r
                            @ [Log INFO ''ai_analyzer.py:354'', Sleep (publish_delay cfg)])))))"

text \<open>The body of \<open>for idx, item in enumerate(hot_searches, start=1)\<close>. Saving the article
  to a file in the branch without publisher is one event.\<close>

definition process_item :: "'x env \<Rightarrow> config \<Rightarrow> work_item \<Rightarrow> 'x world \<Rightarrow> 'x world \<times> event list" where
  "process_item env cfg item w =
     (case (item_title item, item_url item) of
        (Some topic, Some u) \<Rightarrow>
          if topic = [] \<or> u = [] then (w, [Log WARNING ''ai_analyzer.py:274''])
          else
            (let (article_text, x1) = call_deepseek_api env topic u (ext w);
                 (title_opt, article_content) = extract_title_and_content article_text;
                 w1 = w\<lparr>ext := x1\<rparr>;
                 evs1 = [Log INFO ''ai_analyzer.py:277'', CallApi topic u]
             in if article_content = []
                then (w1, evs1 @ [Log WARNING ''ai_analyzer.py:280''])
                else
                  (let title_text = (case title_opt of
                                       Some t \<Rightarrow> if t = [] then topic else t
                                     | None \<Rightarrow> topic);
                       evs2 = evs1 @ [Log INFO ''ai_analyzer.py:287'']
                   in if publisher_given cfg
                      then (let (w2, evs3) = publish_generated env cfg title_text article_content u w1
                            in (w2, evs2 @ evs3))
                      else (w1, evs2 @ [SaveArticle topic article_content,
                                        Sleep (delay_seconds cfg)])))
      | _ \<Rightarrow> (w, [Log WARNING ''ai_analyzer.py:274'']))"

fun process_items :: "'x env \<Rightarrow> config \<Rightarrow> work_item list \<Rightarrow> 'x world \<Rightarrow> 'x world \<times> event list" where
  "process_items env cfg [] w = (w, [])"
| "process_items env cfg (item # rest) w =
     (let (w1, evs1) = process_item env cfg item w;
          (w2, evs2) = process_items env cfg rest w1
      in (w2, evs1 @ evs2))"






text \<open>The body of the loop of \<open>publish_directory\<close> for an article that \<open>extract_article\<close>
  has read (publisher.py lines 552-613); the publisher is the collaborator of \<open>env\<close>.\<close>

definition publish_directory_item ::
  "'x env \<Rightarrow> bool \<Rightarrow> rat \<Rightarrow> pystr \<Rightarrow> pystr \<Rightarrow> pystr \<Rightarrow> 'x world \<Rightarrow> 'x world \<times> event list" where
  "publish_directory_item env generate delay title_text content_html raw_text w =
     (let (cover_path, w1, evs_c) =
             (if generate then cover_attempts env title_text (take 100 raw_text) 1 3 w
              else (None, w, []))
      in if generate \<and> cover_path = None
         then (w1, evs_c @ [Log WARNING ''publisher.py:589''])
         else
           (case publish env title_text content_html cover_path (ext w1) of
              (True, x2) \<Rightarrow>
                (let (w3, evs_r) =
                       remove_cover env [Log INFO ''publisher.py:601'']
                         [Log WARNING ''publisher.py:603''] cover_path (w1\<lparr>ext := x2\<rparr>)
                 in (w3, evs_c @ [Publish title_text content_html cover_path True,
                                  Log INFO ''publisher.py:596'']
                           @ evs_r @ [Sleep delay]))
            | (False, x2) \<Rightarrow>
                (let (w3, evs_r) =
                       remove_cover env [Log INFO ''publisher.py:610''] [] cover_path
                         (w1\<lparr>ext := x2\<rparr>)
                 in (w3, evs_c @ [Publish title_text content_html cover_path False,
                                  Log ERROR ''publisher.py:605'']
                           @ evs_r @ [Sleep delay]))))"

text \<open>The effects of one attempt of the retry loop, to state what a run of the loop does:
  a failed attempt (followed by the 2-second sleep, or by the error entry when it was the
  last one), and a successful attempt.\<close>

definition cover_failed :: "pystr \<Rightarrow> bool \<Rightarrow> event list" where
  "cover_failed title_text last_attempt =
     [Log INFO ''cover:attempt'', GenerateCover title_text None,
      Log WARNING ''cover:attempt failed'']
     @ (if last_attempt then [Log ERROR ''cover:retries exhausted''] else [Sleep 2])"

definition cover_succeeded :: "pystr \<Rightarrow> pystr \<Rightarrow> event list" where
  "cover_succeeded title_text path =
     [Log INFO ''cover:attempt'', GenerateCover title_text (Some path),
      Log INFO ''cover:generated'']"

text \<open>The results of the calls of the image generator in a run of events, in order.\<close>

fun cover_calls :: "event list \<Rightarrow> pystr option list" where
  "cover_calls [] = []"
| "cover_calls (GenerateCover t r # evs) = r # cover_calls evs"
| "cover_calls (_ # evs) = cover_calls evs"

text \<open>The sleeps in a run of events, in order.\<close>

fun sleeps :: "event list \<Rightarrow> rat list" where
  "sleeps [] = []"
| "sleeps (Sleep d # evs) = d # sleeps evs"
| "sleeps (_ # evs) = sleeps evs"



section \<open>The publisher (publisher.py)\<close>

text \<open>The browser as a run of \<open>publish\<close> meets it. The interactions of the run with the
  driver are numbered from 0 in the order they happen. \<open>locate n s\<close> is what interaction
  \<open>n\<close> gives when it looks for the selector \<open>s\<close> (\<open>wait.until\<close> or \<open>driver.find_element\<close>):
  the element, or \<open>None\<close> when the call raises. \<open>act n\<close> says whether interaction \<open>n\<close>, a
  call that returns nothing (\<open>driver.get\<close>, \<open>clear\<close>, \<open>send_keys\<close>,
  \<open>execute_script\<close>), returns or raises.\<close>

record 'e browser =
  locate :: "nat \<Rightarrow> pystr \<Rightarrow> 'e option"
  act :: "nat \<Rightarrow> bool"

text \<open>The state of a \<open>ToutiaoPublisher\<close>: whether \<open>self.driver\<close> is set, the number of
  interactions so far, \<open>self.selector_cache\<close> (a dict) and the file it is saved to.\<close>

record publisher =
  started :: bool
  clock :: nat
  selector_cache :: "(pystr \<times> json) list"
  cache_file :: pfile

text \<open>A piece of code run on the publisher: its result or the exception it raises, the
  state afterwards, and its effects.\<close>

type_synonym 'a step = "publisher \<Rightarrow> (exc + 'a) \<times> publisher \<times> event list"

text \<open>Sequence: the second piece runs when the first returns.\<close>

definition then_do :: "'a step \<Rightarrow> ('a \<Rightarrow> 'b step) \<Rightarrow> 'b step" where
  "then_do m k st =
     (case m st of
        (Inl e, st1, evs1) \<Rightarrow> (Inl e, st1, evs1)
      | (Inr x, st1, evs1) \<Rightarrow>
          (case k x st1 of (r, st2, evs2) \<Rightarrow> (r, st2, evs1 @ evs2)))"

definition emit :: "event list \<Rightarrow> unit step" where
  "emit evs st = (Inr (), st, evs)"

definition raise_exc :: "exc \<Rightarrow> 'a step" where
  "raise_exc e st = (Inl e, st, [])"

text \<open>\<open>try: body; return\<close> followed by \<open>except Exception as exc: logger.warning(...)\<close>:
  \<open>True\<close> when the body returned, \<open>False\<close> after the handler.\<close>

definition caught :: "unit step \<Rightarrow> event list \<Rightarrow> bool step" where
  "caught body handler st =
     (case body st of
        (Inl e, st1, evs1) \<Rightarrow> (Inr False, st1, evs1 @ handler)
      | (Inr x, st1, evs1) \<Rightarrow> (Inr True, st1, evs1))"

text \<open>A call on the driver or on an element that returns nothing, named by its line in
  the source.\<close>

definition action :: "'e browser \<Rightarrow> string \<Rightarrow> unit step" where
  "action b line st =
     (if act b (clock st) then Inr () else Inl WebDriverException,
      st\<lparr>clock := Suc (clock st)\<rparr>, [Action line])"

text \<open>\<open>wait.until(EC.presence_of_element_located(...))\<close>, which raises
  \<open>TimeoutException\<close>, and \<open>driver.find_element\<close>, which raises
  \<open>NoSuchElementException\<close>, a \<open>WebDriverException\<close>.\<close>

definition wait_until :: "'e browser \<Rightarrow> pystr \<Rightarrow> 'e step" where
  "wait_until b s st =
     (case locate b (clock st) s of Some el \<Rightarrow> Inr el | None \<Rightarrow> Inl TimeoutException,
      st\<lparr>clock := Suc (clock st)\<rparr>, [Probe s])"

definition find_element :: "'e browser \<Rightarrow> pystr \<Rightarrow> 'e step" where
  "find_element b s st =
     (case locate b (clock st) s of Some el \<Rightarrow> Inr el | None \<Rightarrow> Inl WebDriverException,
      st\<lparr>clock := Suc (clock st)\<rparr>, [Probe s])"

text \<open>\<open>find_element_with_cache(driver, key, selectors, self.selector_cache, ...)\<close>: its
  attempts are the next interactions, one for each XPath it waits for; the cache it
  updates is the publisher's. It raises nothing.\<close>

definition find_cached :: "'e browser \<Rightarrow> pystr \<Rightarrow> pystr list \<Rightarrow> ('e \<times> pystr) option step" where
  "find_cached b cache_key selectors st =
     (case find_element_with_cache (\<lambda>n. locate b (clock st + n)) cache_key selectors
             (selector_cache st) (cache_file st) of
        (r, cache', f', evs) \<Rightarrow>
          (Inr r,
           st\<lparr>clock := clock st + length (probed evs), selector_cache := cache',
              cache_file := f'\<rparr>,
           evs))"

text \<open>The candidates of \<open>_ensure_single_cover_mode\<close> (code points 21333, 22270: the two characters of the label of the option).\<close>

definition single_cover_candidates :: "pystr list" where
  "single_cover_candidates =
     [ascii ''//label[@class='byte-radio']//input[@type='radio' and @value='2']/ancestor::label[1]'',
      ascii ''//span[contains(@class,'byte-radio-inner-text') and text()='' @ [39, 21333, 22270, 39] @ ascii '']/ancestor::label[1]'']"

text \<open>The candidates of \<open>_ensure_no_cover_mode\<close>.\<close>

definition no_cover_candidates :: "pystr list" where
  "no_cover_candidates =
     [ascii ''//label[@class='byte-radio']//input[@type='radio' and @value='1']/ancestor::label[1]'',
      ascii ''//span[contains(@class,'byte-radio-inner-text') and text()='' @ [39, 26080, 23553, 38754, 39] @ ascii '']/ancestor::label[1]'',
      ascii ''//label[contains(@class,'byte-radio')]//span[text()='' @ [39, 26080, 23553, 38754, 39] @ ascii '']/ancestor::label[1]'']"

text \<open>The selectors of the file input in \<open>_upload_cover_image\<close>.\<close>

definition cover_upload_selectors :: "pystr list" where
  "cover_upload_selectors =
     [ascii ''//div[contains(@class,'article-cover-add')]//input[@type='file']'',
      ascii ''//div[contains(@class,'article-cover')]//input[@type='file']'',
      ascii ''//input[@type='file' and contains(@accept,'image')]'']"

text \<open>The selectors of \<open>_confirm_cover_upload\<close>.\<close>

definition confirm_selectors :: "pystr list" where
  "confirm_selectors =
     [ascii ''//span[contains(text(),'' @ [39, 30830, 23450, 39] @ ascii '')]/ancestor::button[1]'',
      ascii ''//button[contains(text(),'' @ [39, 30830, 23450, 39] @ ascii '')]'',
      ascii ''//button[contains(@class,'primary')]'']"

text \<open>The selectors of the two steps of \<open>_submit\<close>.\<close>

definition preview_publish_selectors :: "pystr list" where
  "preview_publish_selectors =
     [ascii ''//span[contains(text(),'' @ [39, 39044, 35272, 24182, 21457, 24067, 39] @ ascii '')]/ancestor::button[1]'',
      ascii ''//button[contains(text(),'' @ [39, 39044, 35272, 24182, 21457, 24067, 39] @ ascii '')]'',
      ascii ''//button[contains(@class,'publish-btn')]'']"

definition confirm_publish_selectors :: "pystr list" where
  "confirm_publish_selectors =
     [ascii ''//span[contains(text(),'' @ [39, 30830, 35748, 21457, 24067, 39] @ ascii '')]/ancestor::button[1]'',
      ascii ''//button[contains(text(),'' @ [39, 30830, 35748, 21457, 24067, 39] @ ascii '')]'',
      ascii ''//div[contains(@class,'modal')]//button[contains(@class,'primary')]'']"

text \<open>The CSS selectors of the title area and of the editor, and the two XPaths of the second way to upload the cover.\<close>

definition title_area_selector :: pystr where
  "title_area_selector = ascii ''textarea[placeholder*='' @ [39, 35831, 36755, 20837, 25991, 31456, 26631, 39064, 39] @ ascii '']''"

definition editor_selector :: pystr where
  "editor_selector = ascii ''.ProseMirror''"

definition upload_area_xpath :: pystr where
  "upload_area_xpath = ascii ''//div[contains(@class,'article-cover-add')]''"

definition file_input_xpath :: pystr where
  "file_input_xpath = ascii ''//input[@type='file']''"

text \<open>\<open>_fill_title\<close> and \<open>_fill_content\<close> (lines 297-320). The text that is typed has
  no part in what the run does next.\<close>

definition fill_title :: "'e browser \<Rightarrow> pystr \<Rightarrow> unit step" where
  "fill_title b title_text =
     then_do (emit [Log INFO ''publisher.py:303'']) (\<lambda>_.
     then_do (wait_until b title_area_selector) (\<lambda>title_area.
     then_do (action b ''publisher.py:309'') (\<lambda>_.
     action b ''publisher.py:310'')))"

definition fill_content :: "'e browser \<Rightarrow> pystr \<Rightarrow> unit step" where
  "fill_content b content_html =
     then_do (emit [Log INFO ''publisher.py:313'']) (\<lambda>_.
     then_do (wait_until b editor_selector) (\<lambda>editor.
     then_do (action b ''publisher.py:317'') (\<lambda>_.
     emit [Sleep 2])))"

text \<open>\<open>_ensure_single_cover_mode\<close> (lines 322-342) and \<open>_ensure_no_cover_mode\<close> (lines
  344-365).\<close>

definition ensure_single_cover_mode :: "'e browser \<Rightarrow> unit step" where
  "ensure_single_cover_mode b =
     then_do (find_cached b (ascii ''single_cover_mode'') single_cover_candidates) (\<lambda>result.
     case result of
       Some (option, _) \<Rightarrow>
         then_do (action b ''publisher.py:338'') (\<lambda>_.
         emit [Sleep 1, Log INFO ''publisher.py:340''])
     | None \<Rightarrow> emit [Log WARNING ''publisher.py:342''])"

definition ensure_no_cover_mode :: "'e browser \<Rightarrow> unit step" where
  "ensure_no_cover_mode b =
     then_do (find_cached b (ascii ''no_cover_mode'') no_cover_candidates) (\<lambda>result.
     case result of
       Some (option, _) \<Rightarrow>
         then_do (action b ''publisher.py:361'') (\<lambda>_.
         emit [Sleep 1, Log INFO ''publisher.py:363''])
     | None \<Rightarrow> emit [Log WARNING ''publisher.py:365''])"

text \<open>\<open>_confirm_cover_upload\<close> (lines 430-455).\<close>

definition confirm_cover_upload :: "'e browser \<Rightarrow> unit step" where
  "confirm_cover_upload b =
     then_do (emit [Sleep 2]) (\<lambda>_.
     then_do (find_cached b (ascii ''cover_upload_confirm'') confirm_selectors) (\<lambda>result.
     case result of
       Some (confirm_btn, _) \<Rightarrow>
         then_do (action b ''publisher.py:451'') (\<lambda>_.
         emit [Sleep 1, Log INFO ''publisher.py:453''])
     | None \<Rightarrow> emit [Log DEBUG ''publisher.py:455'']))"

text \<open>\<open>_upload_cover_image\<close> (lines 367-428): the file input found through the cache,
  then the click on the upload area, each in its \<open>try\<close> with \<open>return\<close> at the end.\<close>

definition upload_cover_image :: "'e browser \<Rightarrow> unit step" where
  "upload_cover_image b =
     then_do (emit [Log INFO ''publisher.py:369'']) (\<lambda>_.
     then_do (ensure_single_cover_mode b) (\<lambda>_.
     then_do (emit [Sleep 1]) (\<lambda>_.
     then_do (find_cached b (ascii ''cover_upload_input'') cover_upload_selectors) (\<lambda>result.
     then_do
       (case result of
          Some (input_el, _) \<Rightarrow>
            caught
              (then_do (action b ''publisher.py:392'') (\<lambda>_.
               then_do (action b ''publisher.py:403'') (\<lambda>_.
               then_do (emit [Sleep 3, Log INFO ''publisher.py:405'']) (\<lambda>_.
               confirm_cover_upload b))))
              [Log WARNING ''publisher.py:409'']
        | None \<Rightarrow> (\<lambda>st. (Inr False, st, [])))
       (\<lambda>uploaded.
          if uploaded then emit []
          else
            then_do
              (caught
                 (then_do (find_element b upload_area_xpath) (\<lambda>upload_area.
                  then_do (action b ''publisher.py:416'') (\<lambda>_.
                  then_do (emit [Sleep 1]) (\<lambda>_.
                  then_do (find_element b file_input_xpath) (\<lambda>file_input.
                  then_do (action b ''publisher.py:420'') (\<lambda>_.
                  then_do (emit [Sleep 3, Log INFO ''publisher.py:422'']) (\<lambda>_.
                  confirm_cover_upload b)))))))
                 [Log WARNING ''publisher.py:426''])
              (\<lambda>uploaded2.
                 if uploaded2 then emit [] else emit [Log WARNING ''publisher.py:428'']))))))"

text \<open>\<open>_submit\<close> (lines 457-514).\<close>

definition submit :: "'e browser \<Rightarrow> unit step" where
  "submit b =
     then_do (emit [Log INFO ''publisher.py:459'', Log INFO ''publisher.py:462'']) (\<lambda>_.
     then_do (find_cached b (ascii ''preview_publish_btn'') preview_publish_selectors) (\<lambda>result.
     then_do
       (case result of
          Some (preview_btn, _) \<Rightarrow>
            then_do (action b ''publisher.py:481'') (\<lambda>_.
            emit [Log INFO ''publisher.py:482''])
        | None \<Rightarrow> raise_exc RuntimeError)
       (\<lambda>_.
     then_do (emit [Sleep 3, Log INFO ''publisher.py:489'']) (\<lambda>_.
     then_do (find_cached b (ascii ''confirm_publish_btn'') confirm_publish_selectors) (\<lambda>result.
     then_do
       (case result of
          Some (confirm_btn, _) \<Rightarrow>
            then_do (action b ''publisher.py:508'') (\<lambda>_.
            emit [Log INFO ''publisher.py:509''])
        | None \<Rightarrow> emit [Log WARNING ''publisher.py:511''])
       (\<lambda>_.
     emit [Sleep 3, Log INFO ''publisher.py:514'']))))))"

text \<open>\<open>ToutiaoPublisher.publish\<close> (lines 273-295). \<open>cover_path and use_cover\<close> is true for
  a non-empty path.\<close>

definition publisher_publish ::
  "'e browser \<Rightarrow> pystr \<Rightarrow> pystr \<Rightarrow> pystr option \<Rightarrow> bool \<Rightarrow> unit step" where
  "publisher_publish b title_text content_html cover_path use_cover st =
     (if \<not> started st then raise_exc RuntimeError st
      else
        then_do (emit [Log INFO ''publisher.py:284'']) (\<lambda>_.
        then_do (action b ''publisher.py:285'') (\<lambda>_.
        then_do (emit [Sleep 4]) (\<lambda>_.
        then_do (fill_title b title_text) (\<lambda>_.
        then_do (fill_content b content_html) (\<lambda>_.
        then_do
          (if cover_path \<noteq> None \<and> cover_path \<noteq> Some [] \<and> use_cover then upload_cover_image b
           else if \<not> use_cover then ensure_no_cover_mode b
           else emit [])
          (\<lambda>_.
        submit b)))))) st)"

text \<open>The log entries in a run of events, in order.\<close>

fun logged :: "event list \<Rightarrow> (level \<times> string) list" where
  "logged [] = []"
| "logged (Log l tag # evs) = (l, tag) # logged evs"
| "logged (_ # evs) = logged evs"

section \<open>Example runs\<close>

text \<open>A small outside world for concrete runs. Its state counts the calls of the image
  generator; the generator raises on its first \<open>failing\<close> calls and then saves the file
  \<open>"p"\<close>; the text API answers \<open>"x"\<close>; \<open>publish\<close> returns or raises as \<open>publish_ok\<close>
  says; \<open>os.remove\<close> succeeds; sets are iterated in insertion order.\<close>

definition example_env :: "nat \<Rightarrow> bool \<Rightarrow> nat env" where
  "example_env failing publish_ok =
     \<lparr>call_deepseek_api = (\<lambda>topic u x. ([120], x)),
      generate_cover_image = (\<lambda>t a x. (if x < failing then None else Some [112], Suc x)),
      publish = (\<lambda>t h c x. (publish_ok, x)),
      markdown_to_html = (\<lambda>m. m),
      os_remove = (\<lambda>p x. True),
      set_order = (\<lambda>s. [])\<rparr>"

definition example_cfg :: config where
  "example_cfg =
     \<lparr>publisher_given = True, cover_mode_generate = True, publish_delay = 8,
      delay_seconds = 3 / 2, skip_published = True, limit = None\<rparr>"

text \<open>A code point is a surrogate from U+D800 to U+DFFF; a string that holds one cannot
  be encoded as UTF-8, and \<open>json.dump(..., ensure_ascii=False)\<close> into a file opened with
  \<open>encoding="utf-8"\<close> raises \<open>UnicodeEncodeError\<close> when it reaches it.\<close>

definition surrogate :: "nat \<Rightarrow> bool" where
  "surrogate c = (55296 \<le> c \<and> c \<le> 57343)"

fun utf8_ok :: "json \<Rightarrow> bool" where
  "utf8_ok (JStr s) = list_all (\<lambda>c. \<not> surrogate c) s"
| "utf8_ok (JList xs) = list_all utf8_ok xs"
| "utf8_ok (JDict kvs) =
     list_all (\<lambda>kv. list_all (\<lambda>c. \<not> surrogate c) (fst kv) \<and> utf8_ok (snd kv)) kvs"
| "utf8_ok _ = True"

text \<open>A file on a disk with room that the process may write, a file that it may not open
  for writing, and a file on a full disk.\<close>

definition disk_file :: "file_state \<Rightarrow> pfile" where
  "disk_file c =
     \<lparr>content = c,
      on_write = (\<lambda>v. if utf8_ok v then Stored else Broken UnicodeEncodeError)\<rparr>"

definition readonly_file :: "file_state \<Rightarrow> pfile" where
  "readonly_file c = \<lparr>content = c, on_write = (\<lambda>v. Refused)\<rparr>"

definition full_disk_file :: "file_state \<Rightarrow> pfile" where
  "full_disk_file c = \<lparr>content = c, on_write = (\<lambda>v. Broken OSError)\<rparr>"

text \<open>The item with title \<open>"t"\<close> and URL \<open>"u"\<close>, and a world with no record file yet.\<close>

definition example_item :: work_item where
  "example_item = \<lparr>item_title = Some [116], item_url = Some [117]\<rparr>"

definition example_world :: "nat world" where
  "example_world =
     \<lparr>ext = 0, records_file = disk_file Missing, files = {}\<rparr>"

text \<open>A publisher with a started browser, an empty selector cache and no cache file yet;
  a page on which nothing is found; and a page that has the title area, the editor, the
  file input of the cover and the preview-and-publish button (each under the first
  selector the code tries), but no option for the single cover, no button to confirm the
  cover and no button to confirm the publication. Every call on the driver returns.\<close>

definition example_publisher :: publisher where
  "example_publisher =
     \<lparr>started = True, clock = 0, selector_cache = [], cache_file = disk_file Missing\<rparr>"

definition blank_page :: "nat browser" where
  "blank_page = \<lparr>locate = (\<lambda>n s. None), act = (\<lambda>n. True)\<rparr>"

definition example_page :: "nat browser" where
  "example_page =
     \<lparr>locate = (\<lambda>n s. if s = title_area_selector \<or> s = editor_selector
                          \<or> s = hd cover_upload_selectors \<or> s = hd preview_publish_selectors
                       then Some 0 else None),
      act = (\<lambda>n. True)\<rparr>"

section \<open>Properties of the title and body extraction\<close>

lemma py_split_nonempty: "py_split s \<noteq> []"
  by (induction s) (auto split: list.splits)

lemma find_title_line_None:
  "\<forall>l\<in>set ls. \<not> has_marker l \<Longrightarrow> find_title_line k ls = None"
  by (induction ls arbitrary: k) (auto simp: has_marker_def Let_def)

lemma find_title_line_first:
  "i < length ls \<Longrightarrow> has_marker (ls ! i) \<Longrightarrow> \<forall>j<i. \<not> has_marker (ls ! j) \<Longrightarrow>
   find_title_line k ls = Some (marker_title (ls ! i), k + i + 1)"
proof (induction ls arbitrary: i k)
  case Nil
  then show ?case by simp
next
  case (Cons l ls)
  show ?case
  proof (cases i)
    case 0
    with Cons.prems show ?thesis
      by (auto simp: has_marker_def marker_title_def Let_def)
  next
    case (Suc m)
    from Cons.prems(3) Suc have nl: "\<not> has_marker l" by force
    have "\<forall>j<m. \<not> has_marker (ls ! j)"
    proof (intro allI impI)
      fix j assume "j < m"
      then have "Suc j < i" using Suc by simp
      with Cons.prems(3) have "\<not> has_marker ((l # ls) ! Suc j)" by blast
      then show "\<not> has_marker (ls ! j)" by simp
    qed
    moreover from Cons.prems Suc have "m < length ls" "has_marker (ls ! m)" by auto
    ultimately have "find_title_line (k + 1) ls = Some (marker_title (ls ! m), k + 1 + m + 1)"
      by (rule Cons.IH[rotated 2])
    with nl Suc show ?thesis
      by (simp add: has_marker_def Let_def)
  qed
qed


lemma find_title_line_cases:
  "find_title_line k ls = None \<or>
   (\<exists>i<length ls. has_marker (ls ! i) \<and> (\<forall>j<i. \<not> has_marker (ls ! j)) \<and>
      find_title_line k ls = Some (marker_title (ls ! i), k + i + 1))"
proof (induction ls arbitrary: k)
  case Nil
  show ?case by simp
next
  case (Cons l ls)
  show ?case
  proof (cases "has_marker l")
    case True
    then have "find_title_line k (l # ls) = Some (marker_title l, k + 0 + 1)"
      by (auto simp: has_marker_def marker_title_def Let_def)
    with True have "0 < length (l # ls) \<and> has_marker ((l # ls) ! 0) \<and>
        (\<forall>j<0. \<not> has_marker ((l # ls) ! j)) \<and>
        find_title_line k (l # ls) = Some (marker_title ((l # ls) ! 0), k + 0 + 1)"
      by simp
    then show ?thesis by - (rule disjI2, rule exI, assumption)
  next
    case False
    then have step: "find_title_line k (l # ls) = find_title_line (k + 1) ls"
      by (simp add: has_marker_def Let_def)
    from Cons.IH[of "k + 1"] show ?thesis
    proof
      assume "find_title_line (k + 1) ls = None"
      with step show ?thesis by simp
    next
      assume "\<exists>i<length ls. has_marker (ls ! i) \<and> (\<forall>j<i. \<not> has_marker (ls ! j)) \<and>
        find_title_line (k + 1) ls = Some (marker_title (ls ! i), k + 1 + i + 1)"
      then obtain i where i: "i < length ls" "has_marker (ls ! i)"
        "\<forall>j<i. \<not> has_marker (ls ! j)"
        "find_title_line (k + 1) ls = Some (marker_title (ls ! i), k + 1 + i + 1)" by blast
      have "\<forall>j<Suc i. \<not> has_marker ((l # ls) ! j)"
      proof (intro allI impI)
        fix j assume "j < Suc i"
        then show "\<not> has_marker ((l # ls) ! j)" using False i(3) by (cases j) auto
      qed
      with i step have "Suc i < length (l # ls) \<and> has_marker ((l # ls) ! Suc i) \<and>
        (\<forall>j<Suc i. \<not> has_marker ((l # ls) ! j)) \<and>
        find_title_line k (l # ls) = Some (marker_title ((l # ls) ! Suc i), k + Suc i + 1)"
        by simp
      then show ?thesis by - (rule disjI2, rule exI, assumption)
    qed
  qed
qed

lemma extract_marker_branch:
  assumes "i < length (article_lines t)" "has_marker (article_lines t ! i)"
    "\<forall>j<i. \<not> has_marker (article_lines t ! j)" "marker_title (article_lines t ! i) \<noteq> []"
  shows "extract_title_and_content t =
         (Some (marker_title (article_lines t ! i)), body_from (Suc i) (article_lines t))"
proof -
  have "find_title_line 0 (article_lines t) = Some (marker_title (article_lines t ! i), 0 + i + 1)"
    using assms(1-3) by (rule find_title_line_first)
  with assms(4) show ?thesis
    by (simp add: extract_title_and_content_def article_lines_def[symmetric] truthy_def body_from_def Let_def)
qed

lemma extract_no_title:
  assumes "find_title_line 0 (article_lines t) = None \<or>
        (\<exists>n. find_title_line 0 (article_lines t) = Some ([], n))"
  shows "extract_title_and_content t =
     (if 5 < length (py_strip (hd (article_lines t))) \<and> length (py_strip (hd (article_lines t))) < 50
      then (Some (py_strip (hd (article_lines t))), body_from 1 (article_lines t))
      else (Some (take 30 (py_strip (hd (article_lines t)))), body_from 0 (article_lines t)))"
proof -
  have ne: "article_lines t \<noteq> []" by (simp add: article_lines_def py_split_nonempty)
  show ?thesis
  proof (cases "5 < length (py_strip (hd (article_lines t))) \<and> length (py_strip (hd (article_lines t))) < 50")
    case True
    then have "py_strip (hd (article_lines t)) \<noteq> []" by auto
    with True ne assms show ?thesis
      unfolding extract_title_and_content_def article_lines_def[symmetric] Let_def body_from_def
      by (auto simp: truthy_def)
  next
    case False
    with ne assms show ?thesis
      unfolding extract_title_and_content_def article_lines_def[symmetric] Let_def body_from_def
      by (auto simp: truthy_def)
  qed
qed

lemma extract_fallback_branch:
  assumes "\<forall>i<length (article_lines t). has_marker (article_lines t ! i) \<and>
      (\<forall>j<i. \<not> has_marker (article_lines t ! j)) \<longrightarrow> marker_title (article_lines t ! i) = []"
  shows "extract_title_and_content t =
     (if 5 < length (py_strip (hd (article_lines t))) \<and> length (py_strip (hd (article_lines t))) < 50
      then (Some (py_strip (hd (article_lines t))), body_from 1 (article_lines t))
      else (Some (take 30 (py_strip (hd (article_lines t)))), body_from 0 (article_lines t)))"
proof (rule extract_no_title)
  from find_title_line_cases[of 0 "article_lines t"]
  show "find_title_line 0 (article_lines t) = None \<or>
        (\<exists>n. find_title_line 0 (article_lines t) = Some ([], n))"
  proof
    assume "find_title_line 0 (article_lines t) = None"
    then show ?thesis by simp
  next
    assume "\<exists>i<length (article_lines t). has_marker (article_lines t ! i) \<and>
      (\<forall>j<i. \<not> has_marker (article_lines t ! j)) \<and>
      find_title_line 0 (article_lines t) = Some (marker_title (article_lines t ! i), 0 + i + 1)"
    then obtain i where i: "i < length (article_lines t)" "has_marker (article_lines t ! i)"
      "\<forall>j<i. \<not> has_marker (article_lines t ! j)"
      "find_title_line 0 (article_lines t) = Some (marker_title (article_lines t ! i), 0 + i + 1)"
      by blast
    from assms i(1-3) have "marker_title (article_lines t ! i) = []" by blast
    with i(4) show ?thesis by simp
  qed
qed

text \<open>
  Claim C3, as the code has it. Let the lines be those of the stripped text. If a line,
  stripped, starts with one of the two markers, the first such line is the title line; its
  title is the stripped line with every occurrence of the matched marker removed, stripped
  again. When that title is not empty, it is the result's title and the body starts after
  the title line. When no line has a marker, or the title of the first marker line is
  empty, the first line decides: if its stripped length is strictly between 5 and 50 it is
  the title and the body starts at the second line, otherwise the title is its first 30
  characters and the body starts at the first line. In every branch the leading blank
  lines of the body are dropped and the body is stripped.
\<close>

theorem extract_title_and_content_branches:
  "(i < length (article_lines t) \<and> has_marker (article_lines t ! i) \<and>
    (\<forall>j<i. \<not> has_marker (article_lines t ! j)) \<and> marker_title (article_lines t ! i) \<noteq> []
    \<longrightarrow> extract_title_and_content t =
          (Some (marker_title (article_lines t ! i)), body_from (Suc i) (article_lines t)))
   \<and>
   ((\<forall>i<length (article_lines t). has_marker (article_lines t ! i) \<and>
       (\<forall>j<i. \<not> has_marker (article_lines t ! j)) \<longrightarrow> marker_title (article_lines t ! i) = [])
    \<longrightarrow> extract_title_and_content t =
         (if 5 < length (py_strip (hd (article_lines t))) \<and>
             length (py_strip (hd (article_lines t))) < 50
          then (Some (py_strip (hd (article_lines t))), body_from 1 (article_lines t))
          else (Some (take 30 (py_strip (hd (article_lines t)))),
                body_from 0 (article_lines t))))"
proof (intro conjI impI)
  assume "i < length (article_lines t) \<and> has_marker (article_lines t ! i) \<and>
    (\<forall>j<i. \<not> has_marker (article_lines t ! j)) \<and> marker_title (article_lines t ! i) \<noteq> []"
  then show "extract_title_and_content t =
          (Some (marker_title (article_lines t ! i)), body_from (Suc i) (article_lines t))"
    by (intro extract_marker_branch) simp_all
next
  assume "\<forall>i<length (article_lines t). has_marker (article_lines t ! i) \<and>
       (\<forall>j<i. \<not> has_marker (article_lines t ! j)) \<longrightarrow> marker_title (article_lines t ! i) = []"
  then show "extract_title_and_content t =
         (if 5 < length (py_strip (hd (article_lines t))) \<and>
             length (py_strip (hd (article_lines t))) < 50
          then (Some (py_strip (hd (article_lines t))), body_from 1 (article_lines t))
          else (Some (take 30 (py_strip (hd (article_lines t)))),
                body_from 0 (article_lines t)))"
    by (rule extract_fallback_branch)
qed

text \<open>The theorem at two inputs: the marker line \<open>"Foo"\<close> followed by a blank line and
  two body lines (marker branch, title \<open>Foo\<close>), and a marker line with nothing after the
  marker followed by \<open>body\<close> (the marker title is empty, the first line has 3 characters:
  third branch, the marker line is the title and stays in the body).\<close>

theorem extract_title_and_content_branches_witness:
  "has_marker (article_lines (marker_fullwidth @ [70, 111, 111, 10, 10, 66, 97, 114, 10, 66, 97, 122]) ! 0)
   \<and> extract_title_and_content (marker_fullwidth @ [70, 111, 111, 10, 10, 66, 97, 114, 10, 66, 97, 122])
       = (Some [70, 111, 111], [66, 97, 114, 10, 66, 97, 122])
   \<and> marker_title (article_lines (marker_fullwidth @ [10, 98, 111, 100, 121]) ! 0) = []
   \<and> extract_title_and_content (marker_fullwidth @ [10, 98, 111, 100, 121])
       = (Some marker_fullwidth, marker_fullwidth @ [10, 98, 111, 100, 121])"
proof -
  let ?a = "marker_fullwidth @ [70, 111, 111, 10, 10, 66, 97, 114, 10, 66, 97, 122]"
  let ?b = "marker_fullwidth @ [10, 98, 111, 100, 121]"
  have la: "article_lines ?a = [marker_fullwidth @ [70, 111, 111], [], [66, 97, 114], [66, 97, 122]]"
    by (simp add: article_lines_def py_strip_def isspace_def marker_fullwidth_def)
  have lb: "article_lines ?b = [marker_fullwidth, [98, 111, 100, 121]]"
    by (simp add: article_lines_def py_strip_def isspace_def marker_fullwidth_def)
  have ma: "has_marker (marker_fullwidth @ [70, 111, 111])"
    by (simp add: has_marker_def startswith_def py_strip_def isspace_def marker_fullwidth_def)
  have ta: "marker_title (marker_fullwidth @ [70, 111, 111]) = [70, 111, 111]"
    by (simp add: marker_title_def startswith_def py_strip_def isspace_def marker_fullwidth_def
        py_replace.simps)
  have mb: "has_marker marker_fullwidth"
    by (simp add: has_marker_def startswith_def py_strip_def isspace_def marker_fullwidth_def)
  have tb: "marker_title marker_fullwidth = []"
    by (simp add: marker_title_def startswith_def py_strip_def isspace_def marker_fullwidth_def
        py_replace.simps)
  have nb: "\<not> has_marker [98, 111, 100, 121]"
    by (simp add: has_marker_def startswith_def py_strip_def isspace_def marker_fullwidth_def
        marker_ascii_def)
  have ha: "0 < length (article_lines ?a) \<and> has_marker (article_lines ?a ! 0) \<and>
      (\<forall>j<0. \<not> has_marker (article_lines ?a ! j)) \<and> marker_title (article_lines ?a ! 0) \<noteq> []"
    using ma ta by (simp add: la)
  have hb: "\<forall>i<length (article_lines ?b). has_marker (article_lines ?b ! i) \<and>
       (\<forall>j<i. \<not> has_marker (article_lines ?b ! j)) \<longrightarrow> marker_title (article_lines ?b ! i) = []"
    using mb tb nb by (simp add: lb less_Suc_eq)
  have ra: "extract_title_and_content ?a =
      (Some (marker_title (article_lines ?a ! 0)), body_from (Suc 0) (article_lines ?a))"
    using extract_title_and_content_branches [of 0 ?a] ha by blast
  have rb: "extract_title_and_content ?b =
         (if 5 < length (py_strip (hd (article_lines ?b))) \<and>
             length (py_strip (hd (article_lines ?b))) < 50
          then (Some (py_strip (hd (article_lines ?b))), body_from 1 (article_lines ?b))
          else (Some (take 30 (py_strip (hd (article_lines ?b)))),
                body_from 0 (article_lines ?b)))"
    using extract_title_and_content_branches [of 0 ?b] hb by blast
  have ba: "body_from (Suc 0) (article_lines ?a) = [66, 97, 114, 10, 66, 97, 122]"
    by (simp add: la body_from_def py_strip_def isspace_def)
  have bb: "body_from 0 (article_lines ?b) = marker_fullwidth @ [10, 98, 111, 100, 121]"
    unfolding lb by (simp add: body_from_def py_strip_def isspace_def marker_fullwidth_def)
  have sb: "py_strip (hd (article_lines ?b)) = marker_fullwidth"
    unfolding lb by (simp add: py_strip_def isspace_def marker_fullwidth_def)
  have "extract_title_and_content ?b = (Some marker_fullwidth, marker_fullwidth @ [10, 98, 111, 100, 121])"
    unfolding rb sb bb by (simp add: marker_fullwidth_def)
  moreover have "extract_title_and_content ?a = (Some [70, 111, 111], [66, 97, 114, 10, 66, 97, 122])"
    unfolding ra ba by (simp add: la ta)
  ultimately show ?thesis using ma tb by (simp add: la lb)
qed

text \<open>
  The claim as worded fails where the marker line has nothing after the marker: the text
  is the marker, a line feed and \<open>body\<close>. A line begins with the marker, so branch (1) of
  the claim gives the empty remainder as title and \<open>body\<close> as body; the code falls
  through to the third branch, whose title is the marker line and whose body still holds
  that line.
\<close>

theorem extract_title_and_content_counterexample:
  "has_marker (hd (article_lines ([26631, 39064, 65306, 10, 98, 111, 100, 121])))
   \<and> extract_title_and_content_spec [26631, 39064, 65306, 10, 98, 111, 100, 121]
       = (Some [], [98, 111, 100, 121])
   \<and> extract_title_and_content [26631, 39064, 65306, 10, 98, 111, 100, 121]
       = (Some [26631, 39064, 65306], [26631, 39064, 65306, 10, 98, 111, 100, 121])"
proof -
  let ?b = "[26631, 39064, 65306, 10, 98, 111, 100, 121]"
  have sb: "py_strip ?b = ?b"
    by (simp add: py_strip_def isspace_def)
  have lb: "py_split ?b = [[26631, 39064, 65306], [98, 111, 100, 121]]"
    by simp
  have s1: "py_strip [26631, 39064, 65306] = [26631, 39064, 65306]"
    by (simp add: py_strip_def isspace_def)
  have s2: "py_strip [98, 111, 100, 121] = [98, 111, 100, 121]"
    by (simp add: py_strip_def isspace_def)
  have s0: "py_strip [] = []"
    by (simp add: py_strip_def)
  have rp: "py_replace [26631, 39064, 65306] [26631, 39064, 65306] [] = []"
    by (simp add: py_replace.simps startswith_def)
  have jb: "py_join [[26631, 39064, 65306], [98, 111, 100, 121]] = ?b"
    by simp
  have m: "has_marker (hd (article_lines ?b))"
    by (simp add: article_lines_def sb lb has_marker_def s1 startswith_def marker_fullwidth_def)
  have spec: "extract_title_and_content_spec ?b = (Some [], [98, 111, 100, 121])"
    by (simp add: extract_title_and_content_spec_def Let_def article_lines_def sb lb s1 s2 s0
        body_from_def startswith_def marker_fullwidth_def)
  have code: "extract_title_and_content ?b = (Some [26631, 39064, 65306], ?b)"
    by (simp add: extract_title_and_content_def Let_def sb lb s1 s2 s0 rp jb truthy_def
        startswith_def marker_fullwidth_def)
  from m spec code show ?thesis by simp
qed

section \<open>Properties of the record store and of the selector cache\<close>

lemma py_eq_refl: "py_eq x x"
  by (cases x) simp_all

lemma py_eq_sym: "py_eq x y = py_eq y x"
  by (cases x; cases y) auto

lemma py_eq_JStr: "py_eq y (JStr u) \<longleftrightarrow> y = JStr u"
  by (cases y) auto

lemma py_in_JStr: "py_in (JStr u) s \<longleftrightarrow> JStr u \<in> set s"
  by (auto simp: py_in_def list_ex_iff py_eq_JStr)

lemma py_in_append: "py_in x (s @ t) \<longleftrightarrow> py_in x s \<or> py_in x t"
  by (auto simp: py_in_def list_ex_iff)

lemma py_in_single: "py_in x [y] \<longleftrightarrow> py_eq y x"
  by (simp add: py_in_def)

lemma py_distinct_snoc:
  "py_distinct (s @ [x]) \<longleftrightarrow> py_distinct s \<and> hashable x \<and> \<not> py_in x s"
proof (induction s)
  case Nil
  show ?case by (simp add: py_in_def)
next
  case (Cons y s)
  have "py_in x (y # s) \<longleftrightarrow> py_eq x y \<or> py_in x s"
    by (auto simp: py_in_def py_eq_sym)
  with Cons show ?case
    by (auto simp: py_in_append py_in_single)
qed

lemma py_distinct_set_add:
  "py_distinct s \<Longrightarrow> hashable x \<Longrightarrow> py_distinct (set_add x s)"
  by (simp add: set_add_def py_distinct_snoc)

lemma set_of_items_distinct:
  "set_of_items acc xs = Inr s \<Longrightarrow> py_distinct acc \<Longrightarrow> py_distinct s"
proof (induction xs arbitrary: acc)
  case Nil
  then show ?case by simp
next
  case (Cons x xs)
  from Cons.prems(1) have h: "hashable x" and r: "set_of_items (set_add x acc) xs = Inr s"
    by (auto split: if_splits)
  from Cons.prems(2) h have "py_distinct (set_add x acc)"
    by (rule py_distinct_set_add)
  with r show ?case by (rule Cons.IH)
qed

lemma py_set_distinct: "py_set v = Inr s \<Longrightarrow> py_distinct s"
  by (cases v) (auto dest: set_of_items_distinct)

lemma set_of_items_fixed:
  "py_distinct (acc @ xs) \<Longrightarrow> set_of_items acc xs = Inr (acc @ xs)"
proof (induction xs arbitrary: acc)
  case Nil
  show ?case by simp
next
  case (Cons x xs)
  have split: "acc @ x # xs = (acc @ [x]) @ xs" by simp
  from Cons.prems have d: "py_distinct ((acc @ [x]) @ xs)" by (simp only: split)
  have pre: "py_distinct (acc @ [x])" using d
  proof (induction xs rule: rev_induct)
    case Nil
    then show ?case by simp
  next
    case (snoc y ys)
    from snoc.prems have "py_distinct (((acc @ [x]) @ ys) @ [y])" by simp
    then have "py_distinct ((acc @ [x]) @ ys)" by (simp only: py_distinct_snoc)
    then show ?case by (rule snoc.IH)
  qed
  then have hx: "hashable x" and nin: "\<not> py_in x acc" by (simp_all add: py_distinct_snoc)
  from nin have "set_add x acc = acc @ [x]" by (simp add: set_add_def)
  with hx Cons.IH[OF d] show ?case by simp
qed

lemma load_published_records_distinct:
  "load_published_records c = (Inr s, evs) \<Longrightarrow> py_distinct s"
  by (cases c)
     (auto simp: load_published_records_def records_of_json_def
           split: if_splits json.splits option.splits sum.splits prod.splits
           dest: py_set_distinct set_of_items_distinct)

lemma py_distinct_iff:
  "py_distinct xs \<longleftrightarrow>
     (\<forall>x\<in>set xs. hashable x) \<and> distinct xs \<and> (\<forall>x\<in>set xs. \<forall>y\<in>set xs. py_eq x y \<longrightarrow> x = y)"
proof (induction xs)
  case Nil
  show ?case by simp
next
  case (Cons a xs)
  have in_iff: "py_in a xs \<longleftrightarrow> (\<exists>y\<in>set xs. py_eq y a)"
    by (simp add: py_in_def list_ex_iff)
  show ?case
    unfolding py_distinct.simps Cons.IH in_iff
    using py_eq_refl py_eq_sym by (auto 4 4)
qed

lemma py_distinct_mset: "mset xs = mset ys \<Longrightarrow> py_distinct xs \<Longrightarrow> py_distinct ys"
  unfolding py_distinct_iff
  using mset_eq_setD [of xs ys] mset_eq_imp_distinct_iff [of xs ys] by simp

lemma mset_iterate_set: "mset (iterate_set ks s) = mset s"
proof (induction ks s rule: iterate_set.induct)
  case (1 ks)
  show ?case by simp
next
  case (2 x xs)
  show ?case by simp
next
  case (3 k ks x xs)
  let ?s = "x # xs"
  let ?i = "k mod Suc (length xs)"
  have i: "?i < length ?s" by simp
  have ih: "mset (iterate_set ks (take ?i ?s @ drop (Suc ?i) ?s)) =
            mset (take ?i ?s @ drop (Suc ?i) ?s)"
    by (rule "3.IH") simp
  have "mset ?s = mset (take ?i ?s @ ?s ! ?i # drop (Suc ?i) ?s)"
    using id_take_nth_drop [OF i] by simp
  also have "\<dots> = add_mset (?s ! ?i) (mset (take ?i ?s @ drop (Suc ?i) ?s))"
    by simp
  finally have "mset ?s = add_mset (?s ! ?i) (mset (take ?i ?s @ drop (Suc ?i) ?s))" .
  then show ?case
    by (simp only: iterate_set.simps Let_def mset.simps ih)
qed

text \<open>Every order of the elements is the result of some sequence of choices.\<close>

lemma iterate_set_any_order:
  "mset ys = mset s \<Longrightarrow> \<exists>ks. iterate_set ks s = ys"
proof (induction ys arbitrary: s)
  case Nil
  then have "s = []" by simp
  then show ?case by simp
next
  case (Cons y ys)
  from Cons.prems have "y \<in> set s" by (metis list.set_intros(1) mset_eq_setD)
  then obtain i where i: "i < length s" "s ! i = y" by (auto simp: in_set_conv_nth)
  then obtain x xs where s: "s = x # xs" by (cases s) auto
  let ?r = "take i s @ drop (Suc i) s"
  have "take i s @ s ! i # drop (Suc i) s = s"
    using id_take_nth_drop [OF i(1)] by simp
  then have "mset s = mset (take i s @ s ! i # drop (Suc i) s)" by simp
  also have "\<dots> = add_mset y (mset ?r)" using i(2) by simp
  finally have "mset s = add_mset y (mset ?r)" .
  with Cons.prems have "mset ys = mset ?r" by simp
  from Cons.IH [OF this] obtain ks where ks: "iterate_set ks ?r = ys" by blast
  have m: "i mod Suc (length xs) = i" using i(1) s by simp
  have "iterate_set (i # ks) (x # xs) =
          (x # xs) ! i # iterate_set ks (take i (x # xs) @ drop (Suc i) (x # xs))"
    by (simp only: iterate_set.simps Let_def m)
  with ks i(2) s have "iterate_set (i # ks) s = y # ys" by simp
  then show ?case by blast
qed

lemma set_iterate_set: "set (iterate_set ks s) = set s"
  using mset_iterate_set [of ks s] by (rule mset_eq_setD)

lemma count_list_iterate_set: "count_list (iterate_set ks s) x = count_list s x"
  using mset_iterate_set [of ks s] by (metis count_mset)

lemma write_json_cases:
  "on_write f v = Stored \<Longrightarrow> write_json v f = (None, f\<lparr>content := Json v\<rparr>)"
  "on_write f v = Refused \<Longrightarrow> write_json v f = (Some OSError, f)"
  "on_write f v = Broken e \<Longrightarrow> write_json v f = (Some e, f\<lparr>content := Fails JSONDecodeError\<rparr>)"
  by (simp_all add: write_json_def)

lemma on_write_update [simp]: "on_write (f\<lparr>content := c\<rparr>) = on_write f"
  by simp

lemma py_distinct_count:
  "py_distinct s \<Longrightarrow> count_list s (JStr u) \<le> 1"
  by (induction s) (auto simp: py_in_JStr)

lemma count_list_pos: "x \<in> set xs \<Longrightarrow> 0 < count_list xs x"
  by (induction xs) auto

lemma count_list_notin: "x \<notin> set xs \<Longrightarrow> count_list xs x = 0"
  by (induction xs) auto

lemma count_list_snoc: "count_list (s @ [x]) y = count_list s y + (if x = y then 1 else 0)"
  by (induction s) auto


lemma save_published_record_stored:
  assumes "load_published_records (content f) = (Inr published, evs)"
    and "on_write f (JList (iterate_set (order (set_add (JStr u) published))
           (set_add (JStr u) published))) = Stored"
  shows "save_published_record order u f =
           (None,
            f\<lparr>content := Json (JList (iterate_set (order (set_add (JStr u) published))
                 (set_add (JStr u) published)))\<rparr>,
            evs @ [WriteRecords (iterate_set (order (set_add (JStr u) published))
                     (set_add (JStr u) published)),
                   Log DEBUG ''ai_analyzer.py:174''])"
  using assms by (simp add: save_published_record_def Let_def write_json_cases)

lemma save_published_record_refused:
  assumes "load_published_records (content f) = (Inr published, evs)"
    and "on_write f (JList (iterate_set (order (set_add (JStr u) published))
           (set_add (JStr u) published))) = Refused"
  shows "save_published_record order u f = (None, f, evs @ [Log WARNING ''ai_analyzer.py:176''])"
  using assms by (simp add: save_published_record_def Let_def write_json_cases)

lemma save_published_record_broken:
  assumes "load_published_records (content f) = (Inr published, evs)"
    and "on_write f (JList (iterate_set (order (set_add (JStr u) published))
           (set_add (JStr u) published))) = Broken e"
  shows "save_published_record order u f =
           (if e = OSError
            then (None, f\<lparr>content := Fails JSONDecodeError\<rparr>,
                  evs @ [Log WARNING ''ai_analyzer.py:176''])
            else (Some e, f\<lparr>content := Fails JSONDecodeError\<rparr>, evs))"
  using assms by (simp add: save_published_record_def Let_def write_json_cases)

lemma load_published_records_fixed:
  "py_distinct s \<Longrightarrow> load_published_records (Json (JList s)) = (Inr s, [])"
  using set_of_items_fixed[of "[]" s]
  by (simp add: load_published_records_def records_of_json_def)

lemma set_set_add_JStr: "set (set_add (JStr u) s) = insert (JStr u) (set s)"
  by (auto simp: set_add_def py_in_JStr)

lemma count_set_add_JStr:
  assumes "py_distinct s"
  shows "count_list (set_add (JStr u) s) (JStr u) = 1"
proof (cases "JStr u \<in> set s")
  case True
  then have "0 < count_list s (JStr u)" by (rule count_list_pos)
  moreover have "count_list s (JStr u) \<le> 1" using assms by (rule py_distinct_count)
  ultimately show ?thesis using True by (simp add: set_add_def py_in_JStr)
next
  case False
  then show ?thesis by (simp add: set_add_def py_in_JStr count_list_snoc count_list_notin)
qed

lemma set_add_member: "JStr u \<in> set s \<Longrightarrow> set_add (JStr u) s = s"
  by (simp add: set_add_def py_in_JStr)

text \<open>What \<open>load_published_records\<close> lets escape: every exception of the read other than
  \<open>JSONDecodeError\<close> and \<open>OSError\<close>, and the \<open>TypeError\<close> of \<open>set(...)\<close>.\<close>

lemma load_published_records_escapes:
  "e \<noteq> JSONDecodeError \<Longrightarrow> e \<noteq> OSError \<Longrightarrow> load_published_records (Fails e) = (Inl e, [])"
  by (simp add: load_published_records_def)

text \<open>What \<open>save_published_record\<close> lets escape from the write: every exception of the
  dump other than \<open>OSError\<close>, with the file already emptied.\<close>

lemma save_published_record_escapes:
  assumes "load_published_records (content f) = (Inr published, evs)"
    and "on_write f (JList (iterate_set (order (set_add (JStr u) published))
           (set_add (JStr u) published))) = Broken e" and "e \<noteq> OSError"
  shows "save_published_record order u f = (Some e, f\<lparr>content := Fails JSONDecodeError\<rparr>, evs)"
  using save_published_record_broken [of f published evs order u e, OF assms(1,2)] assms(3)
  by simp

text \<open>
  Claim C8, as the code has it. \<open>published\<close> is the set \<open>load_published_records\<close> reads
  from the file, \<open>array\<close> is \<open>list(published)\<close> after the identifier was added, in the order
  the interpreter iterates the set. When the write of \<open>array\<close> goes through,
  \<open>save_published_record\<close> raises nothing and the file holds \<open>array\<close>, a plain JSON array
  with exactly the elements of the set read and the identifier, each once, in some order.
  A second call with the same identifier (in whatever order it iterates) reads that array
  back and writes an array with the same elements, the identifier once: the persisted set
  is unchanged, the order of the array in the file may not be. When the file cannot be
  opened for writing, it is left as it was and a warning is logged; when the write fails
  with \<open>OSError\<close> after the file was opened, the file is left with a text cut short and a
  warning is logged. Nothing is raised in these cases.
\<close>

theorem save_published_record_read_merge_write:
  "(fst (load_published_records (content f)) = Inr published \<and>
    array = iterate_set (order (set_add (JStr u) published)) (set_add (JStr u) published) \<and>
    on_write f (JList array) = Stored \<longrightarrow>
      fst (save_published_record order u f) = None \<and>
      fst (snd (save_published_record order u f)) = f\<lparr>content := Json (JList array)\<rparr> \<and>
      mset array = mset (set_add (JStr u) published) \<and>
      set array = insert (JStr u) (set published) \<and>
      count_list array (JStr u) = 1 \<and>
      (on_write f (JList (iterate_set (order' array) array)) = Stored \<longrightarrow>
         fst (save_published_record order' u (f\<lparr>content := Json (JList array)\<rparr>)) = None \<and>
         fst (snd (save_published_record order' u (f\<lparr>content := Json (JList array)\<rparr>))) =
           f\<lparr>content := Json (JList (iterate_set (order' array) array))\<rparr> \<and>
         mset (iterate_set (order' array) array) = mset array \<and>
         count_list (iterate_set (order' array) array) (JStr u) = 1))
   \<and>
   (fst (load_published_records (content f)) = Inr published \<and>
    array = iterate_set (order (set_add (JStr u) published)) (set_add (JStr u) published) \<and>
    on_write f (JList array) = Refused \<longrightarrow>
      save_published_record order u f =
        (None, f, snd (load_published_records (content f)) @ [Log WARNING ''ai_analyzer.py:176'']))
   \<and>
   (fst (load_published_records (content f)) = Inr published \<and>
    array = iterate_set (order (set_add (JStr u) published)) (set_add (JStr u) published) \<and>
    on_write f (JList array) = Broken OSError \<longrightarrow>
      save_published_record order u f =
        (None, f\<lparr>content := Fails JSONDecodeError\<rparr>,
         snd (load_published_records (content f)) @ [Log WARNING ''ai_analyzer.py:176'']))"
proof (intro conjI)
  let ?s = "set_add (JStr u) published"
  show "fst (load_published_records (content f)) = Inr published \<and>
    array = iterate_set (order ?s) ?s \<and> on_write f (JList array) = Stored \<longrightarrow>
      fst (save_published_record order u f) = None \<and>
      fst (snd (save_published_record order u f)) = f\<lparr>content := Json (JList array)\<rparr> \<and>
      mset array = mset ?s \<and>
      set array = insert (JStr u) (set published) \<and>
      count_list array (JStr u) = 1 \<and>
      (on_write f (JList (iterate_set (order' array) array)) = Stored \<longrightarrow>
         fst (save_published_record order' u (f\<lparr>content := Json (JList array)\<rparr>)) = None \<and>
         fst (snd (save_published_record order' u (f\<lparr>content := Json (JList array)\<rparr>))) =
           f\<lparr>content := Json (JList (iterate_set (order' array) array))\<rparr> \<and>
         mset (iterate_set (order' array) array) = mset array \<and>
         count_list (iterate_set (order' array) array) (JStr u) = 1)"
  proof
    assume a: "fst (load_published_records (content f)) = Inr published \<and>
      array = iterate_set (order ?s) ?s \<and> on_write f (JList array) = Stored"
    then obtain evs where l: "load_published_records (content f) = (Inr published, evs)"
      by (cases "load_published_records (content f)") auto
    from a have arr: "array = iterate_set (order ?s) ?s"
      and st0: "on_write f (JList array) = Stored" by blast+
    from st0 have st: "on_write f (JList (iterate_set (order ?s) ?s)) = Stored"
      unfolding arr .
    let ?f = "f\<lparr>content := Json (JList array)\<rparr>"
    have d: "py_distinct published" using l by (rule load_published_records_distinct)
    then have d': "py_distinct ?s" by (rule py_distinct_set_add) simp
    have m: "mset array = mset ?s" unfolding arr by (rule mset_iterate_set)
    have da: "py_distinct array" using m [symmetric] d' by (rule py_distinct_mset)
    have first: "save_published_record order u f =
        (None, ?f, evs @ [WriteRecords array, Log DEBUG ''ai_analyzer.py:174''])"
      unfolding arr by (rule save_published_record_stored [of f published evs order u, OF l st])
    have mem: "set array = insert (JStr u) (set published)"
      unfolding arr by (simp add: set_iterate_set set_set_add_JStr)
    have cnt: "count_list array (JStr u) = 1"
      unfolding arr by (simp add: count_list_iterate_set count_set_add_JStr [OF d])
    have l2: "load_published_records (content ?f) = (Inr array, [])"
      using load_published_records_fixed [OF da] by simp
    have again: "set_add (JStr u) array = array"
      by (rule set_add_member) (simp add: mem)
    have second: "on_write f (JList (iterate_set (order' array) array)) = Stored \<longrightarrow>
         fst (save_published_record order' u ?f) = None \<and>
         fst (snd (save_published_record order' u ?f)) =
           f\<lparr>content := Json (JList (iterate_set (order' array) array))\<rparr> \<and>
         mset (iterate_set (order' array) array) = mset array \<and>
         count_list (iterate_set (order' array) array) (JStr u) = 1"
    proof
      assume "on_write f (JList (iterate_set (order' array) array)) = Stored"
      then have st2: "on_write ?f (JList (iterate_set (order' (set_add (JStr u) array))
           (set_add (JStr u) array))) = Stored"
        by (simp add: again)
      have "save_published_record order' u ?f =
        (None, ?f\<lparr>content := Json (JList (iterate_set (order' (set_add (JStr u) array))
                 (set_add (JStr u) array)))\<rparr>,
         [] @ [WriteRecords (iterate_set (order' (set_add (JStr u) array))
                     (set_add (JStr u) array)), Log DEBUG ''ai_analyzer.py:174''])"
        by (rule save_published_record_stored [of ?f array "[]" order' u, OF l2 st2])
      then show "fst (save_published_record order' u ?f) = None \<and>
         fst (snd (save_published_record order' u ?f)) =
           f\<lparr>content := Json (JList (iterate_set (order' array) array))\<rparr> \<and>
         mset (iterate_set (order' array) array) = mset array \<and>
         count_list (iterate_set (order' array) array) (JStr u) = 1"
        by (simp add: again mset_iterate_set count_list_iterate_set cnt)
    qed
    from first m mem cnt second
    show "fst (save_published_record order u f) = None \<and>
      fst (snd (save_published_record order u f)) = f\<lparr>content := Json (JList array)\<rparr> \<and>
      mset array = mset ?s \<and>
      set array = insert (JStr u) (set published) \<and>
      count_list array (JStr u) = 1 \<and>
      (on_write f (JList (iterate_set (order' array) array)) = Stored \<longrightarrow>
         fst (save_published_record order' u (f\<lparr>content := Json (JList array)\<rparr>)) = None \<and>
         fst (snd (save_published_record order' u (f\<lparr>content := Json (JList array)\<rparr>))) =
           f\<lparr>content := Json (JList (iterate_set (order' array) array))\<rparr> \<and>
         mset (iterate_set (order' array) array) = mset array \<and>
         count_list (iterate_set (order' array) array) (JStr u) = 1)"
      by simp
  qed
next
  let ?s = "set_add (JStr u) published"
  show "fst (load_published_records (content f)) = Inr published \<and>
    array = iterate_set (order ?s) ?s \<and> on_write f (JList array) = Refused \<longrightarrow>
      save_published_record order u f =
        (None, f, snd (load_published_records (content f)) @ [Log WARNING ''ai_analyzer.py:176''])"
  proof
    assume a: "fst (load_published_records (content f)) = Inr published \<and>
      array = iterate_set (order ?s) ?s \<and> on_write f (JList array) = Refused"
    then obtain evs where l: "load_published_records (content f) = (Inr published, evs)"
      by (cases "load_published_records (content f)") auto
    from a have arr: "array = iterate_set (order ?s) ?s"
      and st0: "on_write f (JList array) = Refused" by blast+
    from st0 have st: "on_write f (JList (iterate_set (order ?s) ?s)) = Refused"
      unfolding arr .
    have "save_published_record order u f =
        (None, f, evs @ [Log WARNING ''ai_analyzer.py:176''])"
      by (rule save_published_record_refused [of f published evs order u, OF l st])
    then show "save_published_record order u f =
        (None, f, snd (load_published_records (content f)) @ [Log WARNING ''ai_analyzer.py:176''])"
      by (simp add: l)
  qed
next
  let ?s = "set_add (JStr u) published"
  show "fst (load_published_records (content f)) = Inr published \<and>
    array = iterate_set (order ?s) ?s \<and> on_write f (JList array) = Broken OSError \<longrightarrow>
      save_published_record order u f =
        (None, f\<lparr>content := Fails JSONDecodeError\<rparr>,
         snd (load_published_records (content f)) @ [Log WARNING ''ai_analyzer.py:176''])"
  proof
    assume a: "fst (load_published_records (content f)) = Inr published \<and>
      array = iterate_set (order ?s) ?s \<and> on_write f (JList array) = Broken OSError"
    then obtain evs where l: "load_published_records (content f) = (Inr published, evs)"
      by (cases "load_published_records (content f)") auto
    from a have arr: "array = iterate_set (order ?s) ?s"
      and st0: "on_write f (JList array) = Broken OSError" by blast+
    from st0 have st: "on_write f (JList (iterate_set (order ?s) ?s)) = Broken OSError"
      unfolding arr .
    have "save_published_record order u f =
        (if OSError = OSError
            then (None, f\<lparr>content := Fails JSONDecodeError\<rparr>,
                  evs @ [Log WARNING ''ai_analyzer.py:176''])
            else (Some OSError, f\<lparr>content := Fails JSONDecodeError\<rparr>, evs))"
      by (rule save_published_record_broken [of f published evs order u OSError, OF l st])
    then show "save_published_record order u f =
        (None, f\<lparr>content := Fails JSONDecodeError\<rparr>,
         snd (load_published_records (content f)) @ [Log WARNING ''ai_analyzer.py:176''])"
      by (simp add: l)
  qed
qed

text \<open>The theorem on a file that holds the object form with one URL \<open>a\<close>, saving the
  URL \<open>b\<close> with an interpreter that iterates the set \<open>{a, b}\<close> from its second element:
  the file becomes the plain array of \<open>b\<close> and \<open>a\<close>; saving \<open>b\<close> again turns the array
  round and keeps its elements. On a file that cannot be opened for writing nothing
  changes.\<close>

theorem save_published_record_read_merge_write_witness:
  "fst (load_published_records (Json (JDict [(urls_key, JList [JStr [97]])]))) = Inr [JStr [97]]
   \<and> fst (snd (save_published_record (\<lambda>s. [1]) [98]
         (disk_file (Json (JDict [(urls_key, JList [JStr [97]])])))))
       = disk_file (Json (JList [JStr [98], JStr [97]]))
   \<and> fst (snd (save_published_record (\<lambda>s. [1]) [98]
         (disk_file (Json (JList [JStr [98], JStr [97]])))))
       = disk_file (Json (JList [JStr [97], JStr [98]]))
   \<and> save_published_record (\<lambda>s. []) [98] (readonly_file Missing)
       = (None, readonly_file Missing, [Log WARNING ''ai_analyzer.py:176''])"
proof -
  let ?f = "disk_file (Json (JDict [(urls_key, JList [JStr [97]])]))"
  let ?o = "\<lambda>s::json list. [1::nat]"
  let ?n = "\<lambda>s::json list. []::nat list"
  let ?g = "readonly_file Missing"
  have s: "set_add (JStr [98]) [JStr [97]] = [JStr [97], JStr [98]]"
    by (simp add: set_add_def py_in_def)
  have i1: "iterate_set [1] [JStr [97], JStr [98]] = [JStr [98], JStr [97]]"
    by simp
  have i2: "iterate_set [1] [JStr [98], JStr [97]] = [JStr [97], JStr [98]]"
    by simp
  have l: "fst (load_published_records (content ?f)) = Inr [JStr [97]]"
    by (simp add: disk_file_def load_published_records_def records_of_json_def set_add_def
        py_in_def)
  have h1: "fst (load_published_records (content ?f)) = Inr [JStr [97]] \<and>
      [JStr [98], JStr [97]] =
        iterate_set (?o (set_add (JStr [98]) [JStr [97]])) (set_add (JStr [98]) [JStr [97]]) \<and>
      on_write ?f (JList [JStr [98], JStr [97]]) = Stored"
    using l by (simp add: s i1) (simp add: disk_file_def surrogate_def)
  note T = save_published_record_read_merge_write [of ?f "[JStr [97]]" "[JStr [98], JStr [97]]"
      ?o "[98]" ?o, THEN conjunct1, THEN mp, OF h1]
  have up: "\<And>c. ?f\<lparr>content := c\<rparr> = disk_file c"
    by (simp add: disk_file_def)
  have a: "fst (snd (save_published_record ?o [98] ?f)) = disk_file (Json (JList [JStr [98], JStr [97]]))"
    using T by (simp add: up)
  have h2: "on_write ?f (JList (iterate_set (?o [JStr [98], JStr [97]]) [JStr [98], JStr [97]]))
      = Stored"
    by (simp add: i2) (simp add: disk_file_def surrogate_def)
  from T have "on_write ?f (JList (iterate_set (?o [JStr [98], JStr [97]]) [JStr [98], JStr [97]]))
      = Stored \<longrightarrow>
         fst (save_published_record ?o [98] (?f\<lparr>content := Json (JList [JStr [98], JStr [97]])\<rparr>)) = None \<and>
         fst (snd (save_published_record ?o [98] (?f\<lparr>content := Json (JList [JStr [98], JStr [97]])\<rparr>))) =
           ?f\<lparr>content := Json (JList (iterate_set (?o [JStr [98], JStr [97]]) [JStr [98], JStr [97]]))\<rparr> \<and>
         mset (iterate_set (?o [JStr [98], JStr [97]]) [JStr [98], JStr [97]]) = mset [JStr [98], JStr [97]] \<and>
         count_list (iterate_set (?o [JStr [98], JStr [97]]) [JStr [98], JStr [97]]) (JStr [98]) = 1"
    by blast
  from this [THEN mp, OF h2]
  have b: "fst (snd (save_published_record ?o [98] (disk_file (Json (JList [JStr [98], JStr [97]])))))
       = disk_file (Json (JList [JStr [97], JStr [98]]))"
    unfolding up i2 by blast
  have lg: "load_published_records (content ?g) = (Inr [], [])"
    by (simp add: readonly_file_def load_published_records_def)
  have h3: "fst (load_published_records (content ?g)) = Inr [] \<and>
      [JStr [98]] = iterate_set (?n (set_add (JStr [98]) [])) (set_add (JStr [98]) []) \<and>
      on_write ?g (JList [JStr [98]]) = Refused"
    using lg by (simp add: set_add_def py_in_def readonly_file_def)
  from save_published_record_read_merge_write [of ?g "[]" "[JStr [98]]" ?n "[98]" ?n,
      THEN conjunct2, THEN conjunct1, THEN mp, OF h3]
  have c: "save_published_record ?n [98] ?g = (None, ?g, [Log WARNING ''ai_analyzer.py:176''])"
    by (simp add: lg)
  from l a b c show ?thesis by (simp add: disk_file_def)
qed

text \<open>
  The claim as worded ("for every prior state of the file ... writes the full set back")
  fails on a file that cannot be opened for writing: the \<open>OSError\<close> is caught, a warning
  is logged and the file does not hold the identifier afterwards.
\<close>

theorem save_published_record_counterexample:
  "save_published_record (\<lambda>s. []) [98] (readonly_file (Json (JList [JStr [97]])))
     = (None, readonly_file (Json (JList [JStr [97]])), [Log WARNING ''ai_analyzer.py:176''])"
  by (simp add: save_published_record_def load_published_records_def records_of_json_def
      set_add_def py_in_def readonly_file_def write_json_def)

text \<open>An identifier that holds a lone surrogate (U+D800) cannot be written as UTF-8: the
  file has been emptied when \<open>json.dump\<close> raises \<open>UnicodeEncodeError\<close>, which is not an
  \<open>OSError\<close> and leaves \<open>save_published_record\<close>.\<close>

lemma example_save_surrogate:
  "save_published_record (\<lambda>s. []) [55296] (disk_file (Json (JList [JStr [97]])))
     = (Some UnicodeEncodeError, disk_file (Fails JSONDecodeError), [])"
  by (simp add: save_published_record_def load_published_records_def records_of_json_def
      set_add_def py_in_def disk_file_def write_json_def surrogate_def)

text \<open>
  Claim C9, as the code has it. A missing file gives the empty value without any log
  entry, in both functions. When the file exists and \<open>open\<close>, the read or \<open>json.load\<close>
  raises, \<open>load_selector_cache\<close> gives the empty mapping with one warning, whatever the
  exception; \<open>load_published_records\<close> gives the empty set with one warning when the
  exception is an \<open>OSError\<close> (the file cannot be opened or read) or a \<open>JSONDecodeError\<close>
  (the text is not JSON). When \<open>json.load\<close> returns a value, \<open>load_published_records\<close>
  gives the empty set with one warning for a value that is neither an array nor an object
  with the key \<open>urls\<close>, and \<open>load_selector_cache\<close> gives the empty mapping with one
  warning for a value that has no length (\<open>null\<close>, a boolean, a number). Nothing is
  raised in these cases.
\<close>

theorem load_degrades_to_empty:
  "load_published_records Missing = (Inr [], [])
   \<and> load_selector_cache Missing = (JDict [], [])
   \<and> (e = OSError \<or> e = JSONDecodeError \<longrightarrow>
        load_published_records (Fails e) = (Inr [], [Log WARNING ''ai_analyzer.py:157'']))
   \<and> load_selector_cache (Fails e') = (JDict [], [Log WARNING ''publisher.py:125''])
   \<and> ((\<forall>xs. v \<noteq> JList xs) \<and> (\<forall>kvs. v = JDict kvs \<longrightarrow> map_of kvs urls_key = None) \<longrightarrow>
        load_published_records (Json v) = (Inr [], [Log WARNING ''ai_analyzer.py:154'']))
   \<and> (\<not> has_len v' \<longrightarrow>
        load_selector_cache (Json v') = (JDict [], [Log WARNING ''publisher.py:125'']))"
proof (intro conjI impI)
  show "load_published_records Missing = (Inr [], [])"
    by (simp add: load_published_records_def)
  show "load_selector_cache Missing = (JDict [], [])"
    by (simp add: load_selector_cache_def)
  show "load_selector_cache (Fails e') = (JDict [], [Log WARNING ''publisher.py:125''])"
    by (simp add: load_selector_cache_def)
next
  assume "e = OSError \<or> e = JSONDecodeError"
  then show "load_published_records (Fails e) = (Inr [], [Log WARNING ''ai_analyzer.py:157''])"
    by (auto simp: load_published_records_def)
next
  assume "(\<forall>xs. v \<noteq> JList xs) \<and> (\<forall>kvs. v = JDict kvs \<longrightarrow> map_of kvs urls_key = None)"
  then show "load_published_records (Json v) = (Inr [], [Log WARNING ''ai_analyzer.py:154''])"
    by (cases v) (simp_all add: load_published_records_def records_of_json_def)
next
  assume "\<not> has_len v'"
  then show "load_selector_cache (Json v') = (JDict [], [Log WARNING ''publisher.py:125''])"
    by (simp add: load_selector_cache_def)
qed

text \<open>The theorem at a file whose text is not JSON, at a file nested too deep for the
  parser, and at the JSON value \<open>7\<close>.\<close>

theorem load_degrades_to_empty_witness:
  "load_published_records (Fails JSONDecodeError) = (Inr [], [Log WARNING ''ai_analyzer.py:157''])
   \<and> load_selector_cache (Fails RecursionError) = (JDict [], [Log WARNING ''publisher.py:125''])
   \<and> load_published_records (Json (JInt 7)) = (Inr [], [Log WARNING ''ai_analyzer.py:154''])
   \<and> load_selector_cache (Json (JInt 7)) = (JDict [], [Log WARNING ''publisher.py:125''])"
proof -
  have h1: "JSONDecodeError = OSError \<or> JSONDecodeError = JSONDecodeError" by simp
  have h2: "(\<forall>xs. JInt 7 \<noteq> JList xs) \<and> (\<forall>kvs. JInt 7 = JDict kvs \<longrightarrow> map_of kvs urls_key = None)"
    by simp
  have h3: "\<not> has_len (JInt 7)" by simp
  from load_degrades_to_empty [of JSONDecodeError RecursionError "JInt 7" "JInt 7"] h1 h2 h3
  show ?thesis by blast
qed

text \<open>
  The claim as worded ("each after logging a warning") fails on a missing file: both
  functions return the empty value and log nothing.
\<close>

theorem load_missing_counterexample:
  "snd (load_published_records Missing) = [] \<and> snd (load_selector_cache Missing) = []"
  by (simp add: load_published_records_def load_selector_cache_def)

section \<open>Properties of \<open>find_element_with_cache\<close>\<close>

lemma save_selector_cache_cases:
  "on_write f (JDict cache) = Stored \<Longrightarrow>
     save_selector_cache cache f =
       (f\<lparr>content := Json (JDict cache)\<rparr>, [WriteCache cache, Log DEBUG ''publisher.py:134''])"
  "on_write f (JDict cache) = Refused \<Longrightarrow>
     save_selector_cache cache f = (f, [Log WARNING ''publisher.py:136''])"
  "on_write f (JDict cache) = Broken x \<Longrightarrow>
     save_selector_cache cache f =
       (f\<lparr>content := Fails JSONDecodeError\<rparr>, [Log WARNING ''publisher.py:136''])"
  by (simp_all add: save_selector_cache_def write_json_def)

lemma probed_append: "probed (xs @ ys) = probed xs @ probed ys"
  by (induction xs rule: probed.induct) simp_all

lemma probed_map_Probe: "probed (map Probe ss) = ss"
  by (induction ss) simp_all

lemma probed_save_selector_cache: "probed (snd (save_selector_cache cache f)) = []"
  by (cases "on_write f (JDict cache)") (simp_all add: save_selector_cache_cases)

lemma try_selectors_none:
  "\<forall>j<length sels. wait (n + j) (sels ! j) = None \<Longrightarrow>
   try_selectors wait n k sels cache f = (None, cache, f, map Probe sels)"
proof (induction sels arbitrary: n)
  case Nil
  show ?case by simp
next
  case (Cons s sels)
  from Cons.prems have s: "wait n s = None" by force
  have "\<forall>j<length sels. wait (Suc n + j) (sels ! j) = None"
  proof (intro allI impI)
    fix j assume "j < length sels"
    then have "Suc j < length (s # sels)" by simp
    with Cons.prems have "wait (n + Suc j) ((s # sels) ! Suc j) = None" by blast
    then show "wait (Suc n + j) (sels ! j) = None" by simp
  qed
  then have "try_selectors wait (Suc n) k sels cache f = (None, cache, f, map Probe sels)"
    by (rule Cons.IH)
  with s show ?case by simp
qed

lemma try_selectors_first:
  "i < length sels \<Longrightarrow> wait (n + i) (sels ! i) = Some e \<Longrightarrow>
   \<forall>j<i. wait (n + j) (sels ! j) = None \<Longrightarrow>
   try_selectors wait n k sels cache f =
     (Some (e, sels ! i), AList.update k (JStr (sels ! i)) cache,
      fst (save_selector_cache (AList.update k (JStr (sels ! i)) cache) f),
      map Probe (take (Suc i) sels)
        @ snd (save_selector_cache (AList.update k (JStr (sels ! i)) cache) f)
        @ [Log INFO ''publisher.py:183''])"
proof (induction sels arbitrary: i n)
  case Nil
  then show ?case by simp
next
  case (Cons s sels)
  show ?case
  proof (cases i)
    case 0
    with Cons.prems(2) show ?thesis
      by (simp add: Let_def split: prod.splits)
  next
    case (Suc m)
    from Cons.prems(3) Suc have s: "wait n s = None" by force
    have none: "\<forall>j<m. wait (Suc n + j) (sels ! j) = None"
    proof (intro allI impI)
      fix j assume "j < m"
      then have "Suc j < i" using Suc by simp
      with Cons.prems(3) have "wait (n + Suc j) ((s # sels) ! Suc j) = None" by blast
      then show "wait (Suc n + j) (sels ! j) = None" by simp
    qed
    from Cons.prems Suc have m: "m < length sels" and e: "wait (Suc n + m) (sels ! m) = Some e"
      by auto
    have "try_selectors wait (Suc n) k sels cache f =
     (Some (e, sels ! m), AList.update k (JStr (sels ! m)) cache,
      fst (save_selector_cache (AList.update k (JStr (sels ! m)) cache) f),
      map Probe (take (Suc m) sels)
        @ snd (save_selector_cache (AList.update k (JStr (sels ! m)) cache) f)
        @ [Log INFO ''publisher.py:183''])"
      using m e none by (rule Cons.IH)
    with s Suc show ?thesis by simp
  qed
qed

lemma cached_candidate_Some:
  "cached_candidate cache k sels = Some c \<longleftrightarrow>
     map_of cache k = Some (JStr c) \<and> c \<noteq> [] \<and> c \<in> set sels"
  by (auto simp: cached_candidate_def split: option.splits json.splits)

lemma map_of_update_same: "map_of (AList.update k v al) k = Some v"
  by (simp add: update_conv')

text \<open>
  Claim C1, as the code has it. If the cache maps the role key to a non-empty locator
  that is one of the candidates and that resolves at the first attempt, the function
  returns that element and locator, has waited for nothing else, and the cache and its
  file are untouched. Otherwise the candidates are tried in list order, each at its own
  attempt, after the attempt on the cached locator when there was one (\<open>n\<close> attempts
  before the loop, with the effects \<open>stale\<close>). The first candidate that resolves is stored
  in the cache under the role key, replacing what was there, then \<open>save_selector_cache\<close>
  is called on the new cache, then element and locator are returned. After that call the
  file holds the new cache when the write went through; when the file cannot be opened
  for writing it is as before, and when the write breaks off it holds a text cut short;
  in these two cases a warning is logged and the element is returned all the same. When
  no candidate resolves the result is \<open>None\<close>, and cache and file are as before.
\<close>

theorem find_element_with_cache_correct:
  "(map_of cache k = Some (JStr c) \<and> c \<noteq> [] \<and> c \<in> set sels \<and> wait 0 c = Some e \<longrightarrow>
      find_element_with_cache wait k sels cache f =
        (Some (e, c), cache, f, [Probe c, Log DEBUG ''publisher.py:165'']))
   \<and>
   (\<not> (\<exists>c e. map_of cache k = Some (JStr c) \<and> c \<noteq> [] \<and> c \<in> set sels \<and> wait 0 c = Some e) \<and>
    n = (case cached_candidate cache k sels of None \<Rightarrow> 0 | Some c \<Rightarrow> 1) \<and>
    stale = (case cached_candidate cache k sels of
               None \<Rightarrow> [] | Some c \<Rightarrow> [Probe c, Log DEBUG ''publisher.py:168'']) \<longrightarrow>
      (i < length sels \<and> wait (n + i) (sels ! i) = Some e \<and>
       (\<forall>j<i. wait (n + j) (sels ! j) = None) \<longrightarrow>
         (case find_element_with_cache wait k sels cache f of
            (r, cache', f', evs) \<Rightarrow>
              r = Some (e, sels ! i) \<and>
              cache' = AList.update k (JStr (sels ! i)) cache \<and>
              map_of cache' k = Some (JStr (sels ! i)) \<and>
              f' = fst (save_selector_cache cache' f) \<and>
              evs = stale @ map Probe (take (Suc i) sels)
                      @ snd (save_selector_cache cache' f) @ [Log INFO ''publisher.py:183''] \<and>
              (on_write f (JDict cache') = Stored \<longrightarrow>
                 save_selector_cache cache' f =
                   (f\<lparr>content := Json (JDict cache')\<rparr>,
                    [WriteCache cache', Log DEBUG ''publisher.py:134''])) \<and>
              (on_write f (JDict cache') = Refused \<longrightarrow>
                 save_selector_cache cache' f = (f, [Log WARNING ''publisher.py:136''])) \<and>
              (\<forall>x. on_write f (JDict cache') = Broken x \<longrightarrow>
                 save_selector_cache cache' f =
                   (f\<lparr>content := Fails JSONDecodeError\<rparr>, [Log WARNING ''publisher.py:136'']))))
      \<and>
      ((\<forall>j<length sels. wait (n + j) (sels ! j) = None) \<longrightarrow>
         find_element_with_cache wait k sels cache f = (None, cache, f, stale @ map Probe sels)))"
proof (intro conjI impI)
  assume hit: "map_of cache k = Some (JStr c) \<and> c \<noteq> [] \<and> c \<in> set sels \<and> wait 0 c = Some e"
  then have "cached_candidate cache k sels = Some c"
    by (simp add: cached_candidate_Some)
  with hit show "find_element_with_cache wait k sels cache f =
        (Some (e, c), cache, f, [Probe c, Log DEBUG ''publisher.py:165''])"
    by (simp add: find_element_with_cache_def)
next
  assume miss: "\<not> (\<exists>c e. map_of cache k = Some (JStr c) \<and> c \<noteq> [] \<and> c \<in> set sels \<and>
        wait 0 c = Some e) \<and>
    n = (case cached_candidate cache k sels of None \<Rightarrow> 0 | Some c \<Rightarrow> 1) \<and>
    stale = (case cached_candidate cache k sels of
               None \<Rightarrow> [] | Some c \<Rightarrow> [Probe c, Log DEBUG ''publisher.py:168''])"
  assume first: "i < length sels \<and> wait (n + i) (sels ! i) = Some e \<and>
       (\<forall>j<i. wait (n + j) (sels ! j) = None)"
  let ?cache = "AList.update k (JStr (sels ! i)) cache"
  have t: "try_selectors wait n k sels cache f =
     (Some (e, sels ! i), ?cache, fst (save_selector_cache ?cache f),
      map Probe (take (Suc i) sels) @ snd (save_selector_cache ?cache f)
        @ [Log INFO ''publisher.py:183''])"
    using first by (intro try_selectors_first) simp_all
  have run: "find_element_with_cache wait k sels cache f =
     (Some (e, sels ! i), ?cache, fst (save_selector_cache ?cache f),
      stale @ map Probe (take (Suc i) sels) @ snd (save_selector_cache ?cache f)
        @ [Log INFO ''publisher.py:183''])"
  proof (cases "cached_candidate cache k sels")
    case None
    with miss have "n = 0" "stale = []" by simp_all
    with None t show ?thesis by (simp add: find_element_with_cache_def)
  next
    case (Some c)
    with miss have n: "n = 1" "stale = [Probe c, Log DEBUG ''publisher.py:168'']" by simp_all
    from Some have "map_of cache k = Some (JStr c) \<and> c \<noteq> [] \<and> c \<in> set sels"
      by (simp add: cached_candidate_Some)
    with miss have "wait 0 c = None" by (cases "wait 0 c") auto
    with Some n t show ?thesis by (simp add: find_element_with_cache_def)
  qed
  show "case find_element_with_cache wait k sels cache f of
            (r, cache', f', evs) \<Rightarrow>
              r = Some (e, sels ! i) \<and>
              cache' = AList.update k (JStr (sels ! i)) cache \<and>
              map_of cache' k = Some (JStr (sels ! i)) \<and>
              f' = fst (save_selector_cache cache' f) \<and>
              evs = stale @ map Probe (take (Suc i) sels)
                      @ snd (save_selector_cache cache' f) @ [Log INFO ''publisher.py:183''] \<and>
              (on_write f (JDict cache') = Stored \<longrightarrow>
                 save_selector_cache cache' f =
                   (f\<lparr>content := Json (JDict cache')\<rparr>,
                    [WriteCache cache', Log DEBUG ''publisher.py:134''])) \<and>
              (on_write f (JDict cache') = Refused \<longrightarrow>
                 save_selector_cache cache' f = (f, [Log WARNING ''publisher.py:136''])) \<and>
              (\<forall>x. on_write f (JDict cache') = Broken x \<longrightarrow>
                 save_selector_cache cache' f =
                   (f\<lparr>content := Fails JSONDecodeError\<rparr>, [Log WARNING ''publisher.py:136'']))"
    unfolding run prod.case
    by (simp add: map_of_update_same save_selector_cache_cases)
next
  assume miss: "\<not> (\<exists>c e. map_of cache k = Some (JStr c) \<and> c \<noteq> [] \<and> c \<in> set sels \<and>
        wait 0 c = Some e) \<and>
    n = (case cached_candidate cache k sels of None \<Rightarrow> 0 | Some c \<Rightarrow> 1) \<and>
    stale = (case cached_candidate cache k sels of
               None \<Rightarrow> [] | Some c \<Rightarrow> [Probe c, Log DEBUG ''publisher.py:168''])"
  assume none: "\<forall>j<length sels. wait (n + j) (sels ! j) = None"
  then have t: "try_selectors wait n k sels cache f = (None, cache, f, map Probe sels)"
    by (rule try_selectors_none)
  show "find_element_with_cache wait k sels cache f = (None, cache, f, stale @ map Probe sels)"
  proof (cases "cached_candidate cache k sels")
    case None
    with miss have "n = 0" "stale = []" by simp_all
    with None t show ?thesis by (simp add: find_element_with_cache_def)
  next
    case (Some c)
    with miss have n: "n = 1" "stale = [Probe c, Log DEBUG ''publisher.py:168'']" by simp_all
    from Some have "map_of cache k = Some (JStr c) \<and> c \<noteq> [] \<and> c \<in> set sels"
      by (simp add: cached_candidate_Some)
    with miss have "wait 0 c = None" by (cases "wait 0 c") auto
    with Some n t show ?thesis by (simp add: find_element_with_cache_def)
  qed
qed

text \<open>The theorem with the role key \<open>"k"\<close> and the candidates \<open>"1"\<close>, \<open>"2"\<close>. With \<open>"2"\<close>
  cached and resolving (to element 7): one wait and nothing changes. With \<open>"1"\<close> cached on
  a page where \<open>"1"\<close> times out at the first attempt and resolves at the second: the
  waits are \<open>"1"\<close> and \<open>"1"\<close> again, the cache maps \<open>"k"\<close> to \<open>"1"\<close> and the file holds that
  cache. On a page where nothing resolves the result is \<open>None\<close>.\<close>

theorem find_element_with_cache_correct_witness:
  "find_element_with_cache (\<lambda>n s. if s = [50] then Some (7::nat) else None) [107]
        [[49], [50]] [([107], JStr [50])] (disk_file Missing)
       = (Some (7, [50]), [([107], JStr [50])], disk_file Missing,
          [Probe [50], Log DEBUG ''publisher.py:165''])
   \<and> find_element_with_cache (\<lambda>n s. if s = [49] \<and> n = 1 then Some (7::nat) else None) [107]
        [[49], [50]] [([107], JStr [49])] (disk_file Missing)
       = (Some (7, [49]), [([107], JStr [49])], disk_file (Json (JDict [([107], JStr [49])])),
          [Probe [49], Log DEBUG ''publisher.py:168'', Probe [49],
           WriteCache [([107], JStr [49])], Log DEBUG ''publisher.py:134'',
           Log INFO ''publisher.py:183''])
   \<and> find_element_with_cache (\<lambda>n s. None :: nat option) [107]
        [[49], [50]] [([107], JStr [49])] (disk_file Missing)
       = (None, [([107], JStr [49])], disk_file Missing,
          [Probe [49], Log DEBUG ''publisher.py:168'', Probe [49], Probe [50]])"
proof -
  let ?A = "\<lambda>(n::nat) s::pystr. if s = [50] then Some (7::nat) else None"
  let ?B = "\<lambda>(n::nat) s::pystr. if s = [49] \<and> n = 1 then Some (7::nat) else None"
  let ?C = "\<lambda>(n::nat) s::pystr. None :: nat option"
  let ?F = "disk_file Missing"
  let ?sels = "[[49], [50 :: nat]]"
  let ?stale = "[Probe [49], Log DEBUG ''publisher.py:168'']"
  have cc: "cached_candidate [([107], JStr [49])] [107] ?sels = Some [49]"
    by (simp add: cached_candidate_def)
  have hit: "map_of [([107], JStr [50])] [107::nat] = Some (JStr [50]) \<and> [50] \<noteq> [] \<and>
      [50] \<in> set ?sels \<and> ?A 0 [50] = Some 7" by simp
  have a: "find_element_with_cache ?A [107] ?sels [([107], JStr [50])] ?F
       = (Some (7, [50]), [([107], JStr [50])], ?F, [Probe [50], Log DEBUG ''publisher.py:165''])"
    by (rule find_element_with_cache_correct [where wait = ?A and cache = "[([107], JStr [50])]"
          and k = "[107]" and c = "[50]" and sels = ?sels and e = 7 and f = ?F,
          THEN conjunct1, THEN mp, OF hit])
  have missB: "\<not> (\<exists>c e. map_of [([107], JStr [49])] [107::nat] = Some (JStr c) \<and> c \<noteq> [] \<and>
        c \<in> set ?sels \<and> ?B 0 c = Some e) \<and>
      1 = (case cached_candidate [([107], JStr [49])] [107] ?sels of None \<Rightarrow> 0 | Some c \<Rightarrow> 1) \<and>
      ?stale = (case cached_candidate [([107], JStr [49])] [107] ?sels of
               None \<Rightarrow> [] | Some c \<Rightarrow> [Probe c, Log DEBUG ''publisher.py:168''])"
    by (simp add: cc)
  have first: "0 < length ?sels \<and> ?B (1 + 0) (?sels ! 0) = Some 7 \<and>
      (\<forall>j<0. ?B (1 + j) (?sels ! j) = None)"
    by simp
  have st: "on_write ?F (JDict (AList.update [107] (JStr [49]) [([107], JStr [49])])) = Stored"
    by (simp add: disk_file_def surrogate_def)
  have sv: "save_selector_cache [([107], JStr [49])] ?F =
      (disk_file (Json (JDict [([107], JStr [49])])),
       [WriteCache [([107], JStr [49])], Log DEBUG ''publisher.py:134''])"
    by (simp add: save_selector_cache_def write_json_def disk_file_def surrogate_def)
  have "case find_element_with_cache ?B [107] ?sels [([107], JStr [49])] ?F of
         (r, cache', f', evs) \<Rightarrow>
              r = Some (7, ?sels ! 0) \<and>
              cache' = AList.update [107] (JStr (?sels ! 0)) [([107], JStr [49])] \<and>
              map_of cache' [107] = Some (JStr (?sels ! 0)) \<and>
              f' = fst (save_selector_cache cache' ?F) \<and>
              evs = ?stale @ map Probe (take (Suc 0) ?sels)
                      @ snd (save_selector_cache cache' ?F) @ [Log INFO ''publisher.py:183''] \<and>
              (on_write ?F (JDict cache') = Stored \<longrightarrow>
                 save_selector_cache cache' ?F =
                   (?F\<lparr>content := Json (JDict cache')\<rparr>,
                    [WriteCache cache', Log DEBUG ''publisher.py:134''])) \<and>
              (on_write ?F (JDict cache') = Refused \<longrightarrow>
                 save_selector_cache cache' ?F = (?F, [Log WARNING ''publisher.py:136''])) \<and>
              (\<forall>x. on_write ?F (JDict cache') = Broken x \<longrightarrow>
                 save_selector_cache cache' ?F =
                   (?F\<lparr>content := Fails JSONDecodeError\<rparr>, [Log WARNING ''publisher.py:136'']))"
    by (rule find_element_with_cache_correct [where wait = ?B and cache = "[([107], JStr [49])]"
          and k = "[107]" and sels = ?sels and e = 7 and i = 0 and f = ?F and n = 1
          and stale = ?stale,
          THEN conjunct2, THEN mp, OF missB, THEN conjunct1, THEN mp, OF first])
  then have b: "find_element_with_cache ?B [107] ?sels [([107], JStr [49])] ?F
       = (Some (7, [49]), [([107], JStr [49])], disk_file (Json (JDict [([107], JStr [49])])),
          [Probe [49], Log DEBUG ''publisher.py:168'', Probe [49],
           WriteCache [([107], JStr [49])], Log DEBUG ''publisher.py:134'',
           Log INFO ''publisher.py:183''])"
    by (cases "find_element_with_cache ?B [107] ?sels [([107], JStr [49])] ?F") (simp add: sv)
  have missC: "\<not> (\<exists>c e. map_of [([107], JStr [49])] [107::nat] = Some (JStr c) \<and> c \<noteq> [] \<and>
        c \<in> set ?sels \<and> ?C 0 c = Some e) \<and>
      1 = (case cached_candidate [([107], JStr [49])] [107] ?sels of None \<Rightarrow> 0 | Some c \<Rightarrow> 1) \<and>
      ?stale = (case cached_candidate [([107], JStr [49])] [107] ?sels of
               None \<Rightarrow> [] | Some c \<Rightarrow> [Probe c, Log DEBUG ''publisher.py:168''])"
    by (simp add: cc)
  have none: "\<forall>j<length ?sels. ?C (1 + j) (?sels ! j) = None" by simp
  have "find_element_with_cache ?C [107] ?sels [([107], JStr [49])] ?F =
      (None, [([107], JStr [49])], ?F, ?stale @ map Probe ?sels)"
    by (rule find_element_with_cache_correct [where wait = ?C and cache = "[([107], JStr [49])]"
          and k = "[107]" and sels = ?sels and f = ?F and n = 1 and stale = ?stale,
          THEN conjunct2, THEN mp, OF missC, THEN conjunct2, THEN mp, OF none])
  then have c: "find_element_with_cache ?C [107] ?sels [([107], JStr [49])] ?F =
      (None, [([107], JStr [49])], ?F,
       [Probe [49], Log DEBUG ''publisher.py:168'', Probe [49], Probe [50]])"
    by simp
  show ?thesis by (rule conjI [OF a conjI [OF b c]])
qed

text \<open>
  The claim as worded ("recorded into the cache ... and persisted to disk before being
  returned") fails on a cache file that cannot be opened for writing: with an empty cache
  and the candidate \<open>"2"\<close> resolving, the element is returned and the cache in memory
  holds the locator, while the write was refused with a warning and the file is as it
  was, here still missing.
\<close>

theorem find_element_with_cache_counterexample:
  "find_element_with_cache (\<lambda>n s. if s = [50] then Some (7::nat) else None) [107]
        [[49], [50]] [] (readonly_file Missing)
     = (Some (7, [50]), [([107], JStr [50])], readonly_file Missing,
        [Probe [49], Probe [50], Log WARNING ''publisher.py:136'',
         Log INFO ''publisher.py:183''])"
  by (simp add: find_element_with_cache_def cached_candidate_def save_selector_cache_def
      write_json_def readonly_file_def)

section \<open>Properties of the cover retry loop\<close>

lemma cover_attempts_done:
  "m < attempt \<Longrightarrow> cover_attempts env t a attempt m w = (None, w, [])"
  by (subst cover_attempts.simps) simp

lemma cover_attempts_ok:
  "attempt \<le> m \<Longrightarrow> generate_cover_image env t a (ext w) = (Some p, x') \<Longrightarrow>
   cover_attempts env t a attempt m w =
     (Some p, w\<lparr>ext := x', files := insert p (files w)\<rparr>, cover_succeeded t p)"
  by (subst cover_attempts.simps) (simp add: cover_succeeded_def)

lemma cover_attempts_fail:
  "attempt \<le> m \<Longrightarrow> generate_cover_image env t a (ext w) = (None, x') \<Longrightarrow>
   cover_attempts env t a attempt m w =
     (case cover_attempts env t a (Suc attempt) m (w\<lparr>ext := x'\<rparr>) of
        (r, w', evs') \<Rightarrow> (r, w', cover_failed t (\<not> attempt < m) @ evs'))"
  by (subst cover_attempts.simps) (simp add: cover_failed_def split: prod.splits)

lemma cover_attempts_cases_Suc:
  "\<exists>x'. cover_attempts env t a (Suc 0) (Suc (Suc (Suc 0))) w =
           (None, w\<lparr>ext := x'\<rparr>,
            cover_failed t False @ cover_failed t False @ cover_failed t True)
       \<or> (\<exists>p. cover_attempts env t a (Suc 0) (Suc (Suc (Suc 0))) w =
                 (Some p, w\<lparr>ext := x', files := insert p (files w)\<rparr>, cover_succeeded t p))
       \<or> (\<exists>p. cover_attempts env t a (Suc 0) (Suc (Suc (Suc 0))) w =
                 (Some p, w\<lparr>ext := x', files := insert p (files w)\<rparr>,
                  cover_failed t False @ cover_succeeded t p))
       \<or> (\<exists>p. cover_attempts env t a (Suc 0) (Suc (Suc (Suc 0))) w =
                 (Some p, w\<lparr>ext := x', files := insert p (files w)\<rparr>,
                  cover_failed t False @ cover_failed t False @ cover_succeeded t p))"
proof -
  let ?m = "Suc (Suc (Suc 0))"
  obtain r1 x1 where g1: "generate_cover_image env t a (ext w) = (r1, x1)"
    by (cases "generate_cover_image env t a (ext w)")
  show ?thesis
  proof (cases r1)
    case (Some p)
    with g1 have "cover_attempts env t a (Suc 0) ?m w =
        (Some p, w\<lparr>ext := x1, files := insert p (files w)\<rparr>, cover_succeeded t p)"
      by (intro cover_attempts_ok) simp_all
    then show ?thesis by - (rule exI, rule disjI2, rule disjI1, rule exI, assumption)
  next
    case None
    with g1 have s1: "cover_attempts env t a (Suc 0) ?m w =
        (case cover_attempts env t a (Suc (Suc 0)) ?m (w\<lparr>ext := x1\<rparr>) of
           (r, w', evs') \<Rightarrow> (r, w', cover_failed t False @ evs'))"
      using cover_attempts_fail [of "Suc 0" ?m env t a w x1] by simp
    obtain r2 x2 where g2: "generate_cover_image env t a x1 = (r2, x2)"
      by (cases "generate_cover_image env t a x1")
    show ?thesis
    proof (cases r2)
      case (Some p)
      with g2 have "cover_attempts env t a (Suc (Suc 0)) ?m (w\<lparr>ext := x1\<rparr>) =
          (Some p, w\<lparr>ext := x2, files := insert p (files w)\<rparr>, cover_succeeded t p)"
        using cover_attempts_ok [of "Suc (Suc 0)" ?m env t a "w\<lparr>ext := x1\<rparr>" p x2] by simp
      then have "cover_attempts env t a (Suc 0) ?m w =
          (Some p, w\<lparr>ext := x2, files := insert p (files w)\<rparr>,
           cover_failed t False @ cover_succeeded t p)" by (simp add: s1)
      then show ?thesis
        by - (rule exI, rule disjI2, rule disjI2, rule disjI1, rule exI, assumption)
    next
      case None
      with g2 have s2: "cover_attempts env t a (Suc (Suc 0)) ?m (w\<lparr>ext := x1\<rparr>) =
          (case cover_attempts env t a ?m ?m (w\<lparr>ext := x2\<rparr>) of
             (r, w', evs') \<Rightarrow> (r, w', cover_failed t False @ evs'))"
        using cover_attempts_fail [of "Suc (Suc 0)" ?m env t a "w\<lparr>ext := x1\<rparr>" x2] by simp
      obtain r3 x3 where g3: "generate_cover_image env t a x2 = (r3, x3)"
        by (cases "generate_cover_image env t a x2")
      show ?thesis
      proof (cases r3)
        case (Some p)
        with g3 have "cover_attempts env t a ?m ?m (w\<lparr>ext := x2\<rparr>) =
            (Some p, w\<lparr>ext := x3, files := insert p (files w)\<rparr>, cover_succeeded t p)"
          using cover_attempts_ok [of ?m ?m env t a "w\<lparr>ext := x2\<rparr>" p x3] by simp
        then have "cover_attempts env t a (Suc 0) ?m w =
            (Some p, w\<lparr>ext := x3, files := insert p (files w)\<rparr>,
             cover_failed t False @ cover_failed t False @ cover_succeeded t p)"
          by (simp add: s1 s2)
        then show ?thesis
          by - (rule exI, rule disjI2, rule disjI2, rule disjI2, rule exI, assumption)
      next
        case None
        with g3 have "cover_attempts env t a ?m ?m (w\<lparr>ext := x2\<rparr>) =
            (case cover_attempts env t a (Suc ?m) ?m (w\<lparr>ext := x3\<rparr>) of
               (r, w', evs') \<Rightarrow> (r, w', cover_failed t True @ evs'))"
          using cover_attempts_fail [of ?m ?m env t a "w\<lparr>ext := x2\<rparr>" x3] by simp
        moreover have "cover_attempts env t a (Suc ?m) ?m (w\<lparr>ext := x3\<rparr>) =
            (None, w\<lparr>ext := x3\<rparr>, [])"
          by (rule cover_attempts_done) simp
        ultimately have "cover_attempts env t a (Suc 0) ?m w =
            (None, w\<lparr>ext := x3\<rparr>,
             cover_failed t False @ cover_failed t False @ cover_failed t True)"
          by (simp add: s1 s2)
        then show ?thesis by - (rule exI, rule disjI1, assumption)
      qed
    qed
  qed
qed

lemmas cover_attempts_cases =
  cover_attempts_cases_Suc [folded numeral_3_eq_3 One_nat_def]

lemma cover_calls_append: "cover_calls (xs @ ys) = cover_calls xs @ cover_calls ys"
  by (induction xs rule: cover_calls.induct) simp_all

lemma sleeps_append: "sleeps (xs @ ys) = sleeps xs @ sleeps ys"
  by (induction xs rule: sleeps.induct) simp_all

lemma cover_calls_blocks [simp]:
  "cover_calls (cover_failed t l) = [None]" "cover_calls (cover_succeeded t p) = [Some p]"
  by (simp_all add: cover_failed_def cover_succeeded_def)

lemma sleeps_blocks [simp]:
  "sleeps (cover_failed t l) = (if l then [] else [2])" "sleeps (cover_succeeded t p) = []"
  by (simp_all add: cover_failed_def cover_succeeded_def)

lemma cover_part_cases:
  assumes "(if g then cover_attempts env t a 1 3 w else (None, w, [])) = (c, w1, ec)"
  shows "records_file w1 = records_file w \<and>
         ((c = None \<and> files w1 = files w \<and>
           (if g then ec = cover_failed t False @ cover_failed t False @ cover_failed t True
            else ec = [] \<and> w1 = w))
          \<or> (\<exists>p. g \<and> c = Some p \<and> files w1 = insert p (files w) \<and>
                 (ec = cover_succeeded t p \<or> ec = cover_failed t False @ cover_succeeded t p \<or>
                  ec = cover_failed t False @ cover_failed t False @ cover_succeeded t p)))"
proof (cases g)
  case False
  with assms show ?thesis by simp
next
  case True
  with assms have r: "cover_attempts env t a 1 3 w = (c, w1, ec)" by simp
  from cover_attempts_cases [of env t a w] obtain x' where
    "cover_attempts env t a 1 3 w =
           (None, w\<lparr>ext := x'\<rparr>,
            cover_failed t False @ cover_failed t False @ cover_failed t True)
       \<or> (\<exists>p. cover_attempts env t a 1 3 w =
                 (Some p, w\<lparr>ext := x', files := insert p (files w)\<rparr>, cover_succeeded t p))
       \<or> (\<exists>p. cover_attempts env t a 1 3 w =
                 (Some p, w\<lparr>ext := x', files := insert p (files w)\<rparr>,
                  cover_failed t False @ cover_succeeded t p))
       \<or> (\<exists>p. cover_attempts env t a 1 3 w =
                 (Some p, w\<lparr>ext := x', files := insert p (files w)\<rparr>,
                  cover_failed t False @ cover_failed t False @ cover_succeeded t p))" ..
  then show ?thesis
  proof (elim disjE exE)
    assume "cover_attempts env t a 1 3 w =
           (None, w\<lparr>ext := x'\<rparr>,
            cover_failed t False @ cover_failed t False @ cover_failed t True)"
    with r True show ?thesis by simp
  next
    fix p assume "cover_attempts env t a 1 3 w =
                 (Some p, w\<lparr>ext := x', files := insert p (files w)\<rparr>, cover_succeeded t p)"
    with r True show ?thesis by simp
  next
    fix p assume "cover_attempts env t a 1 3 w =
                 (Some p, w\<lparr>ext := x', files := insert p (files w)\<rparr>,
                  cover_failed t False @ cover_succeeded t p)"
    with r True show ?thesis by simp
  next
    fix p assume "cover_attempts env t a 1 3 w =
                 (Some p, w\<lparr>ext := x', files := insert p (files w)\<rparr>,
                  cover_failed t False @ cover_failed t False @ cover_succeeded t p)"
    with r True show ?thesis by simp
  qed
qed

lemma load_published_records_events:
  "snd (load_published_records c) = [] \<or>
   snd (load_published_records c) = [Log WARNING ''ai_analyzer.py:154''] \<or>
   snd (load_published_records c) = [Log WARNING ''ai_analyzer.py:157'']"
  by (cases c)
     (auto simp: load_published_records_def records_of_json_def
           split: json.splits option.splits sum.splits prod.splits)


section \<open>The shape of one iteration of the loop\<close>

lemma publish_generated_cases:
  assumes "publish_generated env cfg t ac u w = (w', evs)"
  obtains
    (skipped) "cover_mode_generate cfg"
      "evs = cover_failed t False @ cover_failed t False @ cover_failed t True
             @ [Log WARNING ''ai_analyzer.py:331'']"
      "records_file w' = records_file w" "files w' = files w"
  | (failed) c w1 ec x2 where
      "(if cover_mode_generate cfg then cover_attempts env t (take 100 ac) 1 3 w
        else (None, w, [])) = (c, w1, ec)"
      "\<not> (cover_mode_generate cfg \<and> c = None)"
      "publish env t (markdown_to_html env ac) c (ext w1) = (False, x2)"
      "w' = w1\<lparr>ext := x2\<rparr>"
      "evs = ec @ [Publish t (markdown_to_html env ac) c False, Log ERROR ''ai_analyzer.py:359'']"
  | (raised) c w1 ec x2 e f' evs_s where
      "(if cover_mode_generate cfg then cover_attempts env t (take 100 ac) 1 3 w
        else (None, w, [])) = (c, w1, ec)"
      "\<not> (cover_mode_generate cfg \<and> c = None)"
      "publish env t (markdown_to_html env ac) c (ext w1) = (True, x2)"
      "save_published_record (set_order env) u (records_file w) = (Some e, f', evs_s)"
      "w' = w1\<lparr>ext := x2, records_file := f'\<rparr>"
      "evs = ec @ [Publish t (markdown_to_html env ac) c True, Log INFO ''ai_analyzer.py:338'']
               @ evs_s @ [Log ERROR ''ai_analyzer.py:359'']"
  | (published) c w1 ec x2 f' evs_s evs_r where
      "(if cover_mode_generate cfg then cover_attempts env t (take 100 ac) 1 3 w
        else (None, w, [])) = (c, w1, ec)"
      "\<not> (cover_mode_generate cfg \<and> c = None)"
      "publish env t (markdown_to_html env ac) c (ext w1) = (True, x2)"
      "save_published_record (set_order env) u (records_file w) = (None, f', evs_s)"
      "remove_cover env [Log INFO ''ai_analyzer.py:348''] [Log WARNING ''ai_analyzer.py:350'']
         c (w1\<lparr>ext := x2, records_file := f'\<rparr>) = (w', evs_r)"
      "evs = ec @ [Publish t (markdown_to_html env ac) c True, Log INFO ''ai_analyzer.py:338'']
               @ evs_s @ evs_r @ [Log INFO ''ai_analyzer.py:354'', Sleep (publish_delay cfg)]"
proof -
  obtain c w1 ec where cp:
    "(if cover_mode_generate cfg then cover_attempts env t (take 100 ac) 1 3 w
      else (None, w, [])) = (c, w1, ec)"
    by (cases "if cover_mode_generate cfg then cover_attempts env t (take 100 ac) 1 3 w
               else (None, w, [])") auto
  note cc = cover_part_cases [OF cp]
  show thesis
  proof (cases "cover_mode_generate cfg \<and> c = None")
    case True
    with assms cp have "evs = ec @ [Log WARNING ''ai_analyzer.py:331'']" "w' = w1"
      by (simp_all add: publish_generated_def Let_def)
    with True cc show thesis by (intro skipped) auto
  next
    case False
    obtain ok x2 where pb: "publish env t (markdown_to_html env ac) c (ext w1) = (ok, x2)"
      by (cases "publish env t (markdown_to_html env ac) c (ext w1)")
    show thesis
    proof (cases ok)
      case no: False
      with assms cp False pb have "w' = w1\<lparr>ext := x2\<rparr>"
        "evs = ec @ [Publish t (markdown_to_html env ac) c False, Log ERROR ''ai_analyzer.py:359'']"
        by (simp_all add: publish_generated_def Let_def)
      with cp False pb no show thesis by (intro failed) simp_all
    next
      case yes: True
      obtain e f' evs_s where sv: "save_published_record (set_order env) u (records_file w1) = (e, f', evs_s)"
        by (cases "save_published_record (set_order env) u (records_file w1)")
      from cc have rf: "records_file w1 = records_file w" by simp
      show thesis
      proof (cases e)
        case (Some ex)
        with assms cp False pb yes sv have "w' = w1\<lparr>ext := x2, records_file := f'\<rparr>"
          "evs = ec @ [Publish t (markdown_to_html env ac) c True, Log INFO ''ai_analyzer.py:338'']
               @ evs_s @ [Log ERROR ''ai_analyzer.py:359'']"
          by (simp_all add: publish_generated_def Let_def)
        with cp False pb yes sv Some rf show thesis by (intro raised) simp_all
      next
        case None
        obtain w3 evs_r where rm:
          "remove_cover env [Log INFO ''ai_analyzer.py:348''] [Log WARNING ''ai_analyzer.py:350'']
             c (w1\<lparr>ext := x2, records_file := f'\<rparr>) = (w3, evs_r)"
          by (cases "remove_cover env [Log INFO ''ai_analyzer.py:348'']
             [Log WARNING ''ai_analyzer.py:350''] c (w1\<lparr>ext := x2, records_file := f'\<rparr>)")
        with assms cp False pb yes sv None have "w' = w3"
          "evs = ec @ [Publish t (markdown_to_html env ac) c True, Log INFO ''ai_analyzer.py:338'']
               @ evs_s @ evs_r @ [Log INFO ''ai_analyzer.py:354'', Sleep (publish_delay cfg)]"
          by (simp_all add: publish_generated_def Let_def)
        with cp False pb yes sv None rf rm show thesis by (intro published) simp_all
      qed
    qed
  qed
qed

lemma process_item_cases:
  assumes "publisher_given cfg" "process_item env cfg item w = (w', evs)"
  obtains
    (invalid) "evs = [Log WARNING ''ai_analyzer.py:274'']" "w' = w"
  | (no_article) topic u x1 where
      "item_title item = Some topic" "item_url item = Some u"
      "evs = [Log INFO ''ai_analyzer.py:277'', CallApi topic u, Log WARNING ''ai_analyzer.py:280'']"
      "w' = w\<lparr>ext := x1\<rparr>"
  | (generated) topic u t ac x1 evs3 where
      "item_title item = Some topic" "item_url item = Some u"
      "evs = [Log INFO ''ai_analyzer.py:277'', CallApi topic u, Log INFO ''ai_analyzer.py:287'']
             @ evs3"
      "publish_generated env cfg t ac u (w\<lparr>ext := x1\<rparr>) = (w', evs3)"
proof (cases "\<exists>topic u. item_title item = Some topic \<and> item_url item = Some u \<and> topic \<noteq> [] \<and> u \<noteq> []")
  case False
  with assms(2) have "evs = [Log WARNING ''ai_analyzer.py:274'']" "w' = w"
    by (auto simp: process_item_def split: option.splits if_splits)
  then show thesis by (rule invalid)
next
  case True
  then obtain topic u where tu: "item_title item = Some topic" "item_url item = Some u"
    "topic \<noteq> []" "u \<noteq> []" by blast
  obtain raw x1 where api: "call_deepseek_api env topic u (ext w) = (raw, x1)"
    by (cases "call_deepseek_api env topic u (ext w)")
  obtain topt ac where ex: "extract_title_and_content raw = (topt, ac)"
    by (cases "extract_title_and_content raw")
  show thesis
  proof (cases "ac = []")
    case True
    with assms(2) tu api ex have
      "evs = [Log INFO ''ai_analyzer.py:277'', CallApi topic u, Log WARNING ''ai_analyzer.py:280'']"
      "w' = w\<lparr>ext := x1\<rparr>"
      by (simp_all add: process_item_def Let_def)
    with tu show thesis by (intro no_article)
  next
    case False
    let ?t = "case topt of Some t \<Rightarrow> if t = [] then topic else t | None \<Rightarrow> topic"
    obtain w2 evs3 where pg: "publish_generated env cfg ?t ac u (w\<lparr>ext := x1\<rparr>) = (w2, evs3)"
      by (cases "publish_generated env cfg ?t ac u (w\<lparr>ext := x1\<rparr>)")
    with assms tu api ex False have
      "evs = [Log INFO ''ai_analyzer.py:277'', CallApi topic u, Log INFO ''ai_analyzer.py:287'']
             @ evs3" "w' = w2"
      by (simp_all add: process_item_def Let_def)
    with tu pg show thesis by (intro generated) simp_all
  qed
qed

section \<open>The example runs, evaluated\<close>

lemma example_env_fields [simp]:
  "call_deepseek_api (example_env n ok) topic u x = ([120], x)"
  "publish (example_env n ok) t h c x = (ok, x)"
  "markdown_to_html (example_env n ok) m = m"
  "os_remove (example_env n ok) p x = True"
  "set_order (example_env n ok) = (\<lambda>s. [])"
  by (simp_all add: example_env_def)

lemma example_extract: "extract_title_and_content [120] = (Some [120], [120])"
  by (simp add: extract_title_and_content_def Let_def py_strip_def isspace_def startswith_def
      marker_fullwidth_def marker_ascii_def truthy_def)

lemma example_cover_third_time:
  "cover_attempts (example_env 2 ok) t a (Suc 0) 3 (w\<lparr>ext := 0\<rparr>) =
     (Some [112], w\<lparr>ext := 3, files := insert [112] (files w)\<rparr>,
      cover_failed t False @ cover_failed t False @ cover_succeeded t [112])"
  apply (subst cover_attempts.simps, simp add: example_env_def cover_failed_def cover_succeeded_def)
  apply (subst cover_attempts.simps, simp add: example_env_def cover_failed_def cover_succeeded_def)
  apply (subst cover_attempts.simps, simp add: example_env_def cover_failed_def cover_succeeded_def)
  done

lemma example_cover_first_time:
  "cover_attempts (example_env 0 ok) t a (Suc 0) 3 (w\<lparr>ext := 0\<rparr>) =
     (Some [112], w\<lparr>ext := 1, files := insert [112] (files w)\<rparr>, cover_succeeded t [112])"
  by (subst cover_attempts.simps) (simp add: example_env_def cover_succeeded_def)

lemma example_cover_never:
  "cover_attempts (example_env 3 ok) t a (Suc 0) 3 (w\<lparr>ext := 0\<rparr>) =
     (None, w\<lparr>ext := 3\<rparr>,
      cover_failed t False @ cover_failed t False @ cover_failed t True)"
  apply (subst cover_attempts.simps, simp add: example_env_def cover_failed_def)
  apply (subst cover_attempts.simps, simp add: example_env_def cover_failed_def)
  apply (subst cover_attempts.simps, simp add: example_env_def cover_failed_def)
  apply (subst cover_attempts.simps, simp add: example_env_def cover_failed_def)
  done

lemma example_run_exhausted:
  "process_item (example_env 3 ok) example_cfg example_item example_world =
     (example_world\<lparr>ext := 3\<rparr>,
      [Log INFO ''ai_analyzer.py:277'', CallApi [116] [117], Log INFO ''ai_analyzer.py:287'']
      @ cover_failed [120] False @ cover_failed [120] False @ cover_failed [120] True
      @ [Log WARNING ''ai_analyzer.py:331''])"
  by (simp add: process_item_def publish_generated_def example_item_def example_cfg_def
      example_world_def example_extract Let_def
      example_cover_never [of ok "[120]" "[120]"
        "\<lparr>ext = 0, records_file = disk_file Missing, files = {}\<rparr>", simplified])

lemma example_directory_exhausted:
  "publish_directory_item (example_env 3 ok) True 8 [120] [104] [114] example_world =
     (example_world\<lparr>ext := 3\<rparr>,
      cover_failed [120] False @ cover_failed [120] False @ cover_failed [120] True
      @ [Log WARNING ''publisher.py:589''])"
  by (simp add: publish_directory_item_def example_world_def Let_def
      example_cover_never [of ok "[120]" "[114]"
        "\<lparr>ext = 0, records_file = disk_file Missing, files = {}\<rparr>", simplified])

section \<open>Bounded retries of the cover generation\<close>

lemma cover_part_generated:
  assumes "(if g then cover_attempts env t a 1 3 w else (None, w, [])) = (c, w1, ec)"
    and "g" and "c \<noteq> None"
  shows "cover_calls ec @ ys \<noteq> [None, None, None]"
proof -
  from cover_part_cases [OF assms(1)] assms(2,3) obtain p where
    "ec = cover_succeeded t p \<or> ec = cover_failed t False @ cover_succeeded t p \<or>
     ec = cover_failed t False @ cover_failed t False @ cover_succeeded t p"
    by auto
  then show ?thesis
    by (elim disjE) (simp_all add: cover_calls_append)
qed

lemma publish_generated_exhausted:
  assumes "cover_mode_generate cfg"
    and "publish_generated env cfg t ac u w = (w', evs)"
    and "cover_calls evs = [None, None, None]"
  shows "evs = cover_failed t False @ cover_failed t False @ cover_failed t True
                  @ [Log WARNING ''ai_analyzer.py:331'']
         \<and> records_file w' = records_file w"
  using assms(2)
proof (cases rule: publish_generated_cases)
  case skipped
  then show ?thesis by simp
next
  case (failed c w1 ec x2)
  with assms(1) have "c \<noteq> None" by simp
  from cover_part_generated [OF failed(1) assms(1) this, of "[]"] assms(3) failed(5)
  show ?thesis by (simp add: cover_calls_append)
next
  case (raised c w1 ec x2 e f' evs_s)
  with assms(1) have "c \<noteq> None" by simp
  from cover_part_generated [OF raised(1) assms(1) this, of "cover_calls evs_s"]
    assms(3) raised(6)
  show ?thesis by (simp add: cover_calls_append)
next
  case (published c w1 ec x2 f' evs_s evs_r)
  with assms(1) have "c \<noteq> None" by simp
  from cover_part_generated [OF published(1) assms(1) this,
      of "cover_calls evs_s @ cover_calls evs_r"] assms(3) published(6)
  show ?thesis by (simp add: cover_calls_append)
qed

lemma process_item_exhausted:
  assumes "publisher_given cfg" "cover_mode_generate cfg"
    and "process_item env cfg item w = (w', evs)"
    and "cover_calls evs = [None, None, None]"
  shows "(\<forall>ti h c ok. Publish ti h c ok \<notin> set evs) \<and> (\<forall>s. WriteRecords s \<notin> set evs) \<and>
         records_file w' = records_file w \<and>
         (\<exists>pre. evs = pre @ [Log WARNING ''ai_analyzer.py:331''])"
proof (rule process_item_cases [OF assms(1,3)])
  assume ev: "evs = [Log WARNING ''ai_analyzer.py:274'']"
  have "cover_calls evs = []" unfolding ev by simp
  with assms(4) have False by simp
  then show ?thesis ..
next
  fix topic u
  assume ev: "evs = [Log INFO ''ai_analyzer.py:277'', CallApi topic u, Log WARNING ''ai_analyzer.py:280'']"
  have "cover_calls evs = []" unfolding ev by simp
  with assms(4) have False by simp
  then show ?thesis ..
next
  fix topic u t ac x1 evs3
  assume ev: "evs = [Log INFO ''ai_analyzer.py:277'', CallApi topic u, Log INFO ''ai_analyzer.py:287'']
             @ evs3"
    and pg: "publish_generated env cfg t ac u (w\<lparr>ext := x1\<rparr>) = (w', evs3)"
  have "cover_calls evs = cover_calls evs3" unfolding ev by simp
  with assms(4) have "cover_calls evs3 = [None, None, None]" by simp
  from publish_generated_exhausted [OF assms(2) pg this]
  have e: "evs3 = cover_failed t False @ cover_failed t False @ cover_failed t True
                  @ [Log WARNING ''ai_analyzer.py:331'']"
    and r: "records_file w' = records_file w" by simp_all
  have x: "\<exists>pre. evs = pre @ [Log WARNING ''ai_analyzer.py:331'']"
    by (rule exI [where x = "[Log INFO ''ai_analyzer.py:277'', CallApi topic u,
          Log INFO ''ai_analyzer.py:287'']
          @ cover_failed t False @ cover_failed t False @ cover_failed t True"])
       (simp add: ev e)
  have p1: "\<forall>ti h c ok. Publish ti h c ok \<notin> set evs"
    unfolding ev e cover_failed_def by simp
  have p2: "\<forall>s. WriteRecords s \<notin> set evs"
    unfolding ev e cover_failed_def by simp
  show ?thesis
    by (rule conjI [OF p1 conjI [OF p2 conjI [OF r x]]])
qed

lemma publish_directory_item_exhausted:
  assumes "publish_directory_item env True d t h raw w = (w', evs)"
    and "cover_calls evs = [None, None, None]"
  shows "(\<forall>ti hi c ok. Publish ti hi c ok \<notin> set evs) \<and>
         evs = cover_failed t False @ cover_failed t False @ cover_failed t True
                @ [Log WARNING ''publisher.py:589'']"
proof -
  obtain c w1 ec where cp:
    "(if True then cover_attempts env t (take 100 raw) 1 3 w else (None, w, [])) = (c, w1, ec)"
    by (cases "cover_attempts env t (take 100 raw) 1 3 w") auto
  then have ca: "cover_attempts env t (take 100 raw) 1 3 w = (c, w1, ec)" by simp
  show ?thesis
  proof (cases c)
    case None
    with cover_part_cases [OF cp]
    have ec: "ec = cover_failed t False @ cover_failed t False @ cover_failed t True" by simp
    from assms(1) ca None have "evs = ec @ [Log WARNING ''publisher.py:589'']"
      by (simp add: publish_directory_item_def)
    with ec show ?thesis by (simp add: cover_failed_def)
  next
    case (Some p)
    then have cn: "c \<noteq> None" by simp
    obtain ok x2 where pb: "publish env t h c (ext w1) = (ok, x2)"
      by (cases "publish env t h c (ext w1)")
    obtain w3 evs_r where rm:
      "remove_cover env (if ok then [Log INFO ''publisher.py:601''] else [Log INFO ''publisher.py:610''])
         (if ok then [Log WARNING ''publisher.py:603''] else []) c (w1\<lparr>ext := x2\<rparr>) = (w3, evs_r)"
      by (cases "remove_cover env
         (if ok then [Log INFO ''publisher.py:601''] else [Log INFO ''publisher.py:610''])
         (if ok then [Log WARNING ''publisher.py:603''] else []) c (w1\<lparr>ext := x2\<rparr>)")
    have "evs = ec @ [Publish t h c ok, Log (if ok then INFO else ERROR)
                 (if ok then ''publisher.py:596'' else ''publisher.py:605'')] @ evs_r @ [Sleep d]"
      using assms(1) ca Some pb rm by (cases ok) (simp_all add: publish_directory_item_def)
    with cover_part_generated [OF cp TrueI cn, of "cover_calls evs_r"] assms(2)
    show ?thesis by (simp add: cover_calls_append)
  qed
qed

text \<open>
  Claim C4. The retry loop with 3 attempts calls the image generator at most 3 times; it
  ends with the first call that succeeds; every failed attempt but the last is followed
  by one sleep of 2 seconds, so the sleeps are 2 seconds each and one fewer than the calls
  when all fail; the record file is not touched. When all 3 attempts fail, the iteration
  of \<open>process_hot_searches\<close> publishes nothing and writes no record, ends with the warning
  of line 331, and the loop goes on with the next item; the iteration of
  \<open>publish_directory\<close> likewise publishes nothing and ends with its warning.
\<close>

theorem cover_retry_bounded:
  "(case cover_attempts env t a 1 3 w of
      (r, w', evs) \<Rightarrow>
        length (cover_calls evs) \<le> 3 \<and>
        sleeps evs = replicate (length (cover_calls evs) - 1) 2 \<and>
        records_file w' = records_file w \<and>
        ((r = None \<and>
          evs = cover_failed t False @ cover_failed t False @ cover_failed t True)
         \<or> (\<exists>p. r = Some p \<and> p \<in> files w' \<and>
                (evs = cover_succeeded t p \<or>
                 evs = cover_failed t False @ cover_succeeded t p \<or>
                 evs = cover_failed t False @ cover_failed t False @ cover_succeeded t p))))
   \<and>
   (publisher_given cfg \<and> cover_mode_generate cfg \<and>
    cover_calls (snd (process_item env cfg item w)) = [None, None, None] \<longrightarrow>
      (\<forall>ti h c ok. Publish ti h c ok \<notin> set (snd (process_item env cfg item w))) \<and>
      (\<forall>s. WriteRecords s \<notin> set (snd (process_item env cfg item w))) \<and>
      records_file (fst (process_item env cfg item w)) = records_file w \<and>
      (\<exists>pre. snd (process_item env cfg item w) = pre @ [Log WARNING ''ai_analyzer.py:331'']) \<and>
      process_items env cfg (item # rest) w =
        (case process_items env cfg rest (fst (process_item env cfg item w)) of
           (w2, evs2) \<Rightarrow> (w2, snd (process_item env cfg item w) @ evs2)))
   \<and>
   (cover_calls (snd (publish_directory_item env True d t h raw w)) = [None, None, None] \<longrightarrow>
      (\<forall>ti hi c ok. Publish ti hi c ok \<notin> set (snd (publish_directory_item env True d t h raw w))) \<and>
      snd (publish_directory_item env True d t h raw w) =
        cover_failed t False @ cover_failed t False @ cover_failed t True
          @ [Log WARNING ''publisher.py:589''])"
proof (intro conjI)
  obtain r w' evs where ca: "cover_attempts env t a 1 3 w = (r, w', evs)"
    by (cases "cover_attempts env t a 1 3 w")
  then have "(if True then cover_attempts env t a 1 3 w else (None, w, [])) = (r, w', evs)"
    by simp
  from cover_part_cases [OF this]
  have rf: "records_file w' = records_file w"
    and cs: "(r = None \<and> files w' = files w \<and>
              evs = cover_failed t False @ cover_failed t False @ cover_failed t True)
          \<or> (\<exists>p. r = Some p \<and> files w' = insert p (files w) \<and>
                 (evs = cover_succeeded t p \<or> evs = cover_failed t False @ cover_succeeded t p \<or>
                  evs = cover_failed t False @ cover_failed t False @ cover_succeeded t p))"
    by simp_all
  from cs have
    "length (cover_calls evs) \<le> 3 \<and>
     sleeps evs = replicate (length (cover_calls evs) - 1) 2 \<and>
        ((r = None \<and>
          evs = cover_failed t False @ cover_failed t False @ cover_failed t True)
         \<or> (\<exists>p. r = Some p \<and> p \<in> files w' \<and>
                (evs = cover_succeeded t p \<or>
                 evs = cover_failed t False @ cover_succeeded t p \<or>
                 evs = cover_failed t False @ cover_failed t False @ cover_succeeded t p)))"
    by (elim disjE exE conjE) (simp_all add: cover_calls_append sleeps_append)
  with rf ca show "case cover_attempts env t a 1 3 w of
      (r, w', evs) \<Rightarrow>
        length (cover_calls evs) \<le> 3 \<and>
        sleeps evs = replicate (length (cover_calls evs) - 1) 2 \<and>
        records_file w' = records_file w \<and>
        ((r = None \<and>
          evs = cover_failed t False @ cover_failed t False @ cover_failed t True)
         \<or> (\<exists>p. r = Some p \<and> p \<in> files w' \<and>
                (evs = cover_succeeded t p \<or>
                 evs = cover_failed t False @ cover_succeeded t p \<or>
                 evs = cover_failed t False @ cover_failed t False @ cover_succeeded t p)))"
    by simp
next
  show "publisher_given cfg \<and> cover_mode_generate cfg \<and>
    cover_calls (snd (process_item env cfg item w)) = [None, None, None] \<longrightarrow>
      (\<forall>ti h c ok. Publish ti h c ok \<notin> set (snd (process_item env cfg item w))) \<and>
      (\<forall>s. WriteRecords s \<notin> set (snd (process_item env cfg item w))) \<and>
      records_file (fst (process_item env cfg item w)) = records_file w \<and>
      (\<exists>pre. snd (process_item env cfg item w) = pre @ [Log WARNING ''ai_analyzer.py:331'']) \<and>
      process_items env cfg (item # rest) w =
        (case process_items env cfg rest (fst (process_item env cfg item w)) of
           (w2, evs2) \<Rightarrow> (w2, snd (process_item env cfg item w) @ evs2))"
  proof
    assume a: "publisher_given cfg \<and> cover_mode_generate cfg \<and>
      cover_calls (snd (process_item env cfg item w)) = [None, None, None]"
    obtain w' evs where pi: "process_item env cfg item w = (w', evs)"
      by (cases "process_item env cfg item w")
    with a have "cover_calls evs = [None, None, None]" by simp
    from process_item_exhausted [OF _ _ pi this] a
    have "(\<forall>ti h c ok. Publish ti h c ok \<notin> set evs) \<and> (\<forall>s. WriteRecords s \<notin> set evs) \<and>
         records_file w' = records_file w \<and>
         (\<exists>pre. evs = pre @ [Log WARNING ''ai_analyzer.py:331''])" by simp
    moreover have "process_items env cfg (item # rest) w =
        (case process_items env cfg rest w' of (w2, evs2) \<Rightarrow> (w2, evs @ evs2))"
      by (simp add: pi)
    ultimately show "(\<forall>ti h c ok. Publish ti h c ok \<notin> set (snd (process_item env cfg item w))) \<and>
      (\<forall>s. WriteRecords s \<notin> set (snd (process_item env cfg item w))) \<and>
      records_file (fst (process_item env cfg item w)) = records_file w \<and>
      (\<exists>pre. snd (process_item env cfg item w) = pre @ [Log WARNING ''ai_analyzer.py:331'']) \<and>
      process_items env cfg (item # rest) w =
        (case process_items env cfg rest (fst (process_item env cfg item w)) of
           (w2, evs2) \<Rightarrow> (w2, snd (process_item env cfg item w) @ evs2))"
      by (simp add: pi)
  qed
next
  show "cover_calls (snd (publish_directory_item env True d t h raw w)) = [None, None, None] \<longrightarrow>
      (\<forall>ti hi c ok. Publish ti hi c ok \<notin> set (snd (publish_directory_item env True d t h raw w))) \<and>
      snd (publish_directory_item env True d t h raw w) =
        cover_failed t False @ cover_failed t False @ cover_failed t True
          @ [Log WARNING ''publisher.py:589'']"
  proof
    assume a: "cover_calls (snd (publish_directory_item env True d t h raw w)) = [None, None, None]"
    obtain w' evs where pd: "publish_directory_item env True d t h raw w = (w', evs)"
      by (cases "publish_directory_item env True d t h raw w")
    with a have "cover_calls evs = [None, None, None]" by simp
    from publish_directory_item_exhausted [OF pd this]
    have "(\<forall>ti hi c ok. Publish ti hi c ok \<notin> set evs) \<and>
      evs = cover_failed t False @ cover_failed t False @ cover_failed t True
          @ [Log WARNING ''publisher.py:589'']" .
    then show "(\<forall>ti hi c ok. Publish ti hi c ok \<notin> set (snd (publish_directory_item env True d t h raw w))) \<and>
      snd (publish_directory_item env True d t h raw w) =
        cover_failed t False @ cover_failed t False @ cover_failed t True
          @ [Log WARNING ''publisher.py:589'']"
      unfolding pd snd_conv .
  qed
qed

text \<open>The theorem on the example world with an image generator that raises three times:
  the iteration of \<open>process_hot_searches\<close> and that of \<open>publish_directory\<close> call it three
  times, publish nothing and leave the record file alone. With a generator that raises
  twice, the loop returns the third result after two sleeps of 2 seconds.\<close>

theorem cover_retry_bounded_witness:
  "cover_calls (snd (process_item (example_env 3 True) example_cfg example_item example_world))
     = [None, None, None]
   \<and> (\<forall>ti h c ok. Publish ti h c ok
         \<notin> set (snd (process_item (example_env 3 True) example_cfg example_item example_world)))
   \<and> (\<forall>s. WriteRecords s
         \<notin> set (snd (process_item (example_env 3 True) example_cfg example_item example_world)))
   \<and> records_file (fst (process_item (example_env 3 True) example_cfg example_item example_world))
     = records_file example_world
   \<and> cover_calls (snd (publish_directory_item (example_env 3 True) True 8 [120] [104] [114]
        example_world)) = [None, None, None]
   \<and> (\<forall>ti hi c ok. Publish ti hi c ok
         \<notin> set (snd (publish_directory_item (example_env 3 True) True 8 [120] [104] [114]
               example_world)))
   \<and> (case cover_attempts (example_env 2 True) [120] [120] 1 3 (example_world\<lparr>ext := 0\<rparr>) of
        (r, w', evs) \<Rightarrow> r = Some [112] \<and> length (cover_calls evs) \<le> 3 \<and> sleeps evs = [2, 2])"
proof -
  let ?run = "process_item (example_env 3 True) example_cfg example_item example_world"
  let ?dir = "publish_directory_item (example_env 3 True) True 8 [120] [104] [114] example_world"
  note T = cover_retry_bounded [where env = "example_env 3 True" and cfg = example_cfg
      and item = example_item and w = example_world and d = 8 and t = "[120]" and h = "[104]"
      and raw = "[114]" and rest = "[]"]
  have c1: "cover_calls (snd ?run) = [None, None, None]"
    by (simp add: example_run_exhausted cover_calls_append)
  have h1: "publisher_given example_cfg \<and> cover_mode_generate example_cfg \<and>
      cover_calls (snd ?run) = [None, None, None]"
    using c1 by (simp add: example_cfg_def)
  have c2: "cover_calls (snd ?dir) = [None, None, None]"
    by (simp add: example_directory_exhausted cover_calls_append)
  from T [THEN conjunct2, THEN conjunct1, THEN mp, OF h1]
  have a: "(\<forall>ti h c ok. Publish ti h c ok \<notin> set (snd ?run))"
    and b: "(\<forall>s. WriteRecords s \<notin> set (snd ?run))"
    and c: "records_file (fst ?run) = records_file example_world"
    by simp_all
  have d: "\<forall>ti hi c ok. Publish ti hi c ok \<notin> set (snd ?dir)"
    by (rule T [THEN conjunct2, THEN conjunct2, THEN mp, OF c2, THEN conjunct1])
  have e: "case cover_attempts (example_env 2 True) [120] [120] 1 3 (example_world\<lparr>ext := 0\<rparr>) of
        (r, w', evs) \<Rightarrow> r = Some [112] \<and> length (cover_calls evs) \<le> 3 \<and> sleeps evs = [2, 2]"
    using cover_retry_bounded [where env = "example_env 2 True" and t = "[120]" and a = "[120]"
        and w = "example_world\<lparr>ext := 0\<rparr>", THEN conjunct1]
    by (simp add: example_cover_third_time cover_calls_append sleeps_append)
  from c1 a b c c2 d e show ?thesis by (intro conjI)
qed



lemma example_run_publish_failed:
  "process_item (example_env 0 False) example_cfg example_item example_world =
     (\<lparr>ext = 1, records_file = disk_file Missing, files = {[112]}\<rparr>,
      [Log INFO ''ai_analyzer.py:277'', CallApi [116] [117], Log INFO ''ai_analyzer.py:287'']
      @ cover_succeeded [120] [112]
      @ [Publish [120] [120] (Some [112]) False, Log ERROR ''ai_analyzer.py:359''])"
  by (simp add: process_item_def publish_generated_def example_item_def example_cfg_def
      example_world_def example_extract Let_def
      example_cover_first_time [of False "[120]" "[120]"
        "\<lparr>ext = 0, records_file = disk_file Missing, files = {}\<rparr>", simplified])

lemma example_directory_publish_failed:
  "publish_directory_item (example_env 0 False) True 8 [120] [104] [114] example_world =
     (\<lparr>ext = 1, records_file = disk_file Missing, files = {}\<rparr>,
      cover_succeeded [120] [112]
      @ [Publish [120] [104] (Some [112]) False, Log ERROR ''publisher.py:605'',
         RemoveFile [112], Log INFO ''publisher.py:610'', Sleep 8])"
  by (simp add: publish_directory_item_def example_world_def Let_def remove_cover_def
      example_cover_first_time [of False "[120]" "[114]"
        "\<lparr>ext = 0, records_file = disk_file Missing, files = {}\<rparr>", simplified])

section \<open>Records are written after a successful publish\<close>



lemma save_published_record_raise:
  "fst (save_published_record order u f) = Some e \<Longrightarrow>
   WriteRecords s \<notin> set (snd (snd (save_published_record order u f)))"
  using load_published_records_events [of "content f"]
  by (cases "load_published_records (content f)")
     (auto simp: save_published_record_def Let_def write_json_def
           split: sum.splits if_splits write_outcome.splits)














section \<open>Cover files after a failed publish\<close>

text \<open>
  Claim C6 on the example run in which the cover is generated at the first attempt (file
  \<open>"p"\<close>) and \<open>publish\<close> raises. The iteration of \<open>process_hot_searches\<close> ends in its
  \<open>except\<close> handler: \<open>os.remove\<close> is never called and the cover file still exists when the
  iteration is over. The iteration of \<open>publish_directory\<close> on the same outside world
  removes the file in its handler.
\<close>

theorem cover_outlives_failed_publish:
  "Publish [120] [120] (Some [112]) False
     \<in> set (snd (process_item (example_env 0 False) example_cfg example_item example_world))
   \<and> [112] \<in> files (fst (process_item (example_env 0 False) example_cfg example_item
                          example_world))
   \<and> (\<forall>p. RemoveFile p
         \<notin> set (snd (process_item (example_env 0 False) example_cfg example_item example_world)))
   \<and> RemoveFile [112]
       \<in> set (snd (publish_directory_item (example_env 0 False) True 8 [120] [104] [114]
                    example_world))
   \<and> [112] \<notin> files (fst (publish_directory_item (example_env 0 False) True 8 [120] [104] [114]
                          example_world))"
  by (simp add: example_run_publish_failed example_directory_publish_failed cover_succeeded_def)

section \<open>The items \<open>process_hot_searches\<close> runs over\<close>



















section \<open>Lookups that fail during \<open>publish\<close>\<close>

lemma then_do_Inl:
  "m st = (Inl e, st1, evs1) \<Longrightarrow> then_do m k st = (Inl e, st1, evs1)"
  by (simp add: then_do_def)

lemma then_do_Inr:
  "m st = (Inr x, st1, evs1) \<Longrightarrow>
   then_do m k st = (case k x st1 of (r, st2, evs2) \<Rightarrow> (r, st2, evs1 @ evs2))"
  by (simp add: then_do_def)

lemma then_do_emit:
  "then_do (emit evs) k st = (case k () st of (r, st2, evs2) \<Rightarrow> (r, st2, evs @ evs2))"
  by (simp add: then_do_def emit_def)

lemma then_do_returns:
  assumes "fst (then_do m k st) = Inr y"
  shows "\<exists>x st1 evs1. m st = (Inr x, st1, evs1) \<and> fst (k x st1) = Inr y \<and>
           snd (snd (then_do m k st)) = evs1 @ snd (snd (k x st1))"
proof -
  obtain r st1 evs1 where m: "m st = (r, st1, evs1)" by (cases "m st")
  show ?thesis
  proof (cases r)
    case (Inl e)
    with m assms show ?thesis by (simp add: then_do_def)
  next
    case (Inr x)
    with m assms show ?thesis
      by (cases "k x st1") (auto simp: then_do_def)
  qed
qed

lemma try_selectors_None_result:
  "try_selectors wait n k sels cache f = (None, c', f', evs) \<Longrightarrow>
   c' = cache \<and> f' = f \<and> evs = map Probe sels"
proof (induction sels arbitrary: n evs)
  case Nil
  then show ?case by simp
next
  case (Cons s sels)
  show ?case
  proof (cases "wait n s")
    case None
    obtain r c1 f1 e1 where t: "try_selectors wait (Suc n) k sels cache f = (r, c1, f1, e1)"
      by (cases "try_selectors wait (Suc n) k sels cache f")
    with Cons.prems None have "r = None" "c1 = c'" "f1 = f'" "evs = Probe s # e1"
      by simp_all
    with Cons.IH [of "Suc n" e1] t show ?thesis by simp
  next
    case (Some el)
    with Cons.prems show ?thesis by (simp add: Let_def split: prod.splits)
  qed
qed

lemma find_element_with_cache_None_result:
  assumes "find_element_with_cache wait k sels cache f = (None, c', f', evs)"
  shows "c' = cache \<and> f' = f \<and> (\<forall>tag. Log WARNING tag \<notin> set evs)"
proof (cases "cached_candidate cache k sels")
  case None
  with assms have "try_selectors wait 0 k sels cache f = (None, c', f', evs)"
    by (simp add: find_element_with_cache_def)
  from try_selectors_None_result [OF this] show ?thesis by auto
next
  case (Some c)
  show ?thesis
  proof (cases "wait 0 c")
    case (Some el)
    with assms \<open>cached_candidate cache k sels = Some c\<close> show ?thesis
      by (simp add: find_element_with_cache_def)
  next
    case None
    obtain r c1 f1 e1 where t: "try_selectors wait 1 k sels cache f = (r, c1, f1, e1)"
      by (cases "try_selectors wait 1 k sels cache f")
    with assms None \<open>cached_candidate cache k sels = Some c\<close>
    have "r = None" "c1 = c'" "f1 = f'" "evs = Probe c # Log DEBUG ''publisher.py:168'' # e1"
      by (simp_all add: find_element_with_cache_def)
    with try_selectors_None_result [of wait 1 k sels cache f c1 f1 e1] t show ?thesis by auto
  qed
qed

lemma find_cached_None_quiet:
  assumes "find_cached b k sels st = (Inr None, st1, evs1)"
  shows "\<forall>tag. Log WARNING tag \<notin> set evs1"
proof -
  obtain r c' f' evs where f: "find_element_with_cache (\<lambda>n. locate b (clock st + n)) k sels
             (selector_cache st) (cache_file st) = (r, c', f', evs)"
    by (cases "find_element_with_cache (\<lambda>n. locate b (clock st + n)) k sels
             (selector_cache st) (cache_file st)")
  with assms have "r = None" "evs = evs1" by (simp_all add: find_cached_def)
  with f have "find_element_with_cache (\<lambda>n. locate b (clock st + n)) k sels
             (selector_cache st) (cache_file st) = (None, c', f', evs1)" by simp
  from find_element_with_cache_None_result [OF this] show ?thesis by simp
qed

lemma find_cached_returns: "\<exists>r st1 evs1. find_cached b k sels st = (Inr r, st1, evs1)"
  by (cases "find_element_with_cache (\<lambda>n. locate b (clock st + n)) k sels
             (selector_cache st) (cache_file st)") (simp add: find_cached_def)

lemma submit_preview_missing:
  assumes "find_cached b (ascii ''preview_publish_btn'') preview_publish_selectors st
             = (Inr None, st1, evs1)"
  shows "submit b st =
     (Inl RuntimeError, st1,
      [Log INFO ''publisher.py:459'', Log INFO ''publisher.py:462''] @ evs1)"
  using assms by (simp add: submit_def then_do_def emit_def raise_exc_def)

lemma submit_confirm_missing:
  assumes "find_cached b (ascii ''preview_publish_btn'') preview_publish_selectors st
             = (Inr (Some found), st1, evs1)"
    and "act b (clock st1)"
    and "find_cached b (ascii ''confirm_publish_btn'') confirm_publish_selectors
             (st1\<lparr>clock := Suc (clock st1)\<rparr>) = (Inr None, st2, evs2)"
  shows "submit b st =
     (Inr (), st2,
      [Log INFO ''publisher.py:459'', Log INFO ''publisher.py:462''] @ evs1
      @ [Action ''publisher.py:481'', Log INFO ''publisher.py:482'', Sleep 3,
         Log INFO ''publisher.py:489'']
      @ evs2 @ [Log WARNING ''publisher.py:511'', Sleep 3, Log INFO ''publisher.py:514''])"
  using assms
  by (cases found)
     (simp add: submit_def then_do_def raise_exc_def action_def emit_def)

lemma ensure_single_cover_mode_missing:
  assumes "find_cached b (ascii ''single_cover_mode'') single_cover_candidates st
             = (Inr None, st1, evs1)"
  shows "ensure_single_cover_mode b st = (Inr (), st1, evs1 @ [Log WARNING ''publisher.py:342''])"
  using assms by (simp add: ensure_single_cover_mode_def then_do_def emit_def)

lemma confirm_cover_upload_missing:
  assumes "find_cached b (ascii ''cover_upload_confirm'') confirm_selectors st
             = (Inr None, st1, evs1)"
  shows "confirm_cover_upload b st =
           (Inr (), st1, [Sleep 2] @ evs1 @ [Log DEBUG ''publisher.py:455''])"
  using assms by (simp add: confirm_cover_upload_def then_do_def emit_def)

lemma submit_returns:
  assumes "fst (submit b st) = Inr ()"
  shows "Log INFO ''publisher.py:482'' \<in> set (snd (snd (submit b st))) \<and>
         last (snd (snd (submit b st))) = Log INFO ''publisher.py:514''"
proof -
  obtain r1 st1 evs1 where f1:
    "find_cached b (ascii ''preview_publish_btn'') preview_publish_selectors st = (Inr r1, st1, evs1)"
    using find_cached_returns by blast
  show ?thesis
  proof (cases r1)
    case None
    with f1 have "fst (submit b st) = Inl RuntimeError"
      by (simp add: submit_preview_missing)
    with assms show ?thesis by simp
  next
    case (Some found)
    obtain r2 st2 evs2 where f2:
      "find_cached b (ascii ''confirm_publish_btn'') confirm_publish_selectors
         (st1\<lparr>clock := Suc (clock st1)\<rparr>) = (Inr r2, st2, evs2)"
      using find_cached_returns by blast
    from assms f1 Some have a: "act b (clock st1)"
      by (cases found; cases "act b (clock st1)")
         (simp_all add: submit_def then_do_def raise_exc_def action_def emit_def)
    show ?thesis
      using f1 Some a f2 assms
      by (cases found; cases r2; cases "act b (clock st2)")
         (auto simp: submit_def then_do_def raise_exc_def action_def emit_def
               split: prod.splits)
  qed
qed

lemma then_do_suffix:
  assumes "fst (then_do m k st) = Inr y"
    and "\<And>x st1. fst (k x st1) = Inr y \<Longrightarrow> P (snd (snd (k x st1)))"
    and "\<And>pre evs. P evs \<Longrightarrow> P (pre @ evs)"
  shows "P (snd (snd (then_do m k st)))"
proof -
  from then_do_returns [OF assms(1)]
  obtain x st1 evs1 where k: "fst (k x st1) = Inr y"
    and e: "snd (snd (then_do m k st)) = evs1 @ snd (snd (k x st1))" by blast
  from assms(2) [OF k] have "P (snd (snd (k x st1)))" .
  then have "P (evs1 @ snd (snd (k x st1)))" by (rule assms(3))
  then show ?thesis by (simp add: e)
qed

lemma publisher_publish_returns:
  assumes "fst (publisher_publish b t h c u st) = Inr ()"
  shows "Log INFO ''publisher.py:482'' \<in> set (snd (snd (publisher_publish b t h c u st))) \<and>
         last (snd (snd (publisher_publish b t h c u st))) = Log INFO ''publisher.py:514''"
proof -
  define P where "P evs \<longleftrightarrow> Log INFO ''publisher.py:482'' \<in> set evs \<and> evs \<noteq> [] \<and>
      last evs = Log INFO ''publisher.py:514''" for evs
  have pre: "\<And>pre evs. P evs \<Longrightarrow> P (pre @ evs)" by (simp add: P_def)
  have sub: "\<And>st1. fst (submit b st1) = Inr () \<Longrightarrow> P (snd (snd (submit b st1)))"
  proof -
    fix st1 assume r: "fst (submit b st1) = Inr ()"
    from submit_returns [OF r] have "snd (snd (submit b st1)) \<noteq> []" by auto
    with submit_returns [OF r] show "P (snd (snd (submit b st1)))" by (simp add: P_def)
  qed
  have step: "\<And>(m :: unit step) (k :: unit \<Rightarrow> unit step) st0.
      fst (then_do m k st0) = Inr () \<Longrightarrow>
      (\<And>x st1. fst (k x st1) = Inr () \<Longrightarrow> P (snd (snd (k x st1)))) \<Longrightarrow>
      P (snd (snd (then_do m k st0)))"
  proof -
    fix m :: "unit step" and k :: "unit \<Rightarrow> unit step" and st0
    assume a: "fst (then_do m k st0) = Inr ()"
      and b: "\<And>x st1. fst (k x st1) = Inr () \<Longrightarrow> P (snd (snd (k x st1)))"
    show "P (snd (snd (then_do m k st0)))"
      by (rule then_do_suffix [where P = P and y = "()", OF a b pre])
  qed
  from assms have s: "started st"
    by (cases "started st") (simp_all add: publisher_publish_def raise_exc_def)
  have "P (snd (snd (publisher_publish b t h c u st)))"
    using assms unfolding publisher_publish_def
    apply (simp only: s not_True_eq_False if_False)
    apply (erule step)
    apply (erule step)
    apply (erule step)
    apply (erule step)
    apply (erule step)
    apply (erule step)
    apply (erule sub)
    done
  then show ?thesis by (simp add: P_def)
qed

lemma logged_append: "logged (xs @ ys) = logged xs @ logged ys"
  by (induction xs rule: logged.induct) simp_all

lemma logged_map_Probe: "logged (map Probe ss) = []"
  by (induction ss) simp_all

lemma find_cached_blank:
  "find_cached blank_page k sels \<lparr>started = s, clock = n, selector_cache = [], cache_file = f\<rparr> =
     (Inr None, \<lparr>started = s, clock = n + length sels, selector_cache = [], cache_file = f\<rparr>,
      map Probe sels)"
proof -
  have "try_selectors (\<lambda>m. locate blank_page (n + m)) 0 k sels [] f =
          (None, [], f, map Probe sels)"
    by (rule try_selectors_none) (simp add: blank_page_def)
  then show ?thesis
    by (simp add: find_cached_def find_element_with_cache_def cached_candidate_def
        probed_map_Probe)
qed

lemma example_preview_found:
  "find_cached example_page (ascii ''preview_publish_btn'') preview_publish_selectors
     example_publisher =
     (Inr (Some (0, hd preview_publish_selectors)),
      \<lparr>started = True, clock = 1,
         selector_cache = [(ascii ''preview_publish_btn'', JStr (hd preview_publish_selectors))],
         cache_file = disk_file (Json (JDict
           [(ascii ''preview_publish_btn'', JStr (hd preview_publish_selectors))]))\<rparr>,
      [Probe (hd preview_publish_selectors),
       WriteCache [(ascii ''preview_publish_btn'', JStr (hd preview_publish_selectors))],
       Log DEBUG ''publisher.py:134'', Log INFO ''publisher.py:183''])"
  by (simp add: find_cached_def find_element_with_cache_def cached_candidate_def
      example_page_def example_publisher_def Let_def preview_publish_selectors_def
      title_area_selector_def editor_selector_def cover_upload_selectors_def ascii_def
      save_selector_cache_def write_json_def disk_file_def surrogate_def)

lemma example_confirm_missing:
  "find_cached example_page (ascii ''confirm_publish_btn'') confirm_publish_selectors
     \<lparr>started = True, clock = 2,
        selector_cache = [(ascii ''preview_publish_btn'', JStr (hd preview_publish_selectors))],
        cache_file = disk_file (Json (JDict
          [(ascii ''preview_publish_btn'', JStr (hd preview_publish_selectors))]))\<rparr> =
     (Inr None,
      \<lparr>started = True, clock = 5,
         selector_cache = [(ascii ''preview_publish_btn'', JStr (hd preview_publish_selectors))],
         cache_file = disk_file (Json (JDict
           [(ascii ''preview_publish_btn'', JStr (hd preview_publish_selectors))]))\<rparr>,
      map Probe confirm_publish_selectors)"
  by (simp add: find_cached_def find_element_with_cache_def cached_candidate_def
      example_page_def Let_def preview_publish_selectors_def confirm_publish_selectors_def
      title_area_selector_def editor_selector_def cover_upload_selectors_def ascii_def)

lemma example_publish_run:
  "fst (publisher_publish example_page [116] [104] (Some [112]) True example_publisher) = Inr ()
   \<and> logged (snd (snd (publisher_publish example_page [116] [104] (Some [112]) True
        example_publisher))) =
     [(INFO, ''publisher.py:284''), (INFO, ''publisher.py:303''), (INFO, ''publisher.py:313''),
      (INFO, ''publisher.py:369''), (WARNING, ''publisher.py:342''),
      (DEBUG, ''publisher.py:134''), (INFO, ''publisher.py:183''), (INFO, ''publisher.py:405''),
      (DEBUG, ''publisher.py:455''),
      (INFO, ''publisher.py:459''), (INFO, ''publisher.py:462''),
      (DEBUG, ''publisher.py:134''), (INFO, ''publisher.py:183''), (INFO, ''publisher.py:482''),
      (INFO, ''publisher.py:489''), (WARNING, ''publisher.py:511''),
      (INFO, ''publisher.py:514'')]"
  by (simp add: publisher_publish_def fill_title_def fill_content_def upload_cover_image_def
     ensure_single_cover_mode_def confirm_cover_upload_def submit_def caught_def wait_until_def
     then_do_def emit_def raise_exc_def action_def find_cached_def find_element_with_cache_def
     cached_candidate_def example_page_def example_publisher_def Let_def
     single_cover_candidates_def cover_upload_selectors_def confirm_selectors_def
     preview_publish_selectors_def confirm_publish_selectors_def
     title_area_selector_def editor_selector_def ascii_def
     save_selector_cache_def write_json_def disk_file_def surrogate_def)

text \<open>
  Claim C5, as the code has it. A lookup fails when \<open>find_element_with_cache\<close> returns
  \<open>None\<close> to the method that called it. When the preview-and-publish button is not
  found, \<open>_submit\<close> raises \<open>RuntimeError\<close> right after the lookup and does nothing more;
  \<open>publish\<close> has no handler, and it returns only after the button was found and clicked
  (the entry of line 482) and \<open>_submit\<close> has run to its last entry. When the button was
  found and clicked and the confirm-publish button is not found, \<open>_submit\<close> logs the
  warning of line 511, sleeps and returns after its last entry. When the option of the
  single cover is not found, \<open>_ensure_single_cover_mode\<close> logs the warning of line 342 and
  returns. When the button that confirms the cover is not found, \<open>_confirm_cover_upload\<close>
  logs the entry of line 455, which is of level \<open>DEBUG\<close>, logs no warning, and returns.
\<close>

theorem publish_lookup_failures:
  "(find_cached b (ascii ''preview_publish_btn'') preview_publish_selectors st
      = (Inr None, st1, evs1) \<longrightarrow>
      submit b st =
        (Inl RuntimeError, st1,
         [Log INFO ''publisher.py:459'', Log INFO ''publisher.py:462''] @ evs1))
   \<and>
   (fst (publisher_publish b t h c u st) = Inr () \<longrightarrow>
      Log INFO ''publisher.py:482'' \<in> set (snd (snd (publisher_publish b t h c u st))) \<and>
      last (snd (snd (publisher_publish b t h c u st))) = Log INFO ''publisher.py:514'')
   \<and>
   (find_cached b (ascii ''preview_publish_btn'') preview_publish_selectors st
      = (Inr (Some found), st2, evs2) \<and>
    act b (clock st2) \<and>
    find_cached b (ascii ''confirm_publish_btn'') confirm_publish_selectors
      (st2\<lparr>clock := Suc (clock st2)\<rparr>) = (Inr None, st3, evs3) \<longrightarrow>
      submit b st =
        (Inr (), st3,
         [Log INFO ''publisher.py:459'', Log INFO ''publisher.py:462''] @ evs2
         @ [Action ''publisher.py:481'', Log INFO ''publisher.py:482'', Sleep 3,
            Log INFO ''publisher.py:489'']
         @ evs3 @ [Log WARNING ''publisher.py:511'', Sleep 3, Log INFO ''publisher.py:514'']))
   \<and>
   (find_cached b (ascii ''single_cover_mode'') single_cover_candidates st
      = (Inr None, st4, evs4) \<longrightarrow>
      ensure_single_cover_mode b st =
        (Inr (), st4, evs4 @ [Log WARNING ''publisher.py:342'']))
   \<and>
   (find_cached b (ascii ''cover_upload_confirm'') confirm_selectors st
      = (Inr None, st5, evs5) \<longrightarrow>
      confirm_cover_upload b st =
        (Inr (), st5, [Sleep 2] @ evs5 @ [Log DEBUG ''publisher.py:455'']) \<and>
      (\<forall>tag. Log WARNING tag \<notin> set (snd (snd (confirm_cover_upload b st)))))"
proof (intro conjI impI)
  assume "find_cached b (ascii ''preview_publish_btn'') preview_publish_selectors st
      = (Inr None, st1, evs1)"
  then show "submit b st =
        (Inl RuntimeError, st1,
         [Log INFO ''publisher.py:459'', Log INFO ''publisher.py:462''] @ evs1)"
    by (rule submit_preview_missing)
next
  assume r: "fst (publisher_publish b t h c u st) = Inr ()"
  from publisher_publish_returns [OF r]
  show "Log INFO ''publisher.py:482'' \<in> set (snd (snd (publisher_publish b t h c u st)))"
    and "last (snd (snd (publisher_publish b t h c u st))) = Log INFO ''publisher.py:514''"
    by simp_all
next
  assume a: "find_cached b (ascii ''preview_publish_btn'') preview_publish_selectors st
      = (Inr (Some found), st2, evs2) \<and>
    act b (clock st2) \<and>
    find_cached b (ascii ''confirm_publish_btn'') confirm_publish_selectors
      (st2\<lparr>clock := Suc (clock st2)\<rparr>) = (Inr None, st3, evs3)"
  then have a1: "find_cached b (ascii ''preview_publish_btn'') preview_publish_selectors st
      = (Inr (Some found), st2, evs2)"
    and a2: "act b (clock st2)"
    and a3: "find_cached b (ascii ''confirm_publish_btn'') confirm_publish_selectors
      (st2\<lparr>clock := Suc (clock st2)\<rparr>) = (Inr None, st3, evs3)" by blast+
  show "submit b st =
        (Inr (), st3,
         [Log INFO ''publisher.py:459'', Log INFO ''publisher.py:462''] @ evs2
         @ [Action ''publisher.py:481'', Log INFO ''publisher.py:482'', Sleep 3,
            Log INFO ''publisher.py:489'']
         @ evs3 @ [Log WARNING ''publisher.py:511'', Sleep 3, Log INFO ''publisher.py:514''])"
    by (rule submit_confirm_missing [OF a1 a2 a3])
next
  assume "find_cached b (ascii ''single_cover_mode'') single_cover_candidates st
      = (Inr None, st4, evs4)"
  then show "ensure_single_cover_mode b st =
        (Inr (), st4, evs4 @ [Log WARNING ''publisher.py:342''])"
    by (rule ensure_single_cover_mode_missing)
next
  assume f: "find_cached b (ascii ''cover_upload_confirm'') confirm_selectors st
      = (Inr None, st5, evs5)"
  then show r: "confirm_cover_upload b st =
        (Inr (), st5, [Sleep 2] @ evs5 @ [Log DEBUG ''publisher.py:455''])"
    by (rule confirm_cover_upload_missing)
  from find_cached_None_quiet [OF f]
  show "\<forall>tag. Log WARNING tag \<notin> set (snd (snd (confirm_cover_upload b st)))"
    by (simp add: r)
qed

text \<open>The theorem on the page where nothing is found, and on the example page, which
  has the preview-and-publish button and no button to confirm the publication: there
  \<open>_submit\<close> returns after the warning of line 511, and a whole run of \<open>publish\<close> with a
  cover returns, with the button clicked.\<close>

theorem publish_lookup_failures_witness:
  "submit blank_page example_publisher =
     (Inl RuntimeError, example_publisher\<lparr>clock := 3\<rparr>,
      [Log INFO ''publisher.py:459'', Log INFO ''publisher.py:462'']
      @ map Probe preview_publish_selectors)
   \<and> fst (submit example_page example_publisher) = Inr ()
   \<and> logged (snd (snd (submit example_page example_publisher))) =
       [(INFO, ''publisher.py:459''), (INFO, ''publisher.py:462''),
        (DEBUG, ''publisher.py:134''), (INFO, ''publisher.py:183''),
        (INFO, ''publisher.py:482''), (INFO, ''publisher.py:489''),
        (WARNING, ''publisher.py:511''), (INFO, ''publisher.py:514'')]
   \<and> ensure_single_cover_mode blank_page example_publisher =
       (Inr (), example_publisher\<lparr>clock := 2\<rparr>,
        map Probe single_cover_candidates @ [Log WARNING ''publisher.py:342''])
   \<and> confirm_cover_upload blank_page example_publisher =
       (Inr (), example_publisher\<lparr>clock := 3\<rparr>,
        [Sleep 2] @ map Probe confirm_selectors @ [Log DEBUG ''publisher.py:455''])
   \<and> Log INFO ''publisher.py:482''
       \<in> set (snd (snd (publisher_publish example_page [116] [104] (Some [112]) True
                          example_publisher)))"
proof -
  let ?st = "example_publisher"
  have l3: "length preview_publish_selectors = 3" "length confirm_selectors = 3"
    "length single_cover_candidates = 2"
    by (simp_all add: preview_publish_selectors_def confirm_selectors_def
        single_cover_candidates_def)
  have f1: "find_cached blank_page (ascii ''preview_publish_btn'') preview_publish_selectors ?st
      = (Inr None, ?st\<lparr>clock := 3\<rparr>, map Probe preview_publish_selectors)"
    unfolding example_publisher_def by (simp add: find_cached_blank l3)
  have a: "submit blank_page ?st =
     (Inl RuntimeError, ?st\<lparr>clock := 3\<rparr>,
      [Log INFO ''publisher.py:459'', Log INFO ''publisher.py:462'']
      @ map Probe preview_publish_selectors)"
    by (rule publish_lookup_failures [THEN conjunct1, THEN mp, OF f1])
  have h3: "find_cached example_page (ascii ''preview_publish_btn'') preview_publish_selectors ?st
      = (Inr (Some (0, hd preview_publish_selectors)),
         \<lparr>started = True, clock = 1,
           selector_cache = [(ascii ''preview_publish_btn'', JStr (hd preview_publish_selectors))],
           cache_file = disk_file (Json (JDict
             [(ascii ''preview_publish_btn'', JStr (hd preview_publish_selectors))]))\<rparr>,
         [Probe (hd preview_publish_selectors),
          WriteCache [(ascii ''preview_publish_btn'', JStr (hd preview_publish_selectors))],
          Log DEBUG ''publisher.py:134'', Log INFO ''publisher.py:183'']) \<and>
    act example_page (clock \<lparr>started = True, clock = 1,
           selector_cache = [(ascii ''preview_publish_btn'', JStr (hd preview_publish_selectors))],
           cache_file = disk_file (Json (JDict
             [(ascii ''preview_publish_btn'', JStr (hd preview_publish_selectors))]))\<rparr>) \<and>
    find_cached example_page (ascii ''confirm_publish_btn'') confirm_publish_selectors
      (\<lparr>started = True, clock = 1,
           selector_cache = [(ascii ''preview_publish_btn'', JStr (hd preview_publish_selectors))],
           cache_file = disk_file (Json (JDict
             [(ascii ''preview_publish_btn'', JStr (hd preview_publish_selectors))]))\<rparr>
        \<lparr>clock := Suc (clock \<lparr>started = True, clock = 1,
           selector_cache = [(ascii ''preview_publish_btn'', JStr (hd preview_publish_selectors))],
           cache_file = disk_file (Json (JDict
             [(ascii ''preview_publish_btn'', JStr (hd preview_publish_selectors))]))\<rparr>)\<rparr>)
      = (Inr None,
         \<lparr>started = True, clock = 5,
           selector_cache = [(ascii ''preview_publish_btn'', JStr (hd preview_publish_selectors))],
           cache_file = disk_file (Json (JDict
             [(ascii ''preview_publish_btn'', JStr (hd preview_publish_selectors))]))\<rparr>,
         map Probe confirm_publish_selectors)"
  proof (intro conjI)
    show "find_cached example_page (ascii ''preview_publish_btn'') preview_publish_selectors ?st
      = (Inr (Some (0, hd preview_publish_selectors)),
         \<lparr>started = True, clock = 1,
           selector_cache = [(ascii ''preview_publish_btn'', JStr (hd preview_publish_selectors))],
           cache_file = disk_file (Json (JDict
             [(ascii ''preview_publish_btn'', JStr (hd preview_publish_selectors))]))\<rparr>,
         [Probe (hd preview_publish_selectors),
          WriteCache [(ascii ''preview_publish_btn'', JStr (hd preview_publish_selectors))],
          Log DEBUG ''publisher.py:134'', Log INFO ''publisher.py:183''])"
      by (rule example_preview_found)
    show "act example_page (clock \<lparr>started = True, clock = 1,
           selector_cache = [(ascii ''preview_publish_btn'', JStr (hd preview_publish_selectors))],
           cache_file = disk_file (Json (JDict
             [(ascii ''preview_publish_btn'', JStr (hd preview_publish_selectors))]))\<rparr>)"
      by (simp add: example_page_def)
    show "find_cached example_page (ascii ''confirm_publish_btn'') confirm_publish_selectors
      (\<lparr>started = True, clock = 1,
           selector_cache = [(ascii ''preview_publish_btn'', JStr (hd preview_publish_selectors))],
           cache_file = disk_file (Json (JDict
             [(ascii ''preview_publish_btn'', JStr (hd preview_publish_selectors))]))\<rparr>
        \<lparr>clock := Suc (clock \<lparr>started = True, clock = 1,
           selector_cache = [(ascii ''preview_publish_btn'', JStr (hd preview_publish_selectors))],
           cache_file = disk_file (Json (JDict
             [(ascii ''preview_publish_btn'', JStr (hd preview_publish_selectors))]))\<rparr>)\<rparr>)
      = (Inr None,
         \<lparr>started = True, clock = 5,
           selector_cache = [(ascii ''preview_publish_btn'', JStr (hd preview_publish_selectors))],
           cache_file = disk_file (Json (JDict
             [(ascii ''preview_publish_btn'', JStr (hd preview_publish_selectors))]))\<rparr>,
         map Probe confirm_publish_selectors)"
      using example_confirm_missing by (simp add: numeral_2_eq_2)
  qed
  note s = publish_lookup_failures [THEN conjunct2, THEN conjunct2, THEN conjunct1, THEN mp, OF h3]
  have b: "fst (submit example_page ?st) = Inr ()" by (simp add: s)
  have c: "logged (snd (snd (submit example_page ?st))) =
       [(INFO, ''publisher.py:459''), (INFO, ''publisher.py:462''),
        (DEBUG, ''publisher.py:134''), (INFO, ''publisher.py:183''),
        (INFO, ''publisher.py:482''), (INFO, ''publisher.py:489''),
        (WARNING, ''publisher.py:511''), (INFO, ''publisher.py:514'')]"
    by (simp add: s logged_append logged_map_Probe)
  have f4: "find_cached blank_page (ascii ''single_cover_mode'') single_cover_candidates ?st
      = (Inr None, ?st\<lparr>clock := 2\<rparr>, map Probe single_cover_candidates)"
    unfolding example_publisher_def by (simp add: find_cached_blank l3)
  have d: "ensure_single_cover_mode blank_page ?st =
       (Inr (), ?st\<lparr>clock := 2\<rparr>,
        map Probe single_cover_candidates @ [Log WARNING ''publisher.py:342''])"
    by (rule publish_lookup_failures [THEN conjunct2, THEN conjunct2, THEN conjunct2,
          THEN conjunct1, THEN mp, OF f4])
  have f5: "find_cached blank_page (ascii ''cover_upload_confirm'') confirm_selectors ?st
      = (Inr None, ?st\<lparr>clock := 3\<rparr>, map Probe confirm_selectors)"
    unfolding example_publisher_def by (simp add: find_cached_blank l3)
  have e: "confirm_cover_upload blank_page ?st =
       (Inr (), ?st\<lparr>clock := 3\<rparr>,
        [Sleep 2] @ map Probe confirm_selectors @ [Log DEBUG ''publisher.py:455''])"
    by (rule publish_lookup_failures [THEN conjunct2, THEN conjunct2, THEN conjunct2,
          THEN conjunct2, THEN mp, OF f5, THEN conjunct1])
  have r: "fst (publisher_publish example_page [116] [104] (Some [112]) True ?st) = Inr ()"
    by (rule example_publish_run [THEN conjunct1])
  have g: "Log INFO ''publisher.py:482''
       \<in> set (snd (snd (publisher_publish example_page [116] [104] (Some [112]) True ?st)))"
    by (rule publish_lookup_failures [THEN conjunct2, THEN conjunct1, THEN mp, OF r,
          THEN conjunct1])
  show ?thesis
    by (rule conjI [OF a conjI [OF b conjI [OF c conjI [OF d conjI [OF e g]]]]])
qed

text \<open>
  The claim as worded (failing to locate the cover-upload confirmation button "only logs a
  warning") fails on a page where the button is not found: \<open>_confirm_cover_upload\<close> has
  waited for its three selectors, logs one entry of level \<open>DEBUG\<close> and no warning, and
  returns.
\<close>

theorem confirm_cover_upload_counterexample:
  "confirm_cover_upload blank_page example_publisher =
     (Inr (), example_publisher\<lparr>clock := 3\<rparr>,
      [Sleep 2] @ map Probe confirm_selectors @ [Log DEBUG ''publisher.py:455''])
   \<and> logged (snd (snd (confirm_cover_upload blank_page example_publisher))) =
       [(DEBUG, ''publisher.py:455'')]
   \<and> (\<forall>tag. Log WARNING tag
         \<notin> set (snd (snd (confirm_cover_upload blank_page example_publisher))))"
proof -
  have l: "length confirm_selectors = 3" by (simp add: confirm_selectors_def)
  have f: "find_cached blank_page (ascii ''cover_upload_confirm'') confirm_selectors
             example_publisher
      = (Inr None, example_publisher\<lparr>clock := 3\<rparr>, map Probe confirm_selectors)"
    unfolding example_publisher_def by (simp add: find_cached_blank l)
  have r: "confirm_cover_upload blank_page example_publisher =
     (Inr (), example_publisher\<lparr>clock := 3\<rparr>,
      [Sleep 2] @ map Probe confirm_selectors @ [Log DEBUG ''publisher.py:455''])"
    using f by (rule confirm_cover_upload_missing)
  show ?thesis
    unfolding r by (auto simp: logged_append logged_map_Probe)
qed

end
